(* ===== verification/Prelude.thy ===== *)
theory Prelude
  imports
    Main
    "HOL-Library.List_Lexorder"
    "HOL-Library.Char_ord"
    "HOL-Library.Sublist"
    "HOL-Library.Multiset"
    "HOL-Library.State_Monad"
begin

text \<open>
  Shared vocabulary of the development: the parts of Go and of its standard library that the
  watcher's own code uses (64-bit and 32-bit integers, \<open>time.Time\<close> and \<open>time.Duration\<close>,
  \<open>strings\<close>, decimal formatting, map lookup with zero values), Go errors as values, a small
  Hoare calculus over the state monad in which the reconcilers are written, and the generic
  lemmas the component theories rest on.

  Conventions:
  \<^item> a Go string is a \<open>string\<close> whose characters are the bytes of the Go string, ordered bytewise
    (\<open>Char_ord\<close> and \<open>List_Lexorder\<close>), as Go's \<open><\<close> on strings does;
  \<^item> a \<open>time.Time\<close> is an \<open>int\<close>: the nanoseconds since Go's zero time, so that \<open>IsZero\<close> is
    equality with 0; a \<open>time.Duration\<close> is an \<open>int\<close> kept in the 64-bit signed range by the
    operations of the source that can overflow;
  \<^item> a Go map with string keys that is only looked up is a partial function.
\<close>

named_theorems wp \<open>rules of the Hoare calculus, one per program construct\<close>
named_theorems go_defs \<open>definitions of the modelled Go operations that proofs unfold freely\<close>

section \<open>Integers and time\<close>

type_synonym gotime = int
type_synonym duration = int

definition int64 :: "int \<Rightarrow> int" where
  "int64 x = (x + 2 ^ 63) mod 2 ^ 64 - 2 ^ 63"

definition int32 :: "int \<Rightarrow> int" where
  "int32 x = (x + 2 ^ 31) mod 2 ^ 32 - 2 ^ 31"

definition Second :: duration where [go_defs]: "Second = 1000000000"
definition Minute :: duration where [go_defs]: "Minute = 60000000000"
definition Hour :: duration where [go_defs]: "Hour = 3600000000000"

text \<open>\<open>t.Sub(u)\<close> and hence \<open>time.Since(u)\<close> saturate at the bounds of \<open>Duration\<close>.\<close>

definition time_Sub :: "gotime \<Rightarrow> gotime \<Rightarrow> duration" where
  "time_Sub t u = max (- (2 ^ 63)) (min (2 ^ 63 - 1) (t - u))"

definition time_IsZero :: "gotime \<Rightarrow> bool" where [go_defs]:
  "time_IsZero t \<longleftrightarrow> t = 0"

definition time_Before :: "gotime \<Rightarrow> gotime \<Rightarrow> bool" where [go_defs]:
  "time_Before t u \<longleftrightarrow> t < u"

definition time_Add :: "gotime \<Rightarrow> duration \<Rightarrow> gotime" where [go_defs]:
  "time_Add t d = t + d"

definition time_IsNil :: "gotime option \<Rightarrow> bool" where [go_defs]:
  "time_IsNil t \<longleftrightarrow> t = None"

lemma int64_id [simp]: "- (2 ^ 63) \<le> x \<Longrightarrow> x < 2 ^ 63 \<Longrightarrow> int64 x = x"
  by (simp add: int64_def)

lemma int64_range: "- (2 ^ 63) \<le> int64 x \<and> int64 x < 2 ^ 63"
proof -
  have "0 \<le> (x + 2 ^ 63) mod 2 ^ 64" and "(x + 2 ^ 63) mod 2 ^ 64 < 2 ^ 64"
    by simp_all
  then show ?thesis by (simp add: int64_def)
qed

lemma int32_id [simp]: "- (2 ^ 31) \<le> x \<Longrightarrow> x < 2 ^ 31 \<Longrightarrow> int32 x = x"
  by (simp add: int32_def)

lemma int32_range: "- (2 ^ 31) \<le> int32 x \<and> int32 x < 2 ^ 31"
proof -
  have "0 \<le> (x + 2 ^ 31) mod 2 ^ 32" and "(x + 2 ^ 31) mod 2 ^ 32 < 2 ^ 32"
    by simp_all
  then show ?thesis by (simp add: int32_def)
qed

text \<open>
  Comparing a saturated difference with a duration in range is comparing the difference, as
  long as the duration is not one of the two bounds.
\<close>

lemma time_Sub_less_iff: "- (2 ^ 63) < d \<Longrightarrow> d < 2 ^ 63 \<Longrightarrow> time_Sub t u < d \<longleftrightarrow> t - u < d"
  by (auto simp: time_Sub_def)

lemma time_Sub_greater_iff:
  "- (2 ^ 63) \<le> d \<Longrightarrow> d < 2 ^ 63 - 1 \<Longrightarrow> d < time_Sub t u \<longleftrightarrow> d < t - u"
  by (auto simp: time_Sub_def)

lemma time_Sub_exact: "- (2 ^ 63) \<le> t - u \<Longrightarrow> t - u < 2 ^ 63 \<Longrightarrow> time_Sub t u = t - u"
  by (auto simp: time_Sub_def)

lemma time_Sub_nonneg: "u \<le> t \<Longrightarrow> 0 \<le> time_Sub t u"
  by (simp add: time_Sub_def)

section \<open>Bytes\<close>

definition byte_val :: "char \<Rightarrow> int" where
  "byte_val c = of_char c"

definition byte_of :: "int \<Rightarrow> char" where
  "byte_of n = char_of n"

lemma byte_val_range [simp]: "0 \<le> byte_val c" "byte_val c < 256"
proof -
  have "byte_val c = byte_val c mod 256" by (simp add: byte_val_def)
  then show "0 \<le> byte_val c" "byte_val c < 256"
    by (metis pos_mod_sign zero_less_numeral, metis pos_mod_bound zero_less_numeral)
qed

lemma byte_val_of [simp]: "byte_val (byte_of n) = n mod 256"
  by (simp add: byte_val_def byte_of_def)

lemma byte_of_val [simp]: "byte_of (byte_val c) = c"
  by (simp add: byte_val_def byte_of_def)

lemma byte_eq_iff: "c = d \<longleftrightarrow> byte_val c = byte_val d"
  by (metis byte_of_val)

section \<open>Strings\<close>

abbreviation strings_HasPrefix :: "string \<Rightarrow> string \<Rightarrow> bool" where
  "strings_HasPrefix s p \<equiv> prefix p s"

text \<open>\<open>strings.ReplaceAll(s, old, new)\<close> for a non-empty \<open>old\<close>: one left-to-right pass.\<close>

function (sequential) strings_ReplaceAll :: "string \<Rightarrow> string \<Rightarrow> string \<Rightarrow> string" where
  "strings_ReplaceAll [] old new = []"
| "strings_ReplaceAll (c # cs) old new =
     (if old = [] then c # cs
      else if prefix old (c # cs)
      then new @ strings_ReplaceAll (drop (length old - 1) cs) old new
      else c # strings_ReplaceAll cs old new)"
  by pat_completeness auto
termination
  by (relation "measure (\<lambda>(s, old, new). length s)") auto

definition strings_Join :: "string list \<Rightarrow> string \<Rightarrow> string" where
  "strings_Join xs sep =
     (case xs of [] \<Rightarrow> [] | y # ys \<Rightarrow> y @ concat (map (\<lambda>x. sep @ x) ys))"

text \<open>
  The white space \<open>strings.TrimSpace\<close> removes, within ASCII; white space beyond ASCII at the ends of a setting, which
  Go removes as well, is kept.
\<close>

definition is_space :: "char \<Rightarrow> bool" where
  "is_space c \<longleftrightarrow> byte_val c \<in> {9, 10, 11, 12, 13, 32}"

definition strings_TrimSpace :: "string \<Rightarrow> string" where
  "strings_TrimSpace s = rev (dropWhile is_space (rev (dropWhile is_space s)))"

text \<open>\<open>s[:n]\<close> for \<open>n\<close> within range.\<close>

abbreviation upto_bytes :: "string \<Rightarrow> nat \<Rightarrow> string" where
  "upto_bytes s n \<equiv> take n s"

text \<open>Decimal formatting, \<open>%d\<close>.\<close>

definition digit_char :: "int \<Rightarrow> char" where
  "digit_char d = byte_of (48 + d)"

function dec_digits :: "int \<Rightarrow> string" where
  "dec_digits n =
     (if n < 10 then [digit_char n] else dec_digits (n div 10) @ [digit_char (n mod 10)])"
  by pat_completeness auto
termination
  by (relation "measure nat") auto

declare dec_digits.simps [simp del]

definition int_to_dec :: "int \<Rightarrow> string" where
  "int_to_dec i = (if i < 0 then CHR ''-'' # dec_digits (- i) else dec_digits i)"

text \<open>Looking a key up in a Go \<open>map[string]string\<close>: a missing key gives the empty string.\<close>

definition map_get :: "(string \<rightharpoonup> string) \<Rightarrow> string \<Rightarrow> string" where
  "map_get m k = (case m k of None \<Rightarrow> [] | Some v \<Rightarrow> v)"

lemma map_get_upd [simp]: "map_get (m(k \<mapsto> v)) k' = (if k' = k then v else map_get m k')"
  by (simp add: map_get_def)

text \<open>Without an occurrence of \<open>old\<close> the replacement is the identity.\<close>

lemma ReplaceAll_id: "\<not> sublist old s \<Longrightarrow> strings_ReplaceAll s old new = s"
  by (induction s old new rule: strings_ReplaceAll.induct) (auto simp: sublist_Cons_right)

lemma sublist_set_subset: "sublist xs ys \<Longrightarrow> set xs \<subseteq> set ys"
  by (auto simp: sublist_def)

lemma ReplaceAll_absent: "c \<in> set old \<Longrightarrow> c \<notin> set s \<Longrightarrow> strings_ReplaceAll s old new = s"
  using sublist_set_subset by (blast intro: ReplaceAll_id)

lemma ReplaceAll_length: "length (strings_ReplaceAll s old []) \<le> length s"
  by (induction s old "[] :: string" rule: strings_ReplaceAll.induct) auto

section \<open>Errors\<close>

text \<open>
  An error of the Kubernetes API as the watcher sees it: the class that
  \<open>apierrors.IsNotFound\<close> and \<open>apierrors.IsAlreadyExists\<close> put it in.
\<close>

datatype api_error = NotFound | AlreadyExists | OtherApiError string

datatype goerr =
    Api api_error
  | Msg string
  | Wrapped string goerr
  | Joined "goerr list"

fun IsNotFound :: "api_error \<Rightarrow> bool" where
  "IsNotFound NotFound = True"
| "IsNotFound AlreadyExists = False"
| "IsNotFound (OtherApiError _) = False"

fun IsAlreadyExists :: "api_error \<Rightarrow> bool" where
  "IsAlreadyExists AlreadyExists = True"
| "IsAlreadyExists NotFound = False"
| "IsAlreadyExists (OtherApiError _) = False"

text \<open>\<open>err != nil && !apierrors.IsNotFound(err)\<close>\<close>

definition failed :: "api_error option \<Rightarrow> bool" where
  "failed e = (case e of None \<Rightarrow> False | Some e' \<Rightarrow> \<not> IsNotFound e')"

lemma failed_simps [simp]:
  "failed None = False"
  "failed (Some NotFound) = False"
  "failed (Some AlreadyExists) = True"
  "failed (Some (OtherApiError m)) = True"
  by (simp_all add: failed_def)

section \<open>A Hoare calculus for the state monad\<close>

abbreviation ret :: "'a \<Rightarrow> ('s, 'a) state" where
  "ret \<equiv> State_Monad.return"

definition hoare :: "('s \<Rightarrow> bool) \<Rightarrow> ('s, 'a) state \<Rightarrow> ('a \<Rightarrow> 's \<Rightarrow> bool) \<Rightarrow> bool" where
  "hoare P m Q \<longleftrightarrow> (\<forall>s. P s \<longrightarrow> (case run_state m s of (x, s') \<Rightarrow> Q x s'))"

lemma hoareI: "(\<And>s x s'. P s \<Longrightarrow> run_state m s = (x, s') \<Longrightarrow> Q x s') \<Longrightarrow> hoare P m Q"
  by (auto simp: hoare_def split: prod.splits)

lemma hoareD: "hoare P m Q \<Longrightarrow> P s \<Longrightarrow> run_state m s = (x, s') \<Longrightarrow> Q x s'"
  by (force simp: hoare_def)

lemma hoare_return [wp]: "(\<And>s. P s \<Longrightarrow> Q x s) \<Longrightarrow> hoare P (ret x) Q"
  by (simp add: hoare_def)

lemma hoare_bind [wp]:
  assumes "hoare P m R" and "\<And>x. hoare (R x) (f x) Q"
  shows "hoare P (State_Monad.bind m f) Q"
proof (rule hoareI)
  fix s x s'
  assume "P s" and run: "run_state (State_Monad.bind m f) s = (x, s')"
  obtain y t where m: "run_state m s = (y, t)" by (cases "run_state m s")
  with assms(1) \<open>P s\<close> have "R y t" by (rule_tac hoareD)
  moreover from run m have "run_state (f y) t = (x, s')" by simp
  ultimately show "Q x s'" using assms(2) by (blast dest: hoareD)
qed

lemma hoare_if [wp]:
  "(b \<Longrightarrow> hoare P m Q) \<Longrightarrow> (\<not> b \<Longrightarrow> hoare P n Q) \<Longrightarrow> hoare P (if b then m else n) Q"
  by simp

lemma hoare_case_option [wp]:
  "(x = None \<Longrightarrow> hoare P m Q) \<Longrightarrow> (\<And>y. x = Some y \<Longrightarrow> hoare P (f y) Q) \<Longrightarrow>
     hoare P (case x of None \<Rightarrow> m | Some y \<Rightarrow> f y) Q"
  by (cases x) auto

lemma hoare_case_sum [wp]:
  "(\<And>y. x = Inl y \<Longrightarrow> hoare P (f y) Q) \<Longrightarrow> (\<And>y. x = Inr y \<Longrightarrow> hoare P (g y) Q) \<Longrightarrow>
     hoare P (case x of Inl y \<Rightarrow> f y | Inr y \<Rightarrow> g y) Q"
  by (cases x) auto

lemma hoare_case_prod [wp]:
  "(\<And>y z. x = (y, z) \<Longrightarrow> hoare P (f y z) Q) \<Longrightarrow> hoare P (case x of (y, z) \<Rightarrow> f y z) Q"
  by (cases x) auto

lemma hoare_let [wp]: "(\<And>y. y = v \<Longrightarrow> hoare P (f y) Q) \<Longrightarrow> hoare P (let x = v in f x) Q"
  by simp

lemma hoare_weaken: "hoare P' m Q' \<Longrightarrow> (\<And>s. P s \<Longrightarrow> P' s) \<Longrightarrow> (\<And>x s. Q' x s \<Longrightarrow> Q x s) \<Longrightarrow> hoare P m Q"
  by (fastforce simp: hoare_def split: prod.splits)

end
