(* ===== verification/Types.thy ===== *)
theory Types
  imports Prelude
begin

text \<open>
  The data of the custom resource (\<open>src/api/v1alpha1/remediationjob_types.go\<close>) and of the
  Kubernetes objects the watcher reads and writes. The watcher's own types keep every field; of
  the third-party types (\<open>batchv1.Job\<close>, \<open>metav1.Condition\<close>) the records hold the fields
  the watcher's code touches.

  A struct field \<open>F\<close> of a type with prefix \<open>p\<close> is the record field \<open>pF\<close>: \<open>fs\<close> for
  \<open>FindingSpec\<close>, \<open>sr\<close> for \<open>SinkRef\<close>, \<open>sp\<close> for \<open>RemediationJobSpec\<close>, \<open>st\<close> for
  \<open>RemediationJobStatus\<close>, \<open>rj\<close> for \<open>RemediationJob\<close> with its \<open>ObjectMeta\<close>.
\<close>

section \<open>RemediationJob\<close>

text \<open>
  A phase is a string in Go. The CRD admits an object only with one of the eight phases of the
  enumeration on \<open>RemediationJobStatus.Phase\<close> or with the field left out, which Go reads as the empty string:
  these nine values are all that the reconcilers can read or write.
\<close>

datatype RemediationJobPhase =
    PhaseBlank \<comment> \<open>the empty string of a freshly created object\<close>
  | PhasePending
  | PhaseDispatched
  | PhaseRunning
  | PhaseSucceeded
  | PhaseFailed
  | PhaseCancelled
  | PhasePermanentlyFailed
  | PhaseSuppressed

fun phase_string :: "RemediationJobPhase \<Rightarrow> string" where
  "phase_string PhaseBlank = ''''"
| "phase_string PhasePending = ''Pending''"
| "phase_string PhaseDispatched = ''Dispatched''"
| "phase_string PhaseRunning = ''Running''"
| "phase_string PhaseSucceeded = ''Succeeded''"
| "phase_string PhaseFailed = ''Failed''"
| "phase_string PhaseCancelled = ''Cancelled''"
| "phase_string PhasePermanentlyFailed = ''PermanentlyFailed''"
| "phase_string PhaseSuppressed = ''Suppressed''"

abbreviation ConditionJobDispatched :: string where "ConditionJobDispatched \<equiv> ''JobDispatched''"
abbreviation ConditionJobComplete :: string where "ConditionJobComplete \<equiv> ''JobComplete''"
abbreviation ConditionJobFailed :: string where "ConditionJobFailed \<equiv> ''JobFailed''"
abbreviation ConditionPermanentlyFailed :: string where
  "ConditionPermanentlyFailed \<equiv> ''PermanentlyFailed''"
abbreviation ConditionCorrelationSuppressed :: string where
  "ConditionCorrelationSuppressed \<equiv> ''CorrelationSuppressed''"
abbreviation ConditionPRRecorded :: string where "ConditionPRRecorded \<equiv> ''PRRecorded''"

record Condition =
  cType :: string
  cStatus :: string
  cReason :: string
  cMessage :: string
  cLastTransitionTime :: gotime

record ResultRef =
  rrName :: string
  rrNamespace :: string

record FindingSpec =
  fsKind :: string
  fsName :: string
  fsNamespace :: string
  fsParentObject :: string
  fsErrors :: string
  fsDetails :: string
  fsChainDepth :: int

record SinkRef =
  srType :: string
  srURL :: string
  srNumber :: int
  srRepo :: string

record RemediationJobSpec =
  spSourceResultRef :: ResultRef
  spFingerprint :: string
  spSourceType :: string
  spSinkType :: string
  spFinding :: FindingSpec
  spGitOpsRepo :: string
  spGitOpsManifestRoot :: string
  spAgentImage :: string
  spAgentSA :: string
  spMaxRetries :: int
  spSeverity :: string

record RemediationJobStatus =
  stPhase :: RemediationJobPhase
  stJobRef :: string
  stPRRef :: string
  stDispatchedAt :: "gotime option"
  stCompletedAt :: "gotime option"
  stMessage :: string
  stRetryCount :: int
  stConditions :: "Condition list"
  stCorrelationGroupID :: string
  stSinkRef :: SinkRef
  stPRMerged :: bool
  stPRMergedAt :: "gotime option"

record RemediationJob =
  rjName :: string
  rjNamespace :: string
  rjUID :: string
  rjCreationTimestamp :: gotime
  rjLabels :: "string \<rightharpoonup> string"
  rjAnnotations :: "string \<rightharpoonup> string"
  rjSpec :: RemediationJobSpec
  rjStatus :: RemediationJobStatus

text \<open>The zero values of the status, which a freshly created object carries.\<close>

definition zero_SinkRef :: SinkRef where
  "zero_SinkRef = \<lparr>srType = '''', srURL = '''', srNumber = 0, srRepo = ''''\<rparr>"

definition zero_Status :: RemediationJobStatus where
  "zero_Status = \<lparr>stPhase = PhaseBlank, stJobRef = '''', stPRRef = '''', stDispatchedAt = None,
     stCompletedAt = None, stMessage = '''', stRetryCount = 0, stConditions = [],
     stCorrelationGroupID = '''', stSinkRef = zero_SinkRef, stPRMerged = False,
     stPRMergedAt = None\<rparr>"

text \<open>
  Accessors for the paths the reconcilers use, and updates of the status in place
  (\<open>rjob.Status.X = v\<close>).
\<close>

abbreviation rjPhase :: "RemediationJob \<Rightarrow> RemediationJobPhase" where
  "rjPhase j \<equiv> stPhase (rjStatus j)"
abbreviation rjFinding :: "RemediationJob \<Rightarrow> FindingSpec" where
  "rjFinding j \<equiv> spFinding (rjSpec j)"
abbreviation rjFingerprint :: "RemediationJob \<Rightarrow> string" where
  "rjFingerprint j \<equiv> spFingerprint (rjSpec j)"
abbreviation rjSinkURL :: "RemediationJob \<Rightarrow> string" where
  "rjSinkURL j \<equiv> srURL (stSinkRef (rjStatus j))"
abbreviation upd_status ::
  "(RemediationJobStatus \<Rightarrow> RemediationJobStatus) \<Rightarrow> RemediationJob \<Rightarrow> RemediationJob" where
  "upd_status f j \<equiv> j\<lparr>rjStatus := f (rjStatus j)\<rparr>"

text \<open>
  \<open>DeepCopyInto\<close> copies field by field into an object that first received a shallow copy. On
  values (no pointers) this is the identity; the definition follows the assignments of the
  source, the target being the shallow copy \<open>out\<close>.
\<close>

definition RemediationJob_DeepCopyInto :: "RemediationJob \<Rightarrow> RemediationJob" where
  "RemediationJob_DeepCopyInto self =
     (let out = self;
          out = out\<lparr>rjLabels := rjLabels self, rjAnnotations := rjAnnotations self\<rparr>;
          out = out\<lparr>rjSpec := rjSpec self\<rparr>;
          st = (rjStatus out)\<lparr>
            stPhase := stPhase (rjStatus self),
            stJobRef := stJobRef (rjStatus self),
            stPRRef := stPRRef (rjStatus self),
            stMessage := stMessage (rjStatus self),
            stRetryCount := stRetryCount (rjStatus self)\<rparr>;
          st = (case stDispatchedAt (rjStatus self) of None \<Rightarrow> st
                | Some t \<Rightarrow> st\<lparr>stDispatchedAt := Some t\<rparr>);
          st = (case stCompletedAt (rjStatus self) of None \<Rightarrow> st
                | Some t \<Rightarrow> st\<lparr>stCompletedAt := Some t\<rparr>);
          st = st\<lparr>stConditions := stConditions (rjStatus self)\<rparr>;
          st = st\<lparr>
            stCorrelationGroupID := stCorrelationGroupID (rjStatus self),
            stSinkRef := stSinkRef (rjStatus self),
            stPRMerged := stPRMerged (rjStatus self)\<rparr>;
          st = (case stPRMergedAt (rjStatus self) of None \<Rightarrow> st
                | Some t \<Rightarrow> st\<lparr>stPRMergedAt := Some t\<rparr>)
      in out\<lparr>rjStatus := st\<rparr>)"

lemma DeepCopyInto_id [simp]: "RemediationJob_DeepCopyInto j = j"
  by (cases j; cases "rjStatus j")
    (simp add: RemediationJob_DeepCopyInto_def Let_def split: option.splits)

section \<open>Kubernetes objects\<close>

text \<open>The part of a \<open>batchv1.Job\<close> that the controller reads and that the builder sets.\<close>

record Job =
  jbName :: string
  jbNamespace :: string
  jbLabels :: "string \<rightharpoonup> string"
  jbAnnotations :: "string \<rightharpoonup> string"
  jbCreationTimestamp :: gotime
  jbOwnerUID :: string
  jbBackoffLimit :: "int option"
  jbActive :: int
  jbSucceeded :: int
  jbFailed :: int

text \<open>\<open>ctrl.Result\<close> and what a reconcile returns.\<close>

record Result =
  Requeue :: bool
  RequeueAfter :: duration

definition done_Result :: Result where
  "done_Result = \<lparr>Requeue = False, RequeueAfter = 0\<rparr>"

abbreviation requeue_after :: "duration \<Rightarrow> Result" where
  "requeue_after d \<equiv> \<lparr>Requeue = False, RequeueAfter = d\<rparr>"

abbreviation requeue_now :: Result where
  "requeue_now \<equiv> \<lparr>Requeue = True, RequeueAfter = 0\<rparr>"

type_synonym outcome = "Result \<times> goerr option"

record NamespacedName =
  nnNamespace :: string
  nnName :: string

end
