(* ===== verification/Config.thy ===== *)
theory Config
  imports Domain
begin

text \<open>
  The runtime configuration (\<open>src/internal/config/config.go\<close>): every field of \<open>Config\<close>, with
  \<open>int\<close> for Go's integers, and the durations the reconcilers derive from it.
\<close>

type_synonym AgentType = string

abbreviation AgentTypeOpenCode :: AgentType where "AgentTypeOpenCode \<equiv> ''opencode''"
abbreviation AgentTypeClaude :: AgentType where "AgentTypeClaude \<equiv> ''claude''"

record Config =
  GitOpsRepo :: string
  GitOpsManifestRoot :: string
  AgentImage :: string
  AgentNamespace :: string
  AgentSA :: string
  cfgAgentType :: AgentType
  SinkType :: string
  LogLevel :: string
  MaxConcurrentJobs :: int
  RemediationJobTTLSeconds :: int
  StabilisationWindow :: duration
  DisableCascadeCheck :: bool
  CascadeNamespaceThreshold :: int
  CascadeNodeCacheTTL :: duration
  InjectionDetectionAction :: string
  AgentRBACScope :: string
  AgentWatchNamespaces :: "string list"
  WatchNamespaces :: "string list"
  ExcludeNamespaces :: "string list"
  MaxInvestigationRetries :: int
  MinSeverity :: Severity
  SelfRemediationMaxDepth :: int
  SelfRemediationCooldown :: duration
  DryRun :: bool
  HardenAgentKubectl :: bool
  ExtraRedactPatterns :: "string list"
  CorrelationWindowSeconds :: int
  DisableCorrelation :: bool
  MultiPodThreshold :: int
  PRAutoClose :: bool
  RemediationJobShortTTLSeconds :: int
  AgentCPURequest :: "string option"
  AgentMemRequest :: "string option"
  AgentCPULimit :: "string option"
  AgentMemLimit :: "string option"
  AgentActiveDeadlineSeconds :: int

text \<open>\<open>time.Duration(n) * time.Second\<close>, in 64-bit arithmetic.\<close>

definition seconds :: "int \<Rightarrow> duration" where
  "seconds n = int64 (n * Second)"

lemma seconds_0 [simp]: "seconds 0 = 0"
  by (simp add: seconds_def)

lemma seconds_exact: "\<bar>n\<bar> \<le> 9000000000 \<Longrightarrow> seconds n = n * Second"
  unfolding seconds_def by (rule int64_id) (simp_all add: Second_def)

text \<open>The short TTL of a tombstone, as both reconcilers compute it.\<close>

definition short_ttl :: "Config \<Rightarrow> duration" where
  "short_ttl cfg =
     (let shortTTL = seconds (RemediationJobShortTTLSeconds cfg) in
      if shortTTL = 0 then 24 * Hour else shortTTL)"

text \<open>
  The values \<open>FromEnv\<close> falls back to when only the required variables are set (the three fields
  for the cascade check are never assigned).
\<close>

definition default_Config :: Config where
  "default_Config = \<lparr>GitOpsRepo = ''org/gitops'', GitOpsManifestRoot = ''clusters/prod'',
     AgentImage = ''ghcr.io/mechanic-agent'', AgentNamespace = ''mechanic'',
     AgentSA = ''mechanic-agent'', cfgAgentType = AgentTypeOpenCode, SinkType = ''github'',
     LogLevel = ''info'', MaxConcurrentJobs = 3, RemediationJobTTLSeconds = 604800,
     StabilisationWindow = 120 * Second, DisableCascadeCheck = False,
     CascadeNamespaceThreshold = 0, CascadeNodeCacheTTL = 0,
     InjectionDetectionAction = ''log'', AgentRBACScope = ''cluster'', AgentWatchNamespaces = [],
     WatchNamespaces = [], ExcludeNamespaces = [], MaxInvestigationRetries = 3,
     MinSeverity = SeverityLow, SelfRemediationMaxDepth = 2,
     SelfRemediationCooldown = 300 * Second, DryRun = False, HardenAgentKubectl = False,
     ExtraRedactPatterns = [], CorrelationWindowSeconds = 30, DisableCorrelation = False,
     MultiPodThreshold = 3, PRAutoClose = True, RemediationJobShortTTLSeconds = 86400,
     AgentCPURequest = None, AgentMemRequest = None, AgentCPULimit = None, AgentMemLimit = None,
     AgentActiveDeadlineSeconds = 1800\<rparr>"

end
