(* ===== verification/BoundedMap.thy ===== *)
theory BoundedMap
  imports Prelude "HOL-Library.AList"
begin

text \<open>
  \<open>src/internal/provider/bounded_map.go\<close>: the map from fingerprints to the time they were first
  seen, bounded in size and cleaned by age.

  The Go map is an association list with distinct keys. Go iterates over a map in an
  unspecified order; the loop that looks for the oldest entry takes the iteration order as the
  argument \<open>rng\<close>, and the lemmas hold for every \<open>rng\<close> that permutes the entries. Every
  reading of the clock is an argument of its own (\<open>n1\<close>, \<open>n2\<close>, \<open>n3\<close> in the order the code
  reads it); the mutex makes each operation atomic.
\<close>

section \<open>Model\<close>

record BoundedMap =
  bmData :: "(string \<times> gotime) list"
  bmMaxSize :: int
  bmTtl :: duration
  bmLastCleanup :: gotime
  bmCleanupInterval :: duration

definition NewBoundedMap :: "int \<Rightarrow> duration \<Rightarrow> duration \<Rightarrow> gotime \<Rightarrow> BoundedMap" where
  "NewBoundedMap maxSize ttl cleanupInterval n1 =
     (let cleanupInterval =
        (if cleanupInterval \<le> 0 then (if ttl > 0 then ttl div 2 else 5 * Minute)
         else cleanupInterval)
      in \<lparr>bmData = [], bmMaxSize = maxSize, bmTtl = ttl, bmLastCleanup = n1,
          bmCleanupInterval = cleanupInterval\<rparr>)"

definition BoundedMap_needsCleanup :: "BoundedMap \<Rightarrow> gotime \<Rightarrow> bool" where
  "BoundedMap_needsCleanup m n1 =
     (if bmTtl m \<le> 0 then False else time_Sub n1 (bmLastCleanup m) > bmCleanupInterval m)"

definition BoundedMap_cleanupIfNeeded :: "BoundedMap \<Rightarrow> gotime \<Rightarrow> gotime \<Rightarrow> gotime \<Rightarrow> BoundedMap" where
  "BoundedMap_cleanupIfNeeded m n1 n2 n3 =
     (if \<not> BoundedMap_needsCleanup m n1 then m
      else
        let m = (if bmTtl m > 0
                 then let cutoff = time_Add n2 (- bmTtl m)
                      in m\<lparr>bmData := filter (\<lambda>(k, v). \<not> time_Before v cutoff) (bmData m)\<rparr>
                 else m)
        in m\<lparr>bmLastCleanup := n3\<rparr>)"

text \<open>The loop that finds the oldest entry; its state is \<open>(first, oldestKey, oldestTime)\<close>.\<close>

fun oldest_loop :: "(string \<times> gotime) list \<Rightarrow> bool \<times> string \<times> gotime \<Rightarrow> bool \<times> string \<times> gotime" where
  "oldest_loop [] st = st"
| "oldest_loop ((k, v) # es) (first, oldestKey, oldestTime) =
     (if first \<or> time_Before v oldestTime then oldest_loop es (False, k, v)
      else oldest_loop es (first, oldestKey, oldestTime))"

definition BoundedMap_SetWithTime ::
  "((string \<times> gotime) list \<Rightarrow> (string \<times> gotime) list) \<Rightarrow> BoundedMap \<Rightarrow> string \<Rightarrow> gotime
     \<Rightarrow> gotime \<Rightarrow> gotime \<Rightarrow> gotime \<Rightarrow> BoundedMap \<times> bool" where
  "BoundedMap_SetWithTime rng m key timestamp n1 n2 n3 =
     (let m = BoundedMap_cleanupIfNeeded m n1 n2 n3 in
      if bmMaxSize m > 0 \<and> int (length (bmData m)) \<ge> bmMaxSize m then
        (if map_of (bmData m) key \<noteq> None
         then (m\<lparr>bmData := AList.update key timestamp (bmData m)\<rparr>, True)
         else case oldest_loop (rng (bmData m)) (True, '''', 0) of
             (first, oldestKey, oldestTime) \<Rightarrow>
               if \<not> first
               then (m\<lparr>bmData := AList.update key timestamp (AList.delete oldestKey (bmData m))\<rparr>, True)
               else (m, False))
      else (m\<lparr>bmData := AList.update key timestamp (bmData m)\<rparr>, True))"

text \<open>\<open>Set\<close> reads the clock for the timestamp before it takes the lock.\<close>

definition BoundedMap_Set ::
  "((string \<times> gotime) list \<Rightarrow> (string \<times> gotime) list) \<Rightarrow> BoundedMap \<Rightarrow> string
     \<Rightarrow> gotime \<Rightarrow> gotime \<Rightarrow> gotime \<Rightarrow> gotime \<Rightarrow> BoundedMap \<times> bool" where
  "BoundedMap_Set rng m key n0 n1 n2 n3 = BoundedMap_SetWithTime rng m key n0 n1 n2 n3"

text \<open>\<open>None\<close> stands for the result \<open>(time.Time{}, false)\<close>.\<close>

definition BoundedMap_Get :: "BoundedMap \<Rightarrow> string \<Rightarrow> gotime \<Rightarrow> gotime \<Rightarrow> gotime option" where
  "BoundedMap_Get m key n1 n2 =
     (if BoundedMap_needsCleanup m n1 \<and> bmTtl m > 0 then
        (case map_of (bmData m) key of
           Some ts \<Rightarrow> if time_Sub n2 ts > bmTtl m then None else Some ts
         | None \<Rightarrow> None)
      else map_of (bmData m) key)"

definition BoundedMap_Delete :: "BoundedMap \<Rightarrow> string \<Rightarrow> BoundedMap" where
  "BoundedMap_Delete m key = m\<lparr>bmData := AList.delete key (bmData m)\<rparr>"

definition BoundedMap_Len :: "BoundedMap \<Rightarrow> int" where
  "BoundedMap_Len m = int (length (bmData m))"

definition BoundedMap_Clear :: "BoundedMap \<Rightarrow> gotime \<Rightarrow> BoundedMap" where
  "BoundedMap_Clear m n1 = m\<lparr>bmData := [], bmLastCleanup := n1\<rparr>"

definition BoundedMap_Cleanup :: "BoundedMap \<Rightarrow> gotime \<Rightarrow> gotime \<Rightarrow> gotime \<Rightarrow> BoundedMap" where
  "BoundedMap_Cleanup m n1 n2 n3 = BoundedMap_cleanupIfNeeded m n1 n2 n3"

definition BoundedMap_Keys ::
  "((string \<times> gotime) list \<Rightarrow> (string \<times> gotime) list) \<Rightarrow> BoundedMap \<Rightarrow> string list" where
  "BoundedMap_Keys rng m = map fst (rng (bmData m))"

definition BoundedMap_Copy :: "BoundedMap \<Rightarrow> (string \<rightharpoonup> gotime)" where
  "BoundedMap_Copy m = map_of (bmData m)"

definition BoundedMap_SetForTest :: "BoundedMap \<Rightarrow> string \<Rightarrow> gotime \<Rightarrow> gotime \<Rightarrow> BoundedMap" where
  "BoundedMap_SetForTest m key timestamp n1 =
     m\<lparr>bmData := AList.update key timestamp (bmData m), bmLastCleanup := n1\<rparr>"

section \<open>Invariant\<close>

definition bm_wf :: "BoundedMap \<Rightarrow> bool" where
  "bm_wf m \<longleftrightarrow> distinct (map fst (bmData m))
     \<and> (bmMaxSize m > 0 \<longrightarrow> int (length (bmData m)) \<le> bmMaxSize m)"

definition permutes_entries :: "((string \<times> gotime) list \<Rightarrow> (string \<times> gotime) list) \<Rightarrow> bool" where
  "permutes_entries rng \<longleftrightarrow> (\<forall>xs. mset (rng xs) = mset xs)"

lemma permutes_entries_set: "permutes_entries rng \<Longrightarrow> set (rng xs) = set xs"
  unfolding permutes_entries_def by (metis set_mset_mset)

lemma permutes_entries_id [simp]: "permutes_entries (\<lambda>xs. xs)"
  by (simp add: permutes_entries_def)

lemma length_update: "length (AList.update k v al) =
    (if k \<in> fst ` set al then length al else Suc (length al))"
  by (induction al) auto

lemma length_delete_key:
  "distinct (map fst al) \<Longrightarrow> k \<in> fst ` set al \<Longrightarrow> Suc (length (AList.delete k al)) = length al"
proof (induction al)
  case (Cons p al)
  then show ?case
    using AList.delete_idem [of k al] by (cases p) (auto simp: image_iff)
qed simp

text \<open>The loop returns an entry of the list whose time no other entry undercuts.\<close>

lemma oldest_loop_False:
  "oldest_loop es (False, k0, t0) = (f, k, t) \<Longrightarrow>
     \<not> f \<and> (k, t) \<in> insert (k0, t0) (set es) \<and> t \<le> t0 \<and> (\<forall>(k', t') \<in> set es. t \<le> t')"
proof (induction es arbitrary: k0 t0)
  case (Cons e es)
  obtain k' t' where e: "e = (k', t')" by (cases e)
  show ?case
  proof (cases "t' < t0")
    case True
    with Cons e show ?thesis by (fastforce simp: time_Before_def)
  next
    case False
    with Cons e show ?thesis by (fastforce simp: time_Before_def)
  qed
qed simp

lemma oldest_loop_first:
  assumes "oldest_loop es (True, k0, t0) = (f, k, t)" and "es \<noteq> []"
  shows "\<not> f \<and> (k, t) \<in> set es \<and> (\<forall>(k', t') \<in> set es. t \<le> t')"
proof -
  from assms(2) obtain k' t' es' where es: "es = (k', t') # es'" by (cases es) auto
  with assms(1) have "oldest_loop es' (False, k', t') = (f, k, t)" by simp
  from oldest_loop_False [OF this] es show ?thesis by auto
qed

lemma cleanup_keeps [simp]:
  "bmMaxSize (BoundedMap_cleanupIfNeeded m n1 n2 n3) = bmMaxSize m"
  "bmTtl (BoundedMap_cleanupIfNeeded m n1 n2 n3) = bmTtl m"
  "bmCleanupInterval (BoundedMap_cleanupIfNeeded m n1 n2 n3) = bmCleanupInterval m"
  by (simp_all add: BoundedMap_cleanupIfNeeded_def Let_def)

lemma cleanup_data:
  "bmData (BoundedMap_cleanupIfNeeded m n1 n2 n3) =
     (if BoundedMap_needsCleanup m n1 then filter (\<lambda>(k, v). n2 - bmTtl m \<le> v) (bmData m) else bmData m)"
  by (auto simp: BoundedMap_cleanupIfNeeded_def BoundedMap_needsCleanup_def Let_def
      time_Before_def time_Add_def not_less split: if_splits)

lemma cleanup_wf: "bm_wf m \<Longrightarrow> bm_wf (BoundedMap_cleanupIfNeeded m n1 n2 n3)"
proof -
  assume "bm_wf m"
  moreover have "length (filter P (bmData m)) \<le> length (bmData m)" for P by simp
  ultimately show ?thesis
    by (auto simp: bm_wf_def cleanup_data distinct_map_filter intro: order.trans [rotated])
qed

text \<open>
  What \<open>SetWithTime\<close> does to the entries, in one equation over the map view: the key gets the
  timestamp, and at most one other entry is lost, an oldest one, only at capacity.
\<close>

lemma SetWithTime_cases:
  assumes "permutes_entries rng" and "bm_wf m"
  obtains (store) "BoundedMap_SetWithTime rng m key ts n1 n2 n3 =
      ((BoundedMap_cleanupIfNeeded m n1 n2 n3)
         \<lparr>bmData := AList.update key ts (bmData (BoundedMap_cleanupIfNeeded m n1 n2 n3))\<rparr>, True)"
      and "bmMaxSize m > 0 \<Longrightarrow> map_of (bmData (BoundedMap_cleanupIfNeeded m n1 n2 n3)) key \<noteq> None
        \<or> int (length (bmData (BoundedMap_cleanupIfNeeded m n1 n2 n3))) < bmMaxSize m"
  | (evict) old t where
      "BoundedMap_SetWithTime rng m key ts n1 n2 n3 =
        ((BoundedMap_cleanupIfNeeded m n1 n2 n3)
          \<lparr>bmData := AList.update key ts
             (AList.delete old (bmData (BoundedMap_cleanupIfNeeded m n1 n2 n3)))\<rparr>, True)"
      and "old \<noteq> key" and "map_of (bmData (BoundedMap_cleanupIfNeeded m n1 n2 n3)) old = Some t"
      and "\<forall>(k, v) \<in> set (bmData (BoundedMap_cleanupIfNeeded m n1 n2 n3)). t \<le> v"
      and "map_of (bmData (BoundedMap_cleanupIfNeeded m n1 n2 n3)) key = None"
      and "int (length (bmData (BoundedMap_cleanupIfNeeded m n1 n2 n3))) \<ge> bmMaxSize m"
      and "bmMaxSize m > 0"
proof -
  let ?m = "BoundedMap_cleanupIfNeeded m n1 n2 n3"
  have wf: "bm_wf ?m" using assms(2) by (rule cleanup_wf)
  show thesis
  proof (cases "bmMaxSize m > 0 \<and> int (length (bmData ?m)) \<ge> bmMaxSize m \<and> map_of (bmData ?m) key = None")
    case False
    then show ?thesis
      using store by (auto simp: BoundedMap_SetWithTime_def Let_def)
  next
    case True
    obtain f old t where o: "oldest_loop (rng (bmData ?m)) (True, '''', 0) = (f, old, t)"
      by (cases "oldest_loop (rng (bmData ?m)) (True, '''', 0)")
    from True have "bmData ?m \<noteq> []" by auto
    with permutes_entries_set [OF assms(1)] have "rng (bmData ?m) \<noteq> []" by (metis set_empty)
    from oldest_loop_first [OF o this] permutes_entries_set [OF assms(1)]
    have f: "\<not> f" and mem: "(old, t) \<in> set (bmData ?m)"
      and mn: "\<forall>(k, v) \<in> set (bmData ?m). t \<le> v" by auto
    from mem wf have lk: "map_of (bmData ?m) old = Some t" by (auto simp: bm_wf_def)
    with True have "old \<noteq> key" by auto
    with True o f lk mn show ?thesis
      by (intro evict [of old t]) (auto simp: BoundedMap_SetWithTime_def Let_def)
  qed
qed

lemma SetWithTime_wf:
  assumes "permutes_entries rng" and "bm_wf m"
  shows "bm_wf (fst (BoundedMap_SetWithTime rng m key ts n1 n2 n3))"
proof -
  let ?m = "BoundedMap_cleanupIfNeeded m n1 n2 n3"
  have wf: "bm_wf ?m" using assms(2) by (rule cleanup_wf)
  from assms show ?thesis
  proof (cases rule: SetWithTime_cases [of rng m key ts n1 n2 n3])
    case store
    with wf show ?thesis
      by (auto simp: bm_wf_def distinct_update length_update map_of_eq_None_iff)
  next
    case (evict old t)
    from evict(3) have "old \<in> fst ` set (bmData ?m)" by (force dest: map_of_SomeD)
    with wf have "Suc (length (AList.delete old (bmData ?m))) = length (bmData ?m)"
      by (auto simp: bm_wf_def intro: length_delete_key)
    with evict wf show ?thesis
      by (auto simp: bm_wf_def distinct_update AList.distinct_delete length_update)
  qed
qed

lemma Set_lookup:
  assumes "permutes_entries rng" and "bm_wf m"
  shows "map_of (bmData (fst (BoundedMap_Set rng m key n0 n1 n2 n3))) key = Some n0
    \<and> snd (BoundedMap_Set rng m key n0 n1 n2 n3)"
  using assms
  by (cases rule: SetWithTime_cases [of rng m key n0 n1 n2 n3])
    (auto simp: BoundedMap_Set_def AList.update_conv)

lemma Set_keeps [simp]:
  "bmTtl (fst (BoundedMap_Set rng m key n0 n1 n2 n3)) = bmTtl m"
  "bmMaxSize (fst (BoundedMap_Set rng m key n0 n1 n2 n3)) = bmMaxSize m"
  "bmCleanupInterval (fst (BoundedMap_Set rng m key n0 n1 n2 n3)) = bmCleanupInterval m"
  by (auto simp: BoundedMap_Set_def BoundedMap_SetWithTime_def Let_def split: prod.splits)

text \<open>
  The map never outgrows its bound and never holds a key twice: every operation keeps the
  invariant, whatever the clock reads and whatever order Go iterates the map in.
\<close>

theorem BoundedMap_invariant:
  assumes "permutes_entries rng" and "bm_wf m"
  shows "bm_wf (NewBoundedMap maxSize ttl ci n1)
    \<and> bm_wf (fst (BoundedMap_SetWithTime rng m key ts n1 n2 n3))
    \<and> bm_wf (fst (BoundedMap_Set rng m key n0 n1 n2 n3))
    \<and> bm_wf (BoundedMap_Delete m key)
    \<and> bm_wf (BoundedMap_Clear m n1)
    \<and> bm_wf (BoundedMap_Cleanup m n1 n2 n3)"
proof (intro conjI)
  show "bm_wf (NewBoundedMap maxSize ttl ci n1)" by (simp add: NewBoundedMap_def bm_wf_def Let_def)
  show "bm_wf (BoundedMap_Clear m n1)" by (simp add: BoundedMap_Clear_def bm_wf_def)
  show "bm_wf (BoundedMap_Cleanup m n1 n2 n3)"
    using assms(2) by (simp add: BoundedMap_Cleanup_def cleanup_wf)
  have "length (AList.delete key (bmData m)) \<le> length (bmData m)"
    by (rule AList.length_delete_le)
  then show "bm_wf (BoundedMap_Delete m key)"
    using assms(2) by (auto simp: BoundedMap_Delete_def bm_wf_def AList.distinct_delete)
qed (use assms in \<open>simp_all add: BoundedMap_Set_def SetWithTime_wf\<close>)

theorem BoundedMap_invariant_witness:
  "bm_wf (fst (BoundedMap_Set (\<lambda>xs. xs)
     \<lparr>bmData = [(''a'', 5), (''b'', 3)], bmMaxSize = 2, bmTtl = 100, bmLastCleanup = 0,
      bmCleanupInterval = 50\<rparr> ''c'' 7 7 7 7))
   \<and> bmData (fst (BoundedMap_Set (\<lambda>xs. xs)
     \<lparr>bmData = [(''a'', 5), (''b'', 3)], bmMaxSize = 2, bmTtl = 100, bmLastCleanup = 0,
      bmCleanupInterval = 50\<rparr> ''c'' 7 7 7 7)) = [(''a'', 5), (''c'', 7)]"
proof -
  let ?m = "\<lparr>bmData = [(''a'', 5), (''b'', 3)], bmMaxSize = 2, bmTtl = 100, bmLastCleanup = 0,
      bmCleanupInterval = 50\<rparr>"
  have "bm_wf ?m" by (simp add: bm_wf_def)
  from BoundedMap_invariant [OF permutes_entries_id this] have
    "bm_wf (fst (BoundedMap_Set (\<lambda>xs. xs) ?m ''c'' 7 7 7 7))" by blast
  moreover have "bmData (fst (BoundedMap_Set (\<lambda>xs. xs) ?m ''c'' 7 7 7 7)) = [(''a'', 5), (''c'', 7)]"
    by (simp add: BoundedMap_Set_def BoundedMap_SetWithTime_def BoundedMap_cleanupIfNeeded_def
        BoundedMap_needsCleanup_def time_Sub_def time_Before_def)
  ultimately show ?thesis by simp
qed

text \<open>
  Storing a key drops at most one other entry that the cleanup left, and only when the map
  is full: the dropped entry is an oldest one, so no entry that stays is older than it.
\<close>

theorem SetWithTime_evicts_oldest:
  assumes "permutes_entries rng" and "bm_wf m"
    and m0_def: "m0 = BoundedMap_cleanupIfNeeded m n1 n2 n3"
    and m1_def: "m1 = fst (BoundedMap_SetWithTime rng m key ts n1 n2 n3)"
  shows "map_of (bmData m1) = (map_of (bmData m0))(key \<mapsto> ts)
    \<or> (\<exists>old t. old \<noteq> key \<and> map_of (bmData m0) old = Some t
         \<and> map_of (bmData m1) = (map_of (bmData m0))(old := None, key \<mapsto> ts)
         \<and> (\<forall>k v. map_of (bmData m0) k = Some v \<longrightarrow> t \<le> v)
         \<and> 0 < bmMaxSize m \<and> bmMaxSize m \<le> int (length (bmData m0)))"
  using assms(1,2)
proof (cases rule: SetWithTime_cases [of rng m key ts n1 n2 n3])
  case store
  then show ?thesis by (simp add: m0_def m1_def AList.update_conv fun_eq_iff)
next
  case (evict old t)
  have "t \<le> v" if "map_of (bmData m0) k = Some v" for k v
    using evict(4) map_of_SomeD [OF that] by (auto simp: m0_def)
  with evict show ?thesis
    by (intro disjI2 exI [of _ old] exI [of _ t])
      (auto simp: m0_def m1_def AList.update_conv AList.delete_conv' fun_eq_iff)
qed

theorem SetWithTime_evicts_oldest_witness:
  "map_of (bmData (fst (BoundedMap_SetWithTime rev
     \<lparr>bmData = [(''a'', 5), (''b'', 3)], bmMaxSize = 2, bmTtl = 0, bmLastCleanup = 0,
      bmCleanupInterval = 50\<rparr> ''c'' 7 7 7 7))) ''b'' = None"
proof -
  let ?m = "\<lparr>bmData = [(''a'', 5), (''b'', 3)], bmMaxSize = 2, bmTtl = 0, bmLastCleanup = 0,
      bmCleanupInterval = 50\<rparr>"
  have p: "permutes_entries rev" by (simp add: permutes_entries_def)
  have wf: "bm_wf ?m" by (simp add: bm_wf_def)
  from SetWithTime_evicts_oldest [OF p wf refl refl, where key = "''c''" and ts = 7 and ?n1.0 = 7 and ?n2.0 = 7 and ?n3.0 = 7] show ?thesis
    by (auto simp: BoundedMap_SetWithTime_def BoundedMap_cleanupIfNeeded_def
        BoundedMap_needsCleanup_def time_Before_def fun_eq_iff split: if_splits)
qed

section \<open>The interface of the stabilisation window\<close>

text \<open>
  The reconciler uses the map as a store of first sightings: \<open>insert\<close> records a sighting,
  \<open>lookup\<close> reads it back, \<open>clear\<close> forgets all. A call reads the clock several times; the
  readings of one call come in order.
\<close>

locale first_seen_store =
  fixes lookup :: "'m \<Rightarrow> string \<Rightarrow> gotime \<Rightarrow> gotime \<Rightarrow> gotime option"
    and insert_at :: "'m \<Rightarrow> string \<Rightarrow> gotime \<Rightarrow> gotime \<Rightarrow> gotime \<Rightarrow> gotime \<Rightarrow> 'm"
    and clear :: "'m \<Rightarrow> gotime \<Rightarrow> 'm"
    and ttl :: "'m \<Rightarrow> duration"
    and invar :: "'m \<Rightarrow> bool"
  assumes lookup_insert: "invar m \<Longrightarrow> 0 < ttl m \<Longrightarrow> ttl m < 2 ^ 63 - 1 \<Longrightarrow> a2 - t \<le> ttl m \<Longrightarrow>
      lookup (insert_at m k t n1 n2 n3) k a1 a2 = Some t"
    and lookup_clear: "lookup (clear m n) k a1 a2 = None"
    and invar_insert: "invar m \<Longrightarrow> invar (insert_at m k t n1 n2 n3)"
    and invar_clear: "invar m \<Longrightarrow> invar (clear m n)"
    and ttl_insert: "ttl (insert_at m k t n1 n2 n3) = ttl m"
begin

text \<open>
  A finding first seen at \<open>t\<close> and looked at again once a window \<open>w\<close> has passed, but no later
  than the time to live, is found with an elapsed time of at least \<open>w\<close>.
\<close>

lemma window_elapses:
  assumes "invar m" and "0 < w" and "w \<le> ttl m" and "ttl m < 2 ^ 63 - 1"
    and "t + w \<le> a2" and "a2 \<le> a3" and "a2 \<le> t + ttl m"
  shows "\<exists>f. lookup (insert_at m k t n1 n2 n3) k a1 a2 = Some f \<and> w \<le> time_Sub a3 f"
proof (intro exI conjI)
  show "lookup (insert_at m k t n1 n2 n3) k a1 a2 = Some t"
    using assms by (intro lookup_insert) auto
  show "w \<le> time_Sub a3 t" using assms by (simp add: time_Sub_def)
qed

text \<open>A clear between two looks starts the window again, whatever had been recorded.\<close>

lemma clear_restarts: "lookup (clear (insert_at m k t n1 n2 n3) n) k' a1 a2 = None"
  by (rule lookup_clear)

end

interpretation bm: first_seen_store BoundedMap_Get
  "\<lambda>m k t n1 n2 n3. fst (BoundedMap_Set (\<lambda>xs. xs) m k t n1 n2 n3)"
  BoundedMap_Clear bmTtl bm_wf
proof (unfold_locales, goal_cases)
  case (1 m a2 t k n1 n2 n3 a1)
  have "\<not> time_Sub a2 t > bmTtl m"
    using 1 by (subst time_Sub_greater_iff) auto
  with Set_lookup [OF permutes_entries_id 1(1), of k t n1 n2 n3] show ?case
    by (simp add: BoundedMap_Get_def)
next
  case (2 m n k a1 a2)
  then show ?case by (simp add: BoundedMap_Get_def BoundedMap_Clear_def)
next
  case (3 m k t n1 n2 n3)
  then show ?case by (simp add: BoundedMap_Set_def SetWithTime_wf)
next
  case (4 m n)
  then show ?case by (simp add: BoundedMap_Clear_def bm_wf_def)
next
  case (5 m k t n1 n2 n3)
  then show ?case by simp
qed

end
