(* ===== verification/CircuitBreaker.thy ===== *)
theory CircuitBreaker
  imports Prelude
begin

text \<open>
  \<open>src/internal/circuitbreaker/circuitbreaker.go\<close>: the breaker that spaces self-remediations.
  \<open>ShouldAllow\<close> reads the clock once to measure the time since the last grant (\<open>n1\<close>) and once
  to record a new grant (\<open>n2\<close>); the zero time means that nothing was granted yet.
\<close>

section \<open>Model\<close>

record CircuitBreaker =
  cbCooldown :: duration
  cbLastAllowed :: gotime

definition CircuitBreaker_New :: "duration \<Rightarrow> CircuitBreaker" where
  "CircuitBreaker_New cooldown = \<lparr>cbCooldown = cooldown, cbLastAllowed = 0\<rparr>"

definition CircuitBreaker_ShouldAllow ::
  "CircuitBreaker \<Rightarrow> gotime \<Rightarrow> gotime \<Rightarrow> (bool \<times> duration) \<times> CircuitBreaker" where
  "CircuitBreaker_ShouldAllow cb n1 n2 =
     (if \<not> time_IsZero (cbLastAllowed cb) \<and> time_Sub n1 (cbLastAllowed cb) < cbCooldown cb
      then ((False, cbCooldown cb - time_Sub n1 (cbLastAllowed cb)), cb)
      else ((True, 0), cb\<lparr>cbLastAllowed := n2\<rparr>))"

section \<open>The interface the reconciler relies on\<close>

text \<open>
  \<open>circuitbreaker.Gater\<close>: a refusal names a positive time to wait and changes nothing; a grant
  asks for no wait; a refused caller that comes back after the wait is granted.
\<close>

locale gater =
  fixes should_allow :: "'g \<Rightarrow> gotime \<Rightarrow> gotime \<Rightarrow> (bool \<times> duration) \<times> 'g"
    and usable :: "'g \<Rightarrow> bool"
    and not_before :: "'g \<Rightarrow> gotime \<Rightarrow> bool"
  assumes refused: "usable g \<Longrightarrow> not_before g n1 \<Longrightarrow> should_allow g n1 n2 = ((False, d), g') \<Longrightarrow> 0 < d \<and> g' = g"
    and granted: "should_allow g n1 n2 = ((True, d), g') \<Longrightarrow> d = 0"
    and retry: "usable g \<Longrightarrow> not_before g n1 \<Longrightarrow> should_allow g n1 n2 = ((False, d), g') \<Longrightarrow> n1 + d \<le> m1 \<Longrightarrow>
      fst (fst (should_allow g' m1 m2))"
begin

text \<open>A caller that waits as told is refused at most once in a row.\<close>

lemma refused_once:
  assumes "usable g" and "not_before g n1" and "should_allow g n1 n2 = ((ok, d), g')" and "n1 + d \<le> m1"
  shows "ok \<or> fst (fst (should_allow g' m1 m2))"
  using assms retry [of g n1 n2 d g' m1 m2] by (cases ok) auto

end

definition cb_wf :: "CircuitBreaker \<Rightarrow> bool" where
  "cb_wf cb \<longleftrightarrow> 0 \<le> cbCooldown cb \<and> cbCooldown cb < 2 ^ 63"

lemma elapsed_less_iff:
  "cb_wf cb \<Longrightarrow> time_Sub n (cbLastAllowed cb) < cbCooldown cb \<longleftrightarrow> n - cbLastAllowed cb < cbCooldown cb"
  by (auto simp: cb_wf_def time_Sub_less_iff)

lemma ShouldAllow_iff:
  assumes "cb_wf cb"
  shows "fst (fst (CircuitBreaker_ShouldAllow cb n1 n2)) \<longleftrightarrow>
    cbLastAllowed cb = 0 \<or> cbCooldown cb \<le> n1 - cbLastAllowed cb"
  using elapsed_less_iff [OF assms, of n1]
  by (auto simp: CircuitBreaker_ShouldAllow_def time_IsZero_def)

interpretation cb: gater CircuitBreaker_ShouldAllow cb_wf "\<lambda>cb n. cbLastAllowed cb \<le> n"
proof (unfold_locales, goal_cases)
  case (1 g n1 n2 d g')
  then show ?case
    by (auto simp: CircuitBreaker_ShouldAllow_def elapsed_less_iff split: if_splits)
next
  case (2 g n1 n2 d g')
  then show ?case by (auto simp: CircuitBreaker_ShouldAllow_def split: if_splits)
next
  case (3 g n1 n2 d g' m1 m2)
  then have g': "g' = g" and d: "d = cbCooldown g - time_Sub n1 (cbLastAllowed g)"
    and lt: "n1 - cbLastAllowed g < cbCooldown g"
    by (auto simp: CircuitBreaker_ShouldAllow_def elapsed_less_iff split: if_splits)
  have "time_Sub n1 (cbLastAllowed g) = n1 - cbLastAllowed g"
    using 3(1,2) lt by (intro time_Sub_exact) (auto simp: cb_wf_def)
  with 3 d g' show ?case by (simp add: ShouldAllow_iff)
qed

section \<open>Spacing of grants\<close>

text \<open>
  A run of the breaker over a list of calls, each with its two clock readings, collecting the
  times the breaker recorded for its grants.
\<close>

fun grants :: "CircuitBreaker \<Rightarrow> (gotime \<times> gotime) list \<Rightarrow> gotime list" where
  "grants cb [] = []"
| "grants cb ((n1, n2) # cs) =
     (case CircuitBreaker_ShouldAllow cb n1 n2 of
        ((True, _), cb') \<Rightarrow> n2 # grants cb' cs
      | ((False, _), cb') \<Rightarrow> grants cb' cs)"

fun spaced :: "duration \<Rightarrow> gotime list \<Rightarrow> bool" where
  "spaced d [] = True"
| "spaced d [t] = True"
| "spaced d (t # u # ts) = (d \<le> u - t \<and> spaced d (u # ts))"

text \<open>The clock never goes back and never reads the zero time.\<close>

fun clock_ok :: "gotime \<Rightarrow> (gotime \<times> gotime) list \<Rightarrow> bool" where
  "clock_ok t [] = True"
| "clock_ok t ((n1, n2) # cs) = (t \<le> n1 \<and> n1 \<le> n2 \<and> clock_ok n2 cs)"

lemma grants_first:
  assumes "cb_wf cb" and "cbLastAllowed cb \<noteq> 0" and "clock_ok t cs"
    and "g # gs = grants cb cs"
  shows "cbCooldown cb \<le> g - cbLastAllowed cb"
  using assms
proof (induction cs arbitrary: t)
  case (Cons c cs)
  obtain n1 n2 where c: "c = (n1, n2)" by (cases c)
  show ?case
  proof (cases "fst (fst (CircuitBreaker_ShouldAllow cb n1 n2))")
    case True
    then have "CircuitBreaker_ShouldAllow cb n1 n2 = ((True, 0), cb\<lparr>cbLastAllowed := n2\<rparr>)"
      by (auto simp: CircuitBreaker_ShouldAllow_def split: if_splits)
    moreover from True Cons.prems(1,2) have "cbCooldown cb \<le> n1 - cbLastAllowed cb"
      by (simp add: ShouldAllow_iff)
    ultimately show ?thesis using Cons.prems c by simp
  next
    case False
    then have "CircuitBreaker_ShouldAllow cb n1 n2 = ((False, cbCooldown cb - time_Sub n1 (cbLastAllowed cb)), cb)"
      by (auto simp: CircuitBreaker_ShouldAllow_def split: if_splits)
    with Cons c show ?thesis by auto
  qed
qed simp

lemma spaced_Cons: "spaced d ts \<Longrightarrow> (\<And>u us. ts = u # us \<Longrightarrow> d \<le> u - t) \<Longrightarrow> spaced d (t # ts)"
  by (cases ts) auto

text \<open>
  C30. Whatever calls arrive at the breaker, the times at which it lets a self-remediation
  through are at least the cooldown apart.
\<close>

theorem grants_spaced:
  assumes "0 \<le> cooldown" and "cooldown < 2 ^ 63" and "0 < t" and "clock_ok t calls"
  shows "spaced cooldown (grants (CircuitBreaker_New cooldown) calls)"
proof -
  have "spaced (cbCooldown cb) (grants cb calls)" if "cb_wf cb" "0 < t" "clock_ok t calls" for cb
    using that
  proof (induction calls arbitrary: cb t)
    case (Cons c cs)
    obtain n1 n2 where c: "c = (n1, n2)" by (cases c)
    have pos: "0 < n2" and ok: "clock_ok n2 cs" using Cons.prems c by auto
    obtain b d cb' where r: "CircuitBreaker_ShouldAllow cb n1 n2 = ((b, d), cb')"
      by (metis prod.exhaust)
    then have cb': "cb' = (if b then cb\<lparr>cbLastAllowed := n2\<rparr> else cb)"
      by (auto simp: CircuitBreaker_ShouldAllow_def split: if_splits)
    with Cons.prems(1) have wf: "cb_wf cb'" by (auto simp: cb_wf_def)
    have sp: "spaced (cbCooldown cb) (grants cb' cs)"
      using Cons.IH [OF wf pos ok] cb' by (auto split: if_splits)
    show ?case
    proof (cases b)
      case True
      have "cbCooldown cb \<le> u - n2" if "grants cb' cs = u # us" for u us
        using grants_first [OF wf _ ok that [symmetric]] True cb' pos by simp
      with sp True r c show ?thesis by (simp add: spaced_Cons)
    next
      case False
      with sp r c show ?thesis by simp
    qed
  qed simp
  from this [of "CircuitBreaker_New cooldown"] assms show ?thesis
    by (simp add: CircuitBreaker_New_def cb_wf_def)
qed

theorem grants_spaced_witness:
  "grants (CircuitBreaker_New 300) [(10, 11), (200, 200), (311, 312)] = [11, 312]
   \<and> spaced 300 (grants (CircuitBreaker_New 300) [(10, 11), (200, 200), (311, 312)])"
proof -
  have "clock_ok 1 [(10, 11), (200, 200), (311, 312)]" by simp
  from grants_spaced [OF _ _ _ this, of 300] show ?thesis
    by (simp add: CircuitBreaker_ShouldAllow_def CircuitBreaker_New_def time_Sub_def time_IsZero_def)
qed

text \<open>
  A refused caller is told how long to wait, the wait is positive and at most the cooldown
  when the clock has not gone back behind the last grant, and a call made after exactly that
  wait is let through.
\<close>

theorem refusal_names_the_wait:
  assumes "cb_wf cb" and "cbLastAllowed cb \<le> n1"
    and "CircuitBreaker_ShouldAllow cb n1 n2 = ((False, remaining), cb')"
  shows "0 < remaining \<and> remaining \<le> cbCooldown cb \<and> cb' = cb
    \<and> fst (fst (CircuitBreaker_ShouldAllow cb' (n1 + remaining) m2))"
proof -
  from cb.refused [OF assms] have "0 < remaining" "cb' = cb" by auto
  moreover from cb.retry [OF assms, of "n1 + remaining" m2] have
    "fst (fst (CircuitBreaker_ShouldAllow cb' (n1 + remaining) m2))" by simp
  moreover have "remaining \<le> cbCooldown cb"
    using assms(2,3) time_Sub_nonneg [of "cbLastAllowed cb" n1]
    by (auto simp: CircuitBreaker_ShouldAllow_def split: if_splits)
  ultimately show ?thesis by blast
qed

theorem refusal_names_the_wait_witness:
  "CircuitBreaker_ShouldAllow \<lparr>cbCooldown = 300, cbLastAllowed = 11\<rparr> 200 200
     = ((False, 111), \<lparr>cbCooldown = 300, cbLastAllowed = 11\<rparr>)
   \<and> fst (fst (CircuitBreaker_ShouldAllow \<lparr>cbCooldown = 300, cbLastAllowed = 11\<rparr> (200 + 111) 311))"
proof -
  let ?cb = "\<lparr>cbCooldown = 300, cbLastAllowed = 11\<rparr> :: CircuitBreaker"
  have r: "CircuitBreaker_ShouldAllow ?cb 200 200 = ((False, 111), ?cb)"
    by (simp add: CircuitBreaker_ShouldAllow_def time_Sub_def time_IsZero_def)
  have "cb_wf ?cb" and "cbLastAllowed ?cb \<le> 200" by (simp_all add: cb_wf_def)
  from refusal_names_the_wait [OF this r, of 311] r show ?thesis by simp
qed

end
