(* ===== verification/World.thy ===== *)
theory World
  imports Config BoundedMap CircuitBreaker
begin

text \<open>
  The state the reconcilers run in and everything they reach outside their own code.

  The Kubernetes API, its caches, the clock, Go's map iteration order and the random source are
  code that is not part of the repository. They are the fields of an \<open>env\<close>: functions on an
  unspecified world \<open>'w\<close> that return an answer and a new world. Nothing is assumed of them, so a
  theorem about a reconciler holds for every behaviour of the API server, including lists that
  are stale, patches that fail and changes other actors make between two calls.

  What a reconciler does to the outside is recorded in a trace of effects: every mutating API
  call with its arguments and its result, the sinks closed, the Kubernetes events and the metrics.
  Log lines are not modelled.
\<close>

section \<open>The environment\<close>

text \<open>The parts of third-party objects that are read.\<close>

record Pod =
  podClaims :: "string option list"
    \<comment> \<open>per volume, the claim name of its \<open>PersistentVolumeClaim\<close> source if it has one\<close>

record ConfigMap =
  cmName :: string
  cmNamespace :: string
  cmData :: "string \<rightharpoonup> string"

type_synonym selector = "(string \<times> string) list"

record 'w env =
  now :: "'w \<Rightarrow> gotime \<times> 'w"
  map_order :: "(string \<times> gotime) list \<Rightarrow> (string \<times> gotime) list"
  random_id :: "'w \<Rightarrow> string \<times> 'w"
  get_rjob :: "NamespacedName \<Rightarrow> 'w \<Rightarrow> (api_error + RemediationJob) \<times> 'w"
  list_rjobs :: "string \<Rightarrow> selector \<Rightarrow> 'w \<Rightarrow> (api_error + RemediationJob list) \<times> 'w"
  create_rjob :: "RemediationJob \<Rightarrow> 'w \<Rightarrow> (api_error + RemediationJob) \<times> 'w"
  patch_status :: "RemediationJob \<Rightarrow> RemediationJob \<Rightarrow> 'w \<Rightarrow> (api_error + RemediationJob) \<times> 'w"
    \<comment> \<open>\<open>Status().Patch(obj, MergeFrom(base))\<close>: the object and its base; the answer is the
      server's object, which the client writes back into \<open>obj\<close>\<close>
  patch_rjob :: "RemediationJob \<Rightarrow> RemediationJob \<Rightarrow> 'w \<Rightarrow> (api_error + RemediationJob) \<times> 'w"
  delete_rjob :: "RemediationJob \<Rightarrow> 'w \<Rightarrow> api_error option \<times> 'w"
  list_jobs :: "string \<Rightarrow> selector \<Rightarrow> 'w \<Rightarrow> (api_error + Job list) \<times> 'w"
  get_job :: "NamespacedName \<Rightarrow> 'w \<Rightarrow> (api_error + Job) \<times> 'w"
  create_job :: "Job \<Rightarrow> 'w \<Rightarrow> api_error option \<times> 'w"
  get_namespace :: "string \<Rightarrow> 'w \<Rightarrow> (api_error + (string \<rightharpoonup> string)) \<times> 'w"
  get_pod :: "NamespacedName \<Rightarrow> 'w \<Rightarrow> (api_error + Pod) \<times> 'w"
  get_configmap :: "NamespacedName \<Rightarrow> 'w \<Rightarrow> (api_error + ConfigMap) \<times> 'w"
  delete_configmap :: "ConfigMap \<Rightarrow> 'w \<Rightarrow> api_error option \<times> 'w"
  SetStatusCondition :: "Condition list \<Rightarrow> Condition \<Rightarrow> Condition list"
  IsStatusConditionTrue :: "Condition list \<Rightarrow> string \<Rightarrow> bool"
  api_error_string :: "api_error \<Rightarrow> string"

section \<open>Effects\<close>

datatype metric =
    RecordDispatched string string
  | RecordSuppressed string
  | SetActiveJobs int
  | SetPendingJobs int
  | ObserveJobDuration string string gotime gotime
  | RecordPROpened
  | RecordCircuitBreakerActivation

datatype subject = OnSource | OnRJob string

datatype effect =
    CreateRJob RemediationJob "api_error option"
  | PatchStatus (base: RemediationJob) (sent: RemediationJob) "api_error option"
  | PatchMeta RemediationJob RemediationJob "api_error option"
  | DeleteRJob RemediationJob "api_error option"
  | CreateJob Job "api_error option"
  | DeleteConfigMap string "api_error option"
  | CloseSink RemediationJob string "goerr option"
  | Event subject string string string
  | Metric metric

record 'w sys =
  world :: 'w
  firstSeen :: "BoundedMap option" \<comment> \<open>\<open>None\<close> until \<open>initFirstSeen\<close> ran\<close>
  breaker :: "CircuitBreaker option" \<comment> \<open>\<open>None\<close>: no circuit breaker wired\<close>
  trace :: "effect list"

type_synonym ('w, 'a) prog = "('w sys, 'a) state"

definition outside :: "('w \<Rightarrow> 'a \<times> 'w) \<Rightarrow> ('w, 'a) prog" where
  "outside f = State (\<lambda>s. case f (world s) of (x, w) \<Rightarrow> (x, s\<lparr>world := w\<rparr>))"

definition emit :: "effect \<Rightarrow> ('w, unit) prog" where
  "emit e = State (\<lambda>s. ((), s\<lparr>trace := trace s @ [e]\<rparr>))"

definition get_firstSeen :: "('w, BoundedMap option) prog" where
  "get_firstSeen = State (\<lambda>s. (firstSeen s, s))"

definition set_firstSeen :: "BoundedMap \<Rightarrow> ('w, unit) prog" where
  "set_firstSeen m = State (\<lambda>s. ((), s\<lparr>firstSeen := Some m\<rparr>))"

definition get_breaker :: "('w, CircuitBreaker option) prog" where
  "get_breaker = State (\<lambda>s. (breaker s, s))"

definition set_breaker :: "CircuitBreaker \<Rightarrow> ('w, unit) prog" where
  "set_breaker b = State (\<lambda>s. ((), s\<lparr>breaker := Some b\<rparr>))"

definition err_of :: "'e + 'a \<Rightarrow> 'e option" where
  "err_of r = (case r of Inl e \<Rightarrow> Some e | Inr _ \<Rightarrow> None)"

lemma err_of_simps [simp]: "err_of (Inl e) = Some e" "err_of (Inr x) = None"
  by (simp_all add: err_of_def)

section \<open>Calls\<close>

text \<open>Every mutating call performs the call and records it.\<close>

definition Now :: "'w env \<Rightarrow> ('w, gotime) prog" where
  "Now e = outside (now e)"

definition Create_rjob :: "'w env \<Rightarrow> RemediationJob \<Rightarrow> ('w, api_error + RemediationJob) prog" where
  "Create_rjob e j = do {
     r \<leftarrow> outside (create_rjob e j);
     emit (CreateRJob j (err_of r));
     ret r }"

definition Patch_status :: "'w env \<Rightarrow> RemediationJob \<Rightarrow> RemediationJob \<Rightarrow> ('w, api_error + RemediationJob) prog" where
  "Patch_status e j b = do {
     r \<leftarrow> outside (patch_status e j b);
     emit (PatchStatus b j (err_of r));
     ret r }"

definition Patch_rjob :: "'w env \<Rightarrow> RemediationJob \<Rightarrow> RemediationJob \<Rightarrow> ('w, api_error + RemediationJob) prog" where
  "Patch_rjob e j b = do {
     r \<leftarrow> outside (patch_rjob e j b);
     emit (PatchMeta b j (err_of r));
     ret r }"

definition Delete_rjob :: "'w env \<Rightarrow> RemediationJob \<Rightarrow> ('w, api_error option) prog" where
  "Delete_rjob e j = do {
     r \<leftarrow> outside (delete_rjob e j);
     emit (DeleteRJob j r);
     ret r }"

definition Create_job :: "'w env \<Rightarrow> Job \<Rightarrow> ('w, api_error option) prog" where
  "Create_job e j = do {
     r \<leftarrow> outside (create_job e j);
     emit (CreateJob j r);
     ret r }"

definition Delete_configmap :: "'w env \<Rightarrow> ConfigMap \<Rightarrow> ('w, api_error option) prog" where
  "Delete_configmap e cm = do {
     r \<leftarrow> outside (delete_configmap e cm);
     emit (DeleteConfigMap (cmName cm) r);
     ret r }"

text \<open>A Kubernetes event, if a recorder is wired.\<close>

definition record_event :: "bool \<Rightarrow> subject \<Rightarrow> string \<Rightarrow> string \<Rightarrow> string \<Rightarrow> ('w, unit) prog" where
  "record_event wired sub ty reason msg =
     (if wired then emit (Event sub ty reason msg) else ret ())"

section \<open>Reasoning about traces\<close>

text \<open>Symbolic execution of the primitives.\<close>

lemma run_outside: "run_state (outside f) s = (case f (world s) of (x, w) \<Rightarrow> (x, s\<lparr>world := w\<rparr>))"
  by (simp add: outside_def)

lemma run_emit: "run_state (emit e) s = ((), s\<lparr>trace := trace s @ [e]\<rparr>)"
  by (simp add: emit_def)

lemma run_firstSeen:
  "run_state get_firstSeen s = (firstSeen s, s)"
  "run_state (set_firstSeen m) s = ((), s\<lparr>firstSeen := Some m\<rparr>)"
  by (simp_all add: get_firstSeen_def set_firstSeen_def)

lemma run_breaker:
  "run_state get_breaker s = (breaker s, s)"
  "run_state (set_breaker b) s = ((), s\<lparr>breaker := Some b\<rparr>)"
  by (simp_all add: get_breaker_def set_breaker_def)

lemma run_bind: "run_state (State_Monad.bind m f) s = (case run_state m s of (x, t) \<Rightarrow> run_state (f x) t)"
  by (cases "run_state m s") simp

lemma run_if: "run_state (if b then m else n) s = (if b then run_state m s else run_state n s)"
  by simp

lemmas run_calls = Now_def Create_rjob_def Patch_status_def Patch_rjob_def Delete_rjob_def
  Create_job_def Delete_configmap_def

lemmas run_simps = run_outside run_emit run_firstSeen run_breaker run_bind run_if run_calls
  record_event_def

text \<open>
  \<open>does m T\<close>: every run of \<open>m\<close> only extends the trace, and result and new effects are related
  by \<open>T\<close>. \<open>emits A m\<close>: all new effects satisfy \<open>A\<close>. \<open>at_most k A m\<close>: at most \<open>k\<close> do.
\<close>

definition does :: "('w, 'a) prog \<Rightarrow> ('a \<Rightarrow> effect list \<Rightarrow> bool) \<Rightarrow> bool" where
  "does m T \<longleftrightarrow>
     (\<forall>s. \<exists>es. trace (snd (run_state m s)) = trace s @ es \<and> T (fst (run_state m s)) es)"

definition emits :: "(effect \<Rightarrow> bool) \<Rightarrow> ('w, 'a) prog \<Rightarrow> bool" where
  "emits A m \<longleftrightarrow> does m (\<lambda>x es. list_all A es)"

definition at_most :: "nat \<Rightarrow> (effect \<Rightarrow> bool) \<Rightarrow> ('w, 'a) prog \<Rightarrow> bool" where
  "at_most k A m \<longleftrightarrow> does m (\<lambda>x es. length (filter A es) \<le> k)"

lemma does_bind:
  assumes "does m T" and "\<And>x es. T x es \<Longrightarrow> does (f x) (U x)"
    and "\<And>x y es fs. T x es \<Longrightarrow> U x y fs \<Longrightarrow> V y (es @ fs)"
  shows "does (State_Monad.bind m f) V"
  unfolding does_def
proof
  fix s
  obtain x t where m: "run_state m s = (x, t)" by (cases "run_state m s")
  obtain es where es: "trace t = trace s @ es" "T x es"
    using assms(1) m unfolding does_def by (metis fst_conv snd_conv)
  obtain fs where fs: "trace (snd (run_state (f x) t)) = trace t @ fs" "U x (fst (run_state (f x) t)) fs"
    using assms(2) [OF es(2)] unfolding does_def by blast
  show "\<exists>es. trace (snd (run_state (State_Monad.bind m f) s)) = trace s @ es
      \<and> V (fst (run_state (State_Monad.bind m f) s)) es"
    using m es fs assms(3) by (intro exI [of _ "es @ fs"]) (simp add: run_bind)
qed

lemma does_return: "T x [] \<Longrightarrow> does (ret x) T"
  by (simp add: does_def)

lemma does_emit: "T () [e] \<Longrightarrow> does (emit e) T"
  by (simp add: does_def run_emit)

lemma does_silent:
  "(\<And>x. T1 x []) \<Longrightarrow> does (outside f) T1"
  "(\<And>x. T2 x []) \<Longrightarrow> does get_firstSeen T2"
  "(\<And>x. T3 x []) \<Longrightarrow> does (set_firstSeen m) T3"
  "(\<And>x. T4 x []) \<Longrightarrow> does get_breaker T4"
  "(\<And>x. T5 x []) \<Longrightarrow> does (set_breaker b) T5"
  by (simp_all add: does_def run_simps split: prod.splits)

named_theorems emits_rules \<open>introduction rules for \<open>emits\<close>\<close>
named_theorems at_most_rules \<open>introduction rules for \<open>at_most\<close>\<close>

lemma emits_bind [emits_rules]:
  "emits A m \<Longrightarrow> (\<And>x. emits A (f x)) \<Longrightarrow> emits A (State_Monad.bind m f)"
  unfolding emits_def by (rule does_bind [where U = "\<lambda>x y es. list_all A es"]) auto

lemma emits_prim [emits_rules]:
  "emits A (ret x)"
  "A e \<Longrightarrow> emits A (emit e)"
  "emits A (outside f)"
  "emits A get_firstSeen" "emits A (set_firstSeen m)"
  "emits A get_breaker" "emits A (set_breaker b)"
  by (simp_all add: emits_def does_return does_emit does_silent)

lemma emits_if [emits_rules]:
  "(b \<Longrightarrow> emits A m) \<Longrightarrow> (\<not> b \<Longrightarrow> emits A n) \<Longrightarrow> emits A (if b then m else n)"
  by simp

lemma emits_cases [emits_rules]:
  "(x = None \<Longrightarrow> emits A m) \<Longrightarrow> (\<And>y. x = Some y \<Longrightarrow> emits A (f y)) \<Longrightarrow>
     emits A (case x of None \<Rightarrow> m | Some y \<Rightarrow> f y)"
  "(\<And>y. z = Inl y \<Longrightarrow> emits A (g y)) \<Longrightarrow> (\<And>y. z = Inr y \<Longrightarrow> emits A (h y)) \<Longrightarrow>
     emits A (case z of Inl y \<Rightarrow> g y | Inr y \<Rightarrow> h y)"
  "(\<And>u v. p = (u, v) \<Longrightarrow> emits A (k u v)) \<Longrightarrow> emits A (case p of (u, v) \<Rightarrow> k u v)"
  by (auto split: option.splits sum.splits prod.splits)

lemma emits_let [emits_rules]: "(\<And>x. x = v \<Longrightarrow> emits A (f x)) \<Longrightarrow> emits A (let x = v in f x)"
  by simp

lemma emits_calls [emits_rules]:
  "emits A (Now e)"
  "(\<And>r. A (CreateRJob j r)) \<Longrightarrow> emits A (Create_rjob e j)"
  "(\<And>r. A (PatchStatus b j r)) \<Longrightarrow> emits A (Patch_status e j b)"
  "(\<And>r. A (PatchMeta b j r)) \<Longrightarrow> emits A (Patch_rjob e j b)"
  "(\<And>r. A (DeleteRJob j r)) \<Longrightarrow> emits A (Delete_rjob e j)"
  "(\<And>r. A (CreateJob jb r)) \<Longrightarrow> emits A (Create_job e jb)"
  "(\<And>r. A (DeleteConfigMap (cmName cm) r)) \<Longrightarrow> emits A (Delete_configmap e cm)"
  "A (Event su ty re ms) \<Longrightarrow> emits A (record_event wired su ty re ms)"
  unfolding run_calls record_event_def by (intro emits_rules; simp add: emits_prim)+

lemma emitsD:
  assumes "emits A m" and "run_state m s = (x, s')"
  obtains es where "trace s' = trace s @ es" and "\<And>e. e \<in> set es \<Longrightarrow> A e"
  using assms unfolding emits_def does_def by (metis fst_conv list_all_iff snd_conv)

lemma emits_mono: "emits A m \<Longrightarrow> (\<And>e. A e \<Longrightarrow> B e) \<Longrightarrow> emits B m"
  unfolding emits_def does_def by (metis list.pred_mono_strong)

lemma at_most_bind:
  "at_most k A m \<Longrightarrow> (\<And>x. at_most l A (f x)) \<Longrightarrow> at_most (k + l) A (State_Monad.bind m f)"
  unfolding at_most_def by (erule does_bind [where U = "\<lambda>x y es. length (filter A es) \<le> l"]) auto

lemma at_most_0_iff: "at_most 0 A m \<longleftrightarrow> emits (\<lambda>e. \<not> A e) m"
  by (auto simp: at_most_def emits_def does_def list_all_iff filter_empty_conv)

lemma at_most_bind_silent [at_most_rules]:
  "emits (\<lambda>e. \<not> A e) m \<Longrightarrow> (\<And>x. at_most k A (f x)) \<Longrightarrow> at_most k A (State_Monad.bind m f)"
  using at_most_bind [of 0 A m k f] by (simp add: at_most_0_iff)

lemma at_most_mono: "at_most k A m \<Longrightarrow> k \<le> l \<Longrightarrow> at_most l A m"
  unfolding at_most_def does_def by (meson le_trans)

lemma at_most_emits: "emits (\<lambda>e. \<not> A e) m \<Longrightarrow> at_most k A m"
  using at_most_mono [of 0 A m k] by (simp add: at_most_0_iff)

lemma at_most_emit: "at_most 1 A (emit e)"
  by (simp add: at_most_def does_emit)

lemma at_most_if [at_most_rules]:
  "(b \<Longrightarrow> at_most k A m) \<Longrightarrow> (\<not> b \<Longrightarrow> at_most k A n) \<Longrightarrow> at_most k A (if b then m else n)"
  by simp

lemma at_most_cases [at_most_rules]:
  "(x = None \<Longrightarrow> at_most k A m) \<Longrightarrow> (\<And>y. x = Some y \<Longrightarrow> at_most k A (f y)) \<Longrightarrow>
     at_most k A (case x of None \<Rightarrow> m | Some y \<Rightarrow> f y)"
  "(\<And>y. z = Inl y \<Longrightarrow> at_most k A (g y)) \<Longrightarrow> (\<And>y. z = Inr y \<Longrightarrow> at_most k A (h y)) \<Longrightarrow>
     at_most k A (case z of Inl y \<Rightarrow> g y | Inr y \<Rightarrow> h y)"
  "(\<And>u v. p = (u, v) \<Longrightarrow> at_most k A (q u v)) \<Longrightarrow> at_most k A (case p of (u, v) \<Rightarrow> q u v)"
  by (auto split: option.splits sum.splits prod.splits)

lemma at_most_let [at_most_rules]:
  "(\<And>x. x = v \<Longrightarrow> at_most k A (f x)) \<Longrightarrow> at_most k A (let x = v in f x)"
  by simp

lemma does_if: "(b \<Longrightarrow> does m T) \<Longrightarrow> (\<not> b \<Longrightarrow> does n T) \<Longrightarrow> does (if b then m else n) T"
  by simp

lemma does_mono: "does m T \<Longrightarrow> (\<And>x es. T x es \<Longrightarrow> U x es) \<Longrightarrow> does m U"
  unfolding does_def by blast

lemma does_bind_prod:
  assumes "does m (\<lambda>(x, y) es. T x y es)" and "\<And>x y es. T x y es \<Longrightarrow> does (f x y) (U x y)"
    and "\<And>x y z es fs. T x y es \<Longrightarrow> U x y z fs \<Longrightarrow> V z (es @ fs)"
  shows "does (State_Monad.bind m (\<lambda>(x, y). f x y)) V"
  by (rule does_bind [OF assms(1), where U = "\<lambda>(x, y). U x y"]) (auto intro: assms(2,3))

lemma at_most_once: "at_most 1 A (State_Monad.bind (emit e) (\<lambda>_. ret x))"
  using at_most_bind [of 1 A "emit e" 0 "\<lambda>_. ret x"]
  by (simp add: at_most_0_iff emits_rules at_most_emit [simplified])

lemma run_Now: "run_state (Now e) s = (case now e (world s) of (x, w) \<Rightarrow> (x, s\<lparr>world := w\<rparr>))"
  by (simp add: Now_def run_outside)

lemma run_outside_fst: "run_state (outside g) s = (fst (g (world s)), s\<lparr>world := snd (g (world s))\<rparr>)"
  by (simp add: run_outside split: prod.splits)

section \<open>Stages of a reconcile\<close>

abbreviation finish :: outcome where
  "finish \<equiv> (done_Result, None)"

abbreviation fail :: "goerr \<Rightarrow> outcome" where
  "fail er \<equiv> (done_Result, Some er)"

abbreviation managed :: selector where
  "managed \<equiv> [(''app.kubernetes.io/managed-by'', ''mechanic-watcher'')]"

text \<open>A stage that may end the reconcile, and the rest of the reconcile.\<close>

definition gate :: "('w, outcome option) prog \<Rightarrow> ('w, outcome) prog \<Rightarrow> ('w, outcome) prog" where
  "gate m k = do { x \<leftarrow> m; case x of Some out \<Rightarrow> ret out | None \<Rightarrow> k }"

text \<open>
  \<open>passes m P\<close>: when the stage \<open>m\<close> lets the reconcile continue, \<open>P\<close> holds.
\<close>

definition passes :: "('w, 'b option) prog \<Rightarrow> bool \<Rightarrow> bool" where
  "passes m P \<longleftrightarrow> (\<forall>s. fst (run_state m s) = None \<longrightarrow> P)"

lemma emits_gate:
  assumes "emits A m" and "passes m P" and "P \<Longrightarrow> emits A k"
  shows "emits A (gate m k)"
proof -
  have "does m (\<lambda>x es. list_all A es \<and> (x = None \<longrightarrow> P))"
    using assms(1,2) unfolding emits_def does_def passes_def by blast
  then show ?thesis
    unfolding gate_def emits_def
  proof (rule does_bind [where U = "\<lambda>x y es. list_all A es"])
    fix x :: "outcome option" and es
    assume "list_all A es \<and> (x = None \<longrightarrow> P)"
    then show "does (case x of None \<Rightarrow> k | Some out \<Rightarrow> ret out) (\<lambda>y es. list_all A es)"
      using assms(3) by (cases x) (auto simp: emits_def does_return)
  qed simp
qed

lemma at_most_gate:
  "emits (\<lambda>e. \<not> A e) m \<Longrightarrow> at_most n A k \<Longrightarrow> at_most n A (gate m k)"
  unfolding gate_def by (intro at_most_rules) (auto intro: at_most_emits emits_rules)

lemma passes_trivial: "passes m True"
  by (simp add: passes_def)

end
