(* ===== verification/Cluster.thy ===== *)
theory Cluster
  imports World
begin

text \<open>
  A small concrete cluster that answers the calls of an \<open>env\<close>: an API server with one object
  store, no caches and no concurrent writers. It instantiates the environment where a theorem
  is applied to a concrete run.
\<close>

record cluster =
  clClock :: gotime
  clSerial :: int
  clRJobs :: "RemediationJob list"
  clJobs :: "Job list"
  clNamespaces :: "(string \<times> (string \<rightharpoonup> string)) list"
  clPods :: "((string \<times> string) \<times> Pod) list"
  clConfigMaps :: "ConfigMap list"

definition empty_cluster :: cluster where
  "empty_cluster = \<lparr>clClock = 1000 * Hour, clSerial = 0, clRJobs = [], clJobs = [], clNamespaces = [],
     clPods = [], clConfigMaps = []\<rparr>"

definition labels_match :: "selector \<Rightarrow> (string \<rightharpoonup> string) \<Rightarrow> bool" where
  "labels_match sel m \<longleftrightarrow> list_all (\<lambda>(k, v). m k = Some v) sel"

definition same_object :: "RemediationJob \<Rightarrow> RemediationJob \<Rightarrow> bool" where
  "same_object j k \<longleftrightarrow> rjName j = rjName k \<and> rjNamespace j = rjNamespace k"

definition cl_update :: "(RemediationJob \<Rightarrow> RemediationJob) \<Rightarrow> RemediationJob \<Rightarrow> cluster \<Rightarrow>
    (api_error + RemediationJob) \<times> cluster" where
  "cl_update f j c =
     (case find (same_object j) (clRJobs c) of
        None \<Rightarrow> (Inl NotFound, c)
      | Some old \<Rightarrow> (Inr (f old), c\<lparr>clRJobs := map (\<lambda>k. if same_object j k then f k else k) (clRJobs c)\<rparr>))"

definition cl_create :: "RemediationJob \<Rightarrow> cluster \<Rightarrow> (api_error + RemediationJob) \<times> cluster" where
  "cl_create j c =
     (if find (same_object j) (clRJobs c) \<noteq> None then (Inl AlreadyExists, c)
      else
        (let stored = j\<lparr>rjUID := ''uid-'' @ int_to_dec (clSerial c),
                        rjCreationTimestamp := clClock c, rjStatus := zero_Status\<rparr>
         in (Inr stored, c\<lparr>clRJobs := clRJobs c @ [stored], clSerial := clSerial c + 1\<rparr>)))"

definition cl_delete :: "RemediationJob \<Rightarrow> cluster \<Rightarrow> api_error option \<times> cluster" where
  "cl_delete j c =
     (if find (same_object j) (clRJobs c) = None then (Some NotFound, c)
      else (None, c\<lparr>clRJobs := filter (\<lambda>k. \<not> same_object j k) (clRJobs c)\<rparr>))"

definition found :: "'a option \<Rightarrow> api_error + 'a" where
  "found x = (case x of None \<Rightarrow> Inl NotFound | Some y \<Rightarrow> Inr y)"

definition set_condition :: "Condition list \<Rightarrow> Condition \<Rightarrow> Condition list" where
  "set_condition cs c =
     (if find (\<lambda>d. cType d = cType c) cs = None then cs @ [c]
      else map (\<lambda>d. if cType d = cType c then c else d) cs)"

definition cluster_env :: "cluster env" where
  "cluster_env = \<lparr>
     now = (\<lambda>c. (clClock c, c)),
     map_order = (\<lambda>xs. xs),
     random_id = (\<lambda>c. (''group-'' @ int_to_dec (clSerial c), c\<lparr>clSerial := clSerial c + 1\<rparr>)),
     get_rjob = (\<lambda>n c. (found (find (\<lambda>j. rjName j = nnName n \<and> rjNamespace j = nnNamespace n) (clRJobs c)), c)),
     list_rjobs = (\<lambda>ns sel c. (Inr (filter (\<lambda>j. rjNamespace j = ns \<and> labels_match sel (rjLabels j)) (clRJobs c)), c)),
     create_rjob = cl_create,
     patch_status = (\<lambda>j b. cl_update (\<lambda>k. k\<lparr>rjStatus := rjStatus j\<rparr>) j),
     patch_rjob = (\<lambda>j b. cl_update (\<lambda>k. k\<lparr>rjLabels := rjLabels j, rjAnnotations := rjAnnotations j\<rparr>) j),
     delete_rjob = cl_delete,
     list_jobs = (\<lambda>ns sel c. (Inr (filter (\<lambda>j. jbNamespace j = ns \<and> labels_match sel (jbLabels j)) (clJobs c)), c)),
     get_job = (\<lambda>n c. (found (find (\<lambda>j. jbName j = nnName n \<and> jbNamespace j = nnNamespace n) (clJobs c)), c)),
     create_job = (\<lambda>j c. if find (\<lambda>k. jbName k = jbName j \<and> jbNamespace k = jbNamespace j) (clJobs c) \<noteq> None
                         then (Some AlreadyExists, c)
                         else (None, c\<lparr>clJobs := clJobs c @ [j\<lparr>jbCreationTimestamp := clClock c\<rparr>]\<rparr>)),
     get_namespace = (\<lambda>n c. (found (map_of (clNamespaces c) n), c)),
     get_pod = (\<lambda>n c. (found (map_of (clPods c) (nnNamespace n, nnName n)), c)),
     get_configmap = (\<lambda>n c. (found (find (\<lambda>m. cmName m = nnName n \<and> cmNamespace m = nnNamespace n) (clConfigMaps c)), c)),
     delete_configmap = (\<lambda>m c. (None, c\<lparr>clConfigMaps := filter (\<lambda>x. cmName x \<noteq> cmName m) (clConfigMaps c)\<rparr>)),
     SetStatusCondition = set_condition,
     IsStatusConditionTrue = (\<lambda>cs ty. list_ex (\<lambda>c. cType c = ty \<and> cStatus c = ''True'') cs),
     api_error_string = (\<lambda>e. ''error'')\<rparr>"

definition start :: "cluster \<Rightarrow> cluster sys" where
  "start c = \<lparr>world = c, firstSeen = None, breaker = None, trace = []\<rparr>"

lemmas cluster_simps = cluster_env_def start_def empty_cluster_def cl_update_def cl_create_def
  cl_delete_def found_def set_condition_def labels_match_def same_object_def

text \<open>Sample objects.\<close>

definition sample_finding :: "string \<Rightarrow> string \<Rightarrow> string \<Rightarrow> FindingSpec" where
  "sample_finding kind name parent = \<lparr>fsKind = kind, fsName = name, fsNamespace = ''prod'',
     fsParentObject = parent, fsErrors = '''', fsDetails = '''', fsChainDepth = 0\<rparr>"

definition sample_spec :: "FindingSpec \<Rightarrow> RemediationJobSpec" where
  "sample_spec f = \<lparr>spSourceResultRef = \<lparr>rrName = fsName f, rrNamespace = fsNamespace f\<rparr>,
     spFingerprint = ''0123456789abcdef'', spSourceType = ''native'', spSinkType = ''github'',
     spFinding = f, spGitOpsRepo = ''org/gitops'', spGitOpsManifestRoot = ''clusters/prod'',
     spAgentImage = ''ghcr.io/mechanic-agent'', spAgentSA = ''mechanic-agent'', spMaxRetries = 3,
     spSeverity = ''high''\<rparr>"

definition sample_rjob :: "string \<Rightarrow> gotime \<Rightarrow> FindingSpec \<Rightarrow> RemediationJobPhase \<Rightarrow> RemediationJob" where
  "sample_rjob name created f phase = \<lparr>rjName = name, rjNamespace = ''mechanic'', rjUID = ''uid-'' @ name,
     rjCreationTimestamp = created,
     rjLabels = [''app.kubernetes.io/managed-by'' \<mapsto> ''mechanic-watcher''],
     rjAnnotations = Map.empty, rjSpec = sample_spec f, rjStatus = zero_Status\<lparr>stPhase := phase\<rparr>\<rparr>"

end
