(* ===== verification/Correlator.thy ===== *)
theory Correlator
  imports Cluster "HOL-Library.Product_Lexorder"
begin

text \<open>
  The correlator (\<open>src/internal/correlator/correlator.go\<close>, \<open>rules.go\<close>) and its construction
  (\<open>buildCorrelator\<close> in \<open>src/cmd/watcher/main.go\<close>): an ordered list of rules, each of which may
  group a candidate job with pending peers and name one of them the primary.

  The contract of a rule is the locale \<open>correlation_rule\<close>; the correlator's own guarantees are
  proved inside it and all three built-in rules are interpretations.
\<close>

section \<open>Data\<close>

record CorrelationResult =
  crMatched :: bool
  crGroupID :: string
  crPrimaryUID :: string
  crReason :: string
  crMatchedUIDs :: "string list"

definition no_match :: CorrelationResult where
  "no_match = \<lparr>crMatched = False, crGroupID = '''', crPrimaryUID = '''', crReason = '''',
     crMatchedUIDs = []\<rparr>"

record CorrelationGroup =
  cgGroupID :: string
  cgPrimaryUID :: string
  cgCorrelatedUIDs :: "string list"
  cgRule :: string
  cgAllFindings :: "FindingSpec list"

type_synonym 'w evaluation =
  "RemediationJob \<Rightarrow> RemediationJob list \<Rightarrow> ('w, goerr + CorrelationResult) prog"

record 'w CorrelationRule =
  ruleName :: string
  ruleEvaluate :: "'w evaluation"

definition NewCorrelationGroupID :: "'w env \<Rightarrow> ('w, string) prog" where
  "NewCorrelationGroupID e = outside (random_id e)"

section \<open>Choosing the primary\<close>

definition kindRank :: "string \<Rightarrow> int" where
  "kindRank kind = KindHierarchyRank kind"

definition primary_step :: "RemediationJob \<Rightarrow> RemediationJob \<Rightarrow> RemediationJob" where
  "primary_step primary p =
     (let pr = kindRank (fsKind (rjFinding p));
          cr = kindRank (fsKind (rjFinding primary)) in
      if pr > cr then p
      else if pr = cr \<and> rjCreationTimestamp p < rjCreationTimestamp primary then p
      else if pr = cr \<and> rjCreationTimestamp p = rjCreationTimestamp primary
              \<and> rjName p < rjName primary then p
      else primary)"

definition selectPrimary :: "RemediationJob \<Rightarrow> RemediationJob list \<Rightarrow> RemediationJob" where
  "selectPrimary candidate matched = foldl primary_step candidate matched"

section \<open>The rules\<close>

definition isParentPrefix :: "string \<Rightarrow> string \<Rightarrow> bool" where
  "isParentPrefix a b \<longleftrightarrow> a = b \<or> strings_HasPrefix a (b @ ''-'')"

definition same_parent :: "RemediationJob \<Rightarrow> RemediationJob \<Rightarrow> bool" where
  "same_parent candidate p \<longleftrightarrow>
     rjUID p \<noteq> rjUID candidate
     \<and> fsNamespace (rjFinding p) = fsNamespace (rjFinding candidate)
     \<and> \<not> (fsParentObject (rjFinding candidate) = '''' \<or> fsParentObject (rjFinding p) = '''')
     \<and> (isParentPrefix (fsParentObject (rjFinding candidate)) (fsParentObject (rjFinding p))
        \<or> isParentPrefix (fsParentObject (rjFinding p)) (fsParentObject (rjFinding candidate)))"

definition SameNamespaceParentRule_Evaluate :: "'w env \<Rightarrow> 'w evaluation" where
  "SameNamespaceParentRule_Evaluate e candidate peers =
     (let matched = filter (same_parent candidate) peers in
      if matched = [] then ret (Inr no_match)
      else do {
        gid \<leftarrow> NewCorrelationGroupID e;
        ret (Inr \<lparr>crMatched = True, crGroupID = gid,
                  crPrimaryUID = rjUID (selectPrimary candidate matched),
                  crReason = ''same-namespace-parent-prefix'',
                  crMatchedUIDs = rjUID candidate # map rjUID matched\<rparr>) })"

definition podClaimNames :: "Pod \<Rightarrow> string set" where
  "podClaimNames pod =
     set (concat (map (\<lambda>v. case v of Some c \<Rightarrow> [c] | None \<Rightarrow> []) (podClaims pod)))"

text \<open>
  \<open>sort.Slice\<close> by creation time, then name. (Names are unique within a namespace, so the order
  is total on the jobs of one list and stability does not matter.)
\<close>

definition by_age :: "RemediationJob \<Rightarrow> gotime \<times> string" where
  "by_age j = (rjCreationTimestamp j, rjName j)"

definition evaluatePodCandidate :: "'w env \<Rightarrow> 'w evaluation" where
  "evaluatePodCandidate e candidate peers =
     (let ns = fsNamespace (rjFinding candidate);
          podName = fsName (rjFinding candidate);
          pvcPeers = filter (\<lambda>p. fsKind (rjFinding p) = ''PersistentVolumeClaim''
                                 \<and> fsNamespace (rjFinding p) = ns) peers in
      if pvcPeers = [] then ret (Inr no_match)
      else do {
        r \<leftarrow> outside (get_pod e \<lparr>nnNamespace = ns, nnName = podName\<rparr>);
        case r of
          Inl er \<Rightarrow> if IsNotFound er then ret (Inr no_match) else ret (Inl (Api er))
        | Inr pod \<Rightarrow>
            (let claimNames = podClaimNames pod;
                 matchedPVCs = filter (\<lambda>p. fsName (rjFinding p) \<in> claimNames) pvcPeers in
             if matchedPVCs = [] then ret (Inr no_match)
             else
               (let matchedPVCs = sort_key by_age matchedPVCs;
                    primary = hd matchedPVCs
                in do {
                     gid \<leftarrow> NewCorrelationGroupID e;
                     ret (Inr \<lparr>crMatched = True, crGroupID = gid, crPrimaryUID = rjUID primary,
                               crReason = ''pvc-pod-volume-reference'',
                               crMatchedUIDs = rjUID candidate # map rjUID matchedPVCs\<rparr>) })) })"

text \<open>The loop over the pod peers of a claim: the peers whose pod mounts it, or the first error.\<close>

fun matched_pods :: "'w env \<Rightarrow> string \<Rightarrow> string \<Rightarrow> RemediationJob list \<Rightarrow>
    ('w, api_error + RemediationJob list) prog" where
  "matched_pods e ns pvcName [] = ret (Inr [])"
| "matched_pods e ns pvcName (p # ps) =
     (if fsKind (rjFinding p) \<noteq> ''Pod'' \<or> fsNamespace (rjFinding p) \<noteq> ns
      then matched_pods e ns pvcName ps
      else do {
        r \<leftarrow> outside (get_pod e \<lparr>nnNamespace = ns, nnName = fsName (rjFinding p)\<rparr>);
        case r of
          Inl er \<Rightarrow> if IsNotFound er then matched_pods e ns pvcName ps else ret (Inl er)
        | Inr pod \<Rightarrow> do {
            rest \<leftarrow> matched_pods e ns pvcName ps;
            ret (case rest of Inl er \<Rightarrow> Inl er
                 | Inr ms \<Rightarrow> Inr (if pvcName \<in> podClaimNames pod then p # ms else ms)) } })"

definition evaluatePVCCandidate :: "'w env \<Rightarrow> 'w evaluation" where
  "evaluatePVCCandidate e candidate peers = do {
     r \<leftarrow> matched_pods e (fsNamespace (rjFinding candidate)) (fsName (rjFinding candidate)) peers;
     case r of
       Inl er \<Rightarrow> ret (Inl (Api er))
     | Inr matchedPods \<Rightarrow>
         if matchedPods = [] then ret (Inr no_match)
         else do {
           gid \<leftarrow> NewCorrelationGroupID e;
           ret (Inr \<lparr>crMatched = True, crGroupID = gid, crPrimaryUID = rjUID candidate,
                     crReason = ''pvc-pod-volume-reference'',
                     crMatchedUIDs = rjUID candidate # map rjUID matchedPods\<rparr>) } }"

definition PVCPodRule_Evaluate :: "'w env \<Rightarrow> 'w evaluation" where
  "PVCPodRule_Evaluate e candidate peers =
     (let candidateKind = fsKind (rjFinding candidate) in
      if candidateKind = ''Pod'' then evaluatePodCandidate e candidate peers
      else if candidateKind = ''PersistentVolumeClaim'' then evaluatePVCCandidate e candidate peers
      else ret (Inr no_match))"

definition pod_node :: "RemediationJob \<Rightarrow> string" where
  "pod_node j = map_get (rjAnnotations j) NodeNameAnnotation"

definition node_count :: "RemediationJob list \<Rightarrow> string \<Rightarrow> int" where
  "node_count jobs node =
     int (length (filter (\<lambda>j. fsKind (rjFinding j) = ''Pod'' \<and> pod_node j = node) jobs))"

definition qualifying_nodes :: "int \<Rightarrow> RemediationJob list \<Rightarrow> string list" where
  "qualifying_nodes threshold jobs =
     filter (\<lambda>n. node_count jobs n \<ge> threshold)
       (remdups (filter (\<lambda>n. n \<noteq> '''')
         (map pod_node (filter (\<lambda>j. fsKind (rjFinding j) = ''Pod'') jobs))))"

definition oldest_step :: "RemediationJob \<Rightarrow> RemediationJob \<Rightarrow> RemediationJob" where
  "oldest_step primary p =
     (if rjCreationTimestamp p < rjCreationTimestamp primary then p
      else if rjCreationTimestamp primary = rjCreationTimestamp p \<and> rjName p < rjName primary then p
      else primary)"

definition MultiPodSameNodeRule_Evaluate :: "int \<Rightarrow> 'w env \<Rightarrow> 'w evaluation" where
  "MultiPodSameNodeRule_Evaluate threshold e candidate peers =
     (if threshold \<le> 0
      then ret (Inl (Msg (''MultiPodSameNodeRule: Threshold must be > 0, got '' @ int_to_dec threshold)))
      else
        (let jobs = candidate # peers;
             nodes = sort (qualifying_nodes threshold jobs) in
         if nodes = [] then ret (Inr no_match)
         else
           (let nodeName = hd nodes;
                nodePods = filter (\<lambda>j. fsKind (rjFinding j) = ''Pod'' \<and> pod_node j = nodeName) jobs;
                primary = foldl oldest_step (hd nodePods) (tl nodePods)
            in do {
                 gid \<leftarrow> NewCorrelationGroupID e;
                 ret (Inr \<lparr>crMatched = True, crGroupID = gid, crPrimaryUID = rjUID primary,
                           crReason = ''multi-pod-same-node'',
                           crMatchedUIDs = map rjUID nodePods\<rparr>) })))"

section \<open>The correlator\<close>

text \<open>The group made from a rule's positive result.\<close>

definition make_group ::
    "string \<Rightarrow> CorrelationResult \<Rightarrow> RemediationJob \<Rightarrow> RemediationJob list \<Rightarrow> CorrelationGroup" where
  "make_group name result candidate peers =
     (let primary = crPrimaryUID result in
      if crMatchedUIDs result \<noteq> [] then
        (let matchedSet = set (crMatchedUIDs result) in
         \<lparr>cgGroupID = crGroupID result, cgPrimaryUID = primary,
          cgCorrelatedUIDs = filter (\<lambda>u. u \<noteq> primary) (crMatchedUIDs result),
          cgRule = name,
          cgAllFindings =
            (if rjUID candidate \<in> matchedSet \<and> rjUID candidate \<noteq> primary then [rjFinding candidate] else [])
            @ map rjFinding (filter (\<lambda>p. rjUID p \<in> matchedSet \<and> rjUID p \<noteq> primary) peers)\<rparr>)
      else
        (let others = (if rjUID candidate \<noteq> primary then [candidate] else [])
                        @ filter (\<lambda>p. rjUID p \<noteq> primary) peers in
         \<lparr>cgGroupID = crGroupID result, cgPrimaryUID = primary,
          cgCorrelatedUIDs = map rjUID others,
          cgRule = name,
          cgAllFindings = map rjFinding others\<rparr>))"

fun Correlator_Evaluate ::
    "'w CorrelationRule list \<Rightarrow> RemediationJob \<Rightarrow> RemediationJob list \<Rightarrow>
     ('w, goerr + CorrelationGroup option) prog" where
  "Correlator_Evaluate [] candidate peers = ret (Inr None)"
| "Correlator_Evaluate (rule # rules) candidate peers = do {
     r \<leftarrow> ruleEvaluate rule candidate peers;
     case r of
       Inl er \<Rightarrow> ret (Inl (Wrapped (''correlator: rule '' @ ruleName rule) er))
     | Inr result \<Rightarrow>
         if \<not> crMatched result then Correlator_Evaluate rules candidate peers
         else ret (Inr (Some (make_group (ruleName rule) result candidate peers))) }"

definition builtin_rules :: "'w env \<Rightarrow> Config \<Rightarrow> 'w CorrelationRule list" where
  "builtin_rules e cfg =
     [\<lparr>ruleName = ''PVCPod'', ruleEvaluate = PVCPodRule_Evaluate e\<rparr>,
      \<lparr>ruleName = ''SameNamespaceParent'', ruleEvaluate = SameNamespaceParentRule_Evaluate e\<rparr>,
      \<lparr>ruleName = ''MultiPodSameNode'',
       ruleEvaluate = MultiPodSameNodeRule_Evaluate (MultiPodThreshold cfg) e\<rparr>]"

definition buildCorrelator :: "'w env \<Rightarrow> Config \<Rightarrow> goerr + 'w CorrelationRule list option" where
  "buildCorrelator e cfg =
     (if DisableCorrelation cfg then Inr None
      else if MultiPodThreshold cfg \<le> 0
      then Inl (Msg (''buildCorrelator: MultiPodThreshold must be > 0, got '' @
             int_to_dec (MultiPodThreshold cfg) @ '' (check CORRELATION_MULTI_POD_THRESHOLD)''))
      else Inr (Some (builtin_rules e cfg)))"

section \<open>The primary is the least job of an order\<close>

text \<open>
  The order behind \<open>selectPrimary\<close>: higher kind first, then older, then the smaller name.
\<close>

definition precedence :: "RemediationJob \<Rightarrow> int \<times> gotime \<times> string" where
  "precedence j = (- kindRank (fsKind (rjFinding j)), rjCreationTimestamp j, rjName j)"

lemma primary_step_min:
  "primary_step primary p = (if precedence p < precedence primary then p else primary)"
  by (auto simp: primary_step_def precedence_def Let_def less_prod_def less_eq_prod_def)

lemma oldest_step_min:
  "oldest_step primary p = (if by_age p < by_age primary then p else primary)"
  by (auto simp: oldest_step_def by_age_def less_prod_def less_eq_prod_def)

lemma foldl_min:
  fixes key :: "'a \<Rightarrow> 'b::linorder"
  assumes "\<And>m x. f m x = (if key x < key m then x else m)"
  shows "foldl f m xs \<in> set (m # xs) \<and> (\<forall>x \<in> set (m # xs). key (foldl f m xs) \<le> key x)"
proof (induction xs arbitrary: m)
  case (Cons x xs)
  from Cons.IH [of "f m x"] show ?case by (auto simp: assms split: if_splits)
qed simp

lemmas selectPrimary_least = foldl_min [where f = primary_step, OF primary_step_min,
    folded selectPrimary_def]

lemmas oldest_least = foldl_min [where f = oldest_step, OF oldest_step_min]

lemma hd_sort_key_least:
  "xs \<noteq> [] \<Longrightarrow> hd (sort_key f xs) \<in> set xs \<and> (\<forall>x \<in> set xs. f (hd (sort_key f xs)) \<le> f x)"
proof -
  assume "xs \<noteq> []"
  then obtain y ys where s: "sort_key f xs = y # ys"
    by (metis length_0_conv length_sort neq_Nil_conv)
  have "sorted (map f (y # ys))" unfolding s [symmetric] by simp
  moreover have "set xs = set (y # ys)" unfolding s [symmetric] by simp
  ultimately show ?thesis by (auto simp: s)
qed

section \<open>The contract of a rule\<close>

text \<open>
  What \<open>domain.CorrelationRule\<close> promises: evaluating a rule has no effect on the cluster, and a
  match names a non-empty group of jobs among the candidate and its peers, the primary being one
  of the group.
\<close>

locale correlation_rule =
  fixes evaluate :: "'w evaluation"
  assumes silent: "emits (\<lambda>_. False) (evaluate candidate peers)"
    and matched_among: "run_state (evaluate candidate peers) s = (Inr result, s') \<Longrightarrow>
      crMatched result \<Longrightarrow> set (crMatchedUIDs result) \<subseteq> rjUID ` set (candidate # peers)"
    and primary_matched: "run_state (evaluate candidate peers) s = (Inr result, s') \<Longrightarrow>
      crMatched result \<Longrightarrow> crPrimaryUID result \<in> set (crMatchedUIDs result)"
begin

text \<open>
  The group the correlator makes of a match: its members are the primary and the correlated jobs,
  all among candidate and peers, and its findings are exactly those of the correlated jobs.
\<close>

lemma group_members:
  assumes "run_state (evaluate candidate peers) s = (Inr result, s')" and "crMatched result"
    and g_def: "g = make_group name result candidate peers"
  shows "insert (cgPrimaryUID g) (set (cgCorrelatedUIDs g)) = set (crMatchedUIDs result)"
    and "cgPrimaryUID g \<notin> set (cgCorrelatedUIDs g)"
    and "set (cgAllFindings g)
      = rjFinding ` {j \<in> set (candidate # peers). rjUID j \<in> set (cgCorrelatedUIDs g)}"
proof -
  have p: "crPrimaryUID result \<in> set (crMatchedUIDs result)"
    using assms(1,2) by (rule primary_matched)
  then have ne: "crMatchedUIDs result \<noteq> []" by auto
  show "insert (cgPrimaryUID g) (set (cgCorrelatedUIDs g)) = set (crMatchedUIDs result)"
    using p ne by (auto simp: g_def make_group_def Let_def)
  show "cgPrimaryUID g \<notin> set (cgCorrelatedUIDs g)"
    using ne by (simp add: g_def make_group_def Let_def)
  show "set (cgAllFindings g)
      = rjFinding ` {j \<in> set (candidate # peers). rjUID j \<in> set (cgCorrelatedUIDs g)}"
    using ne by (auto simp: g_def make_group_def Let_def)
qed

lemma group_among:
  assumes "run_state (evaluate candidate peers) s = (Inr result, s')" and "crMatched result"
  shows "insert (cgPrimaryUID (make_group name result candidate peers))
      (set (cgCorrelatedUIDs (make_group name result candidate peers))) \<subseteq> rjUID ` set (candidate # peers)"
  using group_members(1) [OF assms refl, of name] matched_among [OF assms] by simp

end

lemma emits_NewID [emits_rules]: "emits A (NewCorrelationGroupID e)"
  by (simp add: NewCorrelationGroupID_def emits_rules)

interpretation parent: correlation_rule "SameNamespaceParentRule_Evaluate e" for e :: "'w env"
proof
  show "emits (\<lambda>_. False) (SameNamespaceParentRule_Evaluate e candidate peers)" for candidate peers
    unfolding SameNamespaceParentRule_Evaluate_def by (intro emits_rules)
next
  fix candidate peers s result s'
  assume run: "run_state (SameNamespaceParentRule_Evaluate e candidate peers) s = (Inr result, s')"
    and m: "crMatched result"
  show "set (crMatchedUIDs result) \<subseteq> rjUID ` set (candidate # peers)"
    using run m by (auto simp: SameNamespaceParentRule_Evaluate_def NewCorrelationGroupID_def
        no_match_def run_simps Let_def split: if_splits prod.splits)
  let ?ms = "filter (same_parent candidate) peers"
  show "crPrimaryUID result \<in> set (crMatchedUIDs result)"
    using run m selectPrimary_least [of candidate ?ms]
    by (auto simp: SameNamespaceParentRule_Evaluate_def NewCorrelationGroupID_def
        no_match_def run_simps Let_def split: if_splits prod.splits)
qed

lemma matched_pods_emits: "emits A (matched_pods e ns pvc ps)"
  by (induction ps) (auto intro!: emits_rules)

lemma matched_pods_subset:
  "run_state (matched_pods e ns pvc ps) s = (Inr ms, s') \<Longrightarrow> set ms \<subseteq> set ps"
  by (induction ps arbitrary: ms s s')
    (fastforce simp: run_simps split: if_splits sum.splits prod.splits)+

lemma run_NewID: "run_state (NewCorrelationGroupID e) s = (case random_id e (world s) of (x, w) \<Rightarrow> (x, s\<lparr>world := w\<rparr>))"
  by (simp add: NewCorrelationGroupID_def run_outside)

lemmas rule_simps = no_match_def run_simps run_NewID Let_def

lemma pod_candidate_group:
  assumes "run_state (evaluatePodCandidate e candidate peers) s = (Inr result, s')" and "crMatched result"
  obtains pvcs where "pvcs \<noteq> []" and "set pvcs \<subseteq> {p \<in> set peers. fsKind (rjFinding p) = ''PersistentVolumeClaim''}"
    and "crMatchedUIDs result = rjUID candidate # map rjUID (sort_key by_age pvcs)"
    and "crPrimaryUID result = rjUID (hd (sort_key by_age pvcs))"
proof -
  define pvcs where "pvcs = filter (\<lambda>p. fsKind (rjFinding p) = ''PersistentVolumeClaim''
       \<and> fsNamespace (rjFinding p) = fsNamespace (rjFinding candidate)) peers"
  let ?m = "\<lambda>pod. filter (\<lambda>p. fsName (rjFinding p) \<in> podClaimNames pod) pvcs"
  from assms obtain pod where "?m pod \<noteq> []"
    and "crMatchedUIDs result = rjUID candidate # map rjUID (sort_key by_age (?m pod))"
    and "crPrimaryUID result = rjUID (hd (sort_key by_age (?m pod)))"
    unfolding evaluatePodCandidate_def Let_def pvcs_def [symmetric]
    by (auto simp: rule_simps split: if_splits sum.splits prod.splits)
  then show thesis by (intro that [of "?m pod"]) (auto simp: pvcs_def)
qed

lemma pvc_candidate_group:
  assumes "run_state (evaluatePVCCandidate e candidate peers) s = (Inr result, s')" and "crMatched result"
  obtains pods where "pods \<noteq> []" and "set pods \<subseteq> set peers"
    and "crMatchedUIDs result = rjUID candidate # map rjUID pods"
    and "crPrimaryUID result = rjUID candidate"
  using assms
  by (auto simp: evaluatePVCCandidate_def rule_simps split: if_splits sum.splits prod.splits
      dest!: matched_pods_subset)

interpretation pvc: correlation_rule "PVCPodRule_Evaluate e" for e :: "'w env"
proof
  show "emits (\<lambda>_. False) (PVCPodRule_Evaluate e candidate peers)" for candidate peers
    unfolding PVCPodRule_Evaluate_def evaluatePodCandidate_def evaluatePVCCandidate_def
    by (intro emits_rules matched_pods_emits)
next
  fix candidate peers s result s'
  assume "run_state (PVCPodRule_Evaluate e candidate peers) s = (Inr result, s')" and m: "crMatched result"
  then consider "run_state (evaluatePodCandidate e candidate peers) s = (Inr result, s')"
    | "run_state (evaluatePVCCandidate e candidate peers) s = (Inr result, s')"
    by (auto simp: PVCPodRule_Evaluate_def Let_def no_match_def split: if_splits)
  then have "set (crMatchedUIDs result) \<subseteq> rjUID ` set (candidate # peers)
      \<and> crPrimaryUID result \<in> set (crMatchedUIDs result)"
  proof cases
    case 1
    from 1 m show ?thesis
    proof (rule pod_candidate_group)
      fix pvcs
      assume "pvcs \<noteq> []" and "set pvcs \<subseteq> {p \<in> set peers. fsKind (rjFinding p) = ''PersistentVolumeClaim''}"
        and "crMatchedUIDs result = rjUID candidate # map rjUID (sort_key by_age pvcs)"
        and "crPrimaryUID result = rjUID (hd (sort_key by_age pvcs))"
      with hd_sort_key_least [of pvcs by_age] show ?thesis by auto
    qed
  next
    case 2
    from 2 m show ?thesis by (rule pvc_candidate_group) auto
  qed
  then show "set (crMatchedUIDs result) \<subseteq> rjUID ` set (candidate # peers)"
    and "crPrimaryUID result \<in> set (crMatchedUIDs result)" by blast+
qed

lemma qualifying_nodes_pods:
  assumes "n \<in> set (qualifying_nodes t jobs)"
  shows "filter (\<lambda>j. fsKind (rjFinding j) = ''Pod'' \<and> pod_node j = n) jobs \<noteq> []"
  using assms by (auto simp: qualifying_nodes_def filter_empty_conv)

lemma qualifying_nodesD:
  assumes "n \<in> set (qualifying_nodes t jobs)"
  shows "t \<le> node_count jobs n" and "n \<noteq> ''''"
  using assms by (auto simp: qualifying_nodes_def)

text \<open>The group of the node rule: all pod jobs of one node, at least the threshold of them.\<close>

lemma node_group:
  assumes "run_state (MultiPodSameNodeRule_Evaluate t e candidate peers) s = (Inr result, s')"
    and "crMatched result"
  obtains node pods where "pods \<noteq> []" and "t \<le> int (length pods)" and "node \<noteq> ''''"
    and "pods = filter (\<lambda>j. fsKind (rjFinding j) = ''Pod'' \<and> pod_node j = node) (candidate # peers)"
    and "crMatchedUIDs result = map rjUID pods"
    and "crPrimaryUID result = rjUID (foldl oldest_step (hd pods) (tl pods))"
proof -
  let ?nodes = "sort (qualifying_nodes t (candidate # peers))"
  let ?node = "hd ?nodes"
  let ?pods = "filter (\<lambda>j. fsKind (rjFinding j) = ''Pod'' \<and> pod_node j = ?node) (candidate # peers)"
  from assms have ne: "?nodes \<noteq> []" and uids: "crMatchedUIDs result = map rjUID ?pods"
    and primary: "crPrimaryUID result = rjUID (foldl oldest_step (hd ?pods) (tl ?pods))"
    by (auto simp: MultiPodSameNodeRule_Evaluate_def rule_simps simp del: filter.simps
        split: if_splits prod.splits)
  from ne have q: "?node \<in> set (qualifying_nodes t (candidate # peers))"
    by (metis hd_in_set set_sort)
  then have "t \<le> node_count (candidate # peers) ?node" and "?node \<noteq> ''''"
    by (rule qualifying_nodesD)+
  moreover from this(1) have "t \<le> int (length ?pods)" by (simp only: node_count_def)
  ultimately show ?thesis
    using qualifying_nodes_pods [OF q] uids primary by (intro that [of ?pods ?node]) (rule refl | assumption)+
qed

interpretation node: correlation_rule "MultiPodSameNodeRule_Evaluate t e" for t and e :: "'w env"
proof
  show "emits (\<lambda>_. False) (MultiPodSameNodeRule_Evaluate t e candidate peers)" for candidate peers
    unfolding MultiPodSameNodeRule_Evaluate_def by (intro emits_rules)
next
  fix candidate peers s result s'
  assume a: "run_state (MultiPodSameNodeRule_Evaluate t e candidate peers) s = (Inr result, s')"
    "crMatched result"
  from a have "set (crMatchedUIDs result) \<subseteq> rjUID ` set (candidate # peers)
      \<and> crPrimaryUID result \<in> set (crMatchedUIDs result)"
  proof (rule node_group)
    fix node pods
    assume pods: "pods \<noteq> []" "pods = filter (\<lambda>j. fsKind (rjFinding j) = ''Pod'' \<and> pod_node j = node) (candidate # peers)"
      "crMatchedUIDs result = map rjUID pods"
      "crPrimaryUID result = rjUID (foldl oldest_step (hd pods) (tl pods))"
    have "set pods \<subseteq> set (candidate # peers)" unfolding pods(2) by (rule filter_is_subset)
    moreover have "foldl oldest_step (hd pods) (tl pods) \<in> set pods"
      using oldest_least [of "hd pods" "tl pods"] pods(1) by simp
    ultimately show ?thesis unfolding pods(3,4) by auto
  qed
  then show "set (crMatchedUIDs result) \<subseteq> rjUID ` set (candidate # peers)"
    and "crPrimaryUID result \<in> set (crMatchedUIDs result)" by blast+
qed

section \<open>Properties\<close>

lemma Evaluate_some_rule:
  assumes "run_state (Correlator_Evaluate rules candidate peers) s = (Inr (Some g), s')"
  shows "\<exists>rule \<in> set rules. \<exists>t t' result.
    run_state (ruleEvaluate rule candidate peers) t = (Inr result, t') \<and> crMatched result
    \<and> g = make_group (ruleName rule) result candidate peers"
  using assms
  by (induction rules arbitrary: s) (fastforce simp: run_bind split: sum.splits if_splits prod.splits)+

lemma builtin_rule_contract:
  assumes "rule \<in> set (builtin_rules e cfg)"
  shows "correlation_rule (ruleEvaluate rule)"
  using assms parent.correlation_rule_axioms pvc.correlation_rule_axioms node.correlation_rule_axioms
  by (auto simp: builtin_rules_def)

lemma Correlator_Evaluate_emits:
  assumes "\<And>rule. rule \<in> set rules \<Longrightarrow> correlation_rule (ruleEvaluate rule)"
  shows "emits A (Correlator_Evaluate rules candidate peers)"
  using assms
proof (induction rules)
  case (Cons rule rules)
  then have "emits (\<lambda>_. False) (ruleEvaluate rule candidate peers)"
    by (intro correlation_rule.silent) simp
  with Cons show ?case by (auto intro!: emits_rules elim: emits_mono)
qed (simp add: emits_rules)

text \<open>
  C28. Whatever the API answers, a group that the correlator with its built-in rules reports
  consists of the candidate and its peers only; the primary belongs to the group and is not among
  the correlated jobs it replaces; and the findings handed to the investigation are exactly the
  findings of the correlated jobs, so that nothing leaks in from other groups.
\<close>

theorem correlator_group_sound:
  assumes "run_state (Correlator_Evaluate (builtin_rules e cfg) candidate peers) s = (Inr (Some g), s')"
  shows "insert (cgPrimaryUID g) (set (cgCorrelatedUIDs g)) \<subseteq> rjUID ` set (candidate # peers)
    \<and> cgPrimaryUID g \<notin> set (cgCorrelatedUIDs g)
    \<and> set (cgAllFindings g)
        = rjFinding ` {j \<in> set (candidate # peers). rjUID j \<in> set (cgCorrelatedUIDs g)}
    \<and> trace s' = trace s"
proof -
  from Evaluate_some_rule [OF assms] obtain rule t t' result where
    rule: "rule \<in> set (builtin_rules e cfg)"
    and run: "run_state (ruleEvaluate rule candidate peers) t = (Inr result, t')" "crMatched result"
    and g: "g = make_group (ruleName rule) result candidate peers" by blast
  note contract = builtin_rule_contract [OF rule]
  have "emits (\<lambda>_. False) (Correlator_Evaluate (builtin_rules e cfg) candidate peers)"
    by (rule Correlator_Evaluate_emits) (rule builtin_rule_contract)
  from this assms have "trace s' = trace s" by (rule emitsD) (metis append_Nil2 last_in_set)
  with correlation_rule.group_among [OF contract run, of "ruleName rule"]
    correlation_rule.group_members [OF contract run g]
  show ?thesis unfolding g by blast
qed


theorem correlator_group_sound_witness:
  "\<exists>g s'. run_state (Correlator_Evaluate (builtin_rules cluster_env default_Config)
        (sample_rjob ''a'' 5 (sample_finding ''Pod'' ''api-1'' ''api'') PhasePending)
        [sample_rjob ''b'' 7 (sample_finding ''Deployment'' ''api'' ''api'') PhasePending])
      (start empty_cluster) = (Inr (Some g), s')
    \<and> cgPrimaryUID g = ''uid-b'' \<and> cgPrimaryUID g \<notin> set (cgCorrelatedUIDs g)"
proof -
  let ?a = "sample_rjob ''a'' 5 (sample_finding ''Pod'' ''api-1'' ''api'') PhasePending"
  let ?b = "sample_rjob ''b'' 7 (sample_finding ''Deployment'' ''api'' ''api'') PhasePending"
  obtain g s' where run: "run_state (Correlator_Evaluate (builtin_rules cluster_env default_Config) ?a [?b])
      (start empty_cluster) = (Inr (Some g), s')" and p: "cgPrimaryUID g = ''uid-b''"
    by (simp add: builtin_rules_def PVCPodRule_Evaluate_def evaluatePodCandidate_def
        SameNamespaceParentRule_Evaluate_def rule_simps cluster_simps sample_rjob_def sample_spec_def
        sample_finding_def same_parent_def isParentPrefix_def selectPrimary_def primary_step_def
        kindRank_def KindHierarchyRank_def make_group_def)
  from correlator_group_sound [OF run] run p show ?thesis by blast
qed

text \<open>
  C29. Two jobs that the parent rule puts into the same group agree on its primary, whichever of
  them is being reconciled: the job of the highest kind, the oldest of those, the smallest name
  of those. So no two jobs of a group both take themselves for its primary. (Names and UIDs are
  unique among the jobs of a namespace.)
\<close>

theorem parent_rule_agreement:
  assumes "run_state (SameNamespaceParentRule_Evaluate e a (remove1 a jobs)) s = (Inr ra, s')"
    and "run_state (SameNamespaceParentRule_Evaluate e b (remove1 b jobs)) t = (Inr rb, t')"
    and "crMatched ra" and "crMatched rb" and "set (crMatchedUIDs ra) = set (crMatchedUIDs rb)"
    and "a \<in> set jobs" and "b \<in> set jobs"
    and "inj_on rjName (set jobs)" and "inj_on rjUID (set jobs)"
  shows "crPrimaryUID ra = crPrimaryUID rb"
proof -
  let ?A = "filter (same_parent a) (remove1 a jobs)" and ?B = "filter (same_parent b) (remove1 b jobs)"
  have A: "crMatchedUIDs ra = map rjUID (a # ?A)" "crPrimaryUID ra = rjUID (selectPrimary a ?A)"
    using assms(1,3) by (auto simp: SameNamespaceParentRule_Evaluate_def rule_simps split: if_splits prod.splits)
  have B: "crMatchedUIDs rb = map rjUID (b # ?B)" "crPrimaryUID rb = rjUID (selectPrimary b ?B)"
    using assms(2,4) by (auto simp: SameNamespaceParentRule_Evaluate_def rule_simps split: if_splits prod.splits)
  have sub: "set (a # ?A) \<subseteq> set jobs" "set (b # ?B) \<subseteq> set jobs"
    using assms(6,7) by (auto dest: subsetD [OF set_remove1_subset])
  have "rjUID ` set (a # ?A) = rjUID ` set (b # ?B)" using assms(5) A(1) B(1) by (metis set_map)
  then have eq: "set (a # ?A) = set (b # ?B)" by (rule iffD1 [OF inj_on_image_eq_iff [OF assms(9) sub]])
  let ?p = "selectPrimary a ?A" and ?q = "selectPrimary b ?B"
  have mem: "?p \<in> set (a # ?A)" "?q \<in> set (b # ?B)"
    and le: "precedence ?p \<le> precedence ?q" "precedence ?q \<le> precedence ?p"
    using selectPrimary_least [of a ?A] selectPrimary_least [of b ?B] eq by blast+
  have "rjName ?p = rjName ?q" using antisym [OF le] by (simp only: precedence_def prod.inject)
  moreover have "?p \<in> set jobs" "?q \<in> set jobs" using mem sub by (blast dest: subsetD)+
  ultimately have "?p = ?q" using assms(8) by (simp add: inj_on_def)
  then show ?thesis by (simp add: A B)
qed

theorem parent_rule_agreement_witness:
  "\<exists>ra rb s' t'.
     run_state (SameNamespaceParentRule_Evaluate cluster_env
        (sample_rjob ''a'' 5 (sample_finding ''Pod'' ''api-1'' ''api'') PhasePending)
        [sample_rjob ''b'' 7 (sample_finding ''Deployment'' ''api'' ''api'') PhasePending])
       (start empty_cluster) = (Inr ra, s')
   \<and> run_state (SameNamespaceParentRule_Evaluate cluster_env
        (sample_rjob ''b'' 7 (sample_finding ''Deployment'' ''api'' ''api'') PhasePending)
        [sample_rjob ''a'' 5 (sample_finding ''Pod'' ''api-1'' ''api'') PhasePending])
       (start empty_cluster) = (Inr rb, t')
   \<and> crMatched ra \<and> crPrimaryUID ra = crPrimaryUID rb"
proof -
  let ?a = "sample_rjob ''a'' 5 (sample_finding ''Pod'' ''api-1'' ''api'') PhasePending"
  let ?b = "sample_rjob ''b'' 7 (sample_finding ''Deployment'' ''api'' ''api'') PhasePending"
  let ?run = "\<lambda>x y. run_state (SameNamespaceParentRule_Evaluate cluster_env x [y]) (start empty_cluster)"
  have ne: "?a \<noteq> ?b" by (simp add: sample_rjob_def)
  obtain ra s' where ra: "?run ?a ?b = (Inr ra, s')" "crMatched ra" "crMatchedUIDs ra = [''uid-a'', ''uid-b'']"
    by (simp add: SameNamespaceParentRule_Evaluate_def rule_simps cluster_simps sample_rjob_def sample_spec_def
        sample_finding_def same_parent_def isParentPrefix_def)
  obtain rb t' where rb: "?run ?b ?a = (Inr rb, t')" "crMatched rb" "crMatchedUIDs rb = [''uid-b'', ''uid-a'']"
    by (simp add: SameNamespaceParentRule_Evaluate_def rule_simps cluster_simps sample_rjob_def sample_spec_def
        sample_finding_def same_parent_def isParentPrefix_def)
  have rem: "remove1 ?a [?a, ?b] = [?b]" "remove1 ?b [?a, ?b] = [?a]" using ne by auto
  have "inj_on rjName (set [?a, ?b])" "inj_on rjUID (set [?a, ?b])"
    by (simp_all add: sample_rjob_def)
  from parent_rule_agreement [of _ ?a "[?a, ?b]" _ _ _ ?b, unfolded rem, OF ra(1) rb(1) ra(2) rb(2) _ _ _ this]
  have "crPrimaryUID ra = crPrimaryUID rb" using ra(3) rb(3) by auto
  with ra rb show ?thesis by blast
qed

text \<open>
  When a claim and the pods that mount it are correlated, the primary is always the job of a
  claim: the root cause is investigated.
\<close>

theorem pvc_is_primary:
  assumes "run_state (PVCPodRule_Evaluate e candidate peers) s = (Inr result, s')"
    and "crMatched result"
  shows "\<exists>j \<in> set (candidate # peers). rjUID j = crPrimaryUID result
    \<and> fsKind (rjFinding j) = ''PersistentVolumeClaim''"
proof (cases "fsKind (rjFinding candidate) = ''Pod''")
  case True
  then have "run_state (evaluatePodCandidate e candidate peers) s = (Inr result, s')"
    using assms(1) by (simp add: PVCPodRule_Evaluate_def)
  from this assms(2) show ?thesis
  proof (rule pod_candidate_group)
    fix pvcs
    assume "pvcs \<noteq> []" "set pvcs \<subseteq> {p \<in> set peers. fsKind (rjFinding p) = ''PersistentVolumeClaim''}"
      "crPrimaryUID result = rjUID (hd (sort_key by_age pvcs))"
    with hd_sort_key_least [of pvcs by_age] show ?thesis by auto
  qed
next
  case False
  with assms have "fsKind (rjFinding candidate) = ''PersistentVolumeClaim''"
    and "run_state (evaluatePVCCandidate e candidate peers) s = (Inr result, s')"
    by (auto simp: PVCPodRule_Evaluate_def no_match_def Let_def split: if_splits)
  from this(2) assms(2) this(1) show ?thesis by (elim pvc_candidate_group) auto
qed

definition volume_cluster :: cluster where
  "volume_cluster = empty_cluster\<lparr>clPods := [((''prod'', ''db-0''), \<lparr>podClaims = [None, Some ''data'']\<rparr>)]\<rparr>"

theorem pvc_is_primary_witness:
  "\<exists>result s'. run_state (PVCPodRule_Evaluate cluster_env
        (sample_rjob ''a'' 5 (sample_finding ''Pod'' ''db-0'' ''db'') PhasePending)
        [sample_rjob ''b'' 7 (sample_finding ''PersistentVolumeClaim'' ''data'' ''data'') PhasePending])
      (start volume_cluster) = (Inr result, s') \<and> crMatched result
    \<and> crPrimaryUID result = ''uid-b''"
proof -
  let ?a = "sample_rjob ''a'' 5 (sample_finding ''Pod'' ''db-0'' ''db'') PhasePending"
  let ?b = "sample_rjob ''b'' 7 (sample_finding ''PersistentVolumeClaim'' ''data'' ''data'') PhasePending"
  obtain r s' where run: "run_state (PVCPodRule_Evaluate cluster_env ?a [?b]) (start volume_cluster) = (Inr r, s')"
    and m: "crMatched r"
    by (simp add: PVCPodRule_Evaluate_def evaluatePodCandidate_def rule_simps cluster_simps volume_cluster_def
        sample_rjob_def sample_spec_def sample_finding_def podClaimNames_def)
  from pvc_is_primary [OF run m] have "crPrimaryUID r = rjUID ?b"
    by (auto simp: sample_rjob_def sample_spec_def sample_finding_def)
  with run m show ?thesis by (auto simp: sample_rjob_def)
qed

text \<open>
  The node rule answers with the pods of the first qualifying node even when the candidate is
  not one of them: three crashing pods on one node give a match, with a foreign primary, to the
  finding of an unrelated deployment.
\<close>

theorem node_rule_matches_outsiders:
  "\<exists>result s'. run_state (MultiPodSameNodeRule_Evaluate 3 cluster_env
        (sample_rjob ''d'' 5 (sample_finding ''Deployment'' ''web'' ''web'') PhasePending)
        (map (\<lambda>n. (sample_rjob n 7 (sample_finding ''Pod'' n n) PhasePending)
            \<lparr>rjAnnotations := [NodeNameAnnotation \<mapsto> ''node-1'']\<rparr>) [''p'', ''q'', ''r'']))
      (start empty_cluster) = (Inr result, s')
    \<and> crMatched result \<and> ''uid-d'' \<notin> set (crMatchedUIDs result) \<and> crPrimaryUID result = ''uid-p''"
  by (simp add: MultiPodSameNodeRule_Evaluate_def rule_simps cluster_simps sample_rjob_def sample_spec_def
      sample_finding_def qualifying_nodes_def node_count_def pod_node_def map_get_def oldest_step_def)

end
