(* ===== verification/Json.thy ===== *)
theory Json
  imports Prelude
begin

text \<open>
  Go's \<open>encoding/json\<close> as far as the watcher uses it: decoding an array of objects with a
  \<open>text\<close> field, and encoding strings and string arrays with and without HTML escaping. Strings
  are byte strings; both directions replace bytes that are not valid UTF-8 by U+FFFD.
\<close>

section \<open>UTF-8\<close>

definition in_range :: "int \<Rightarrow> int \<Rightarrow> char \<Rightarrow> bool" where
  "in_range lo hi c \<longleftrightarrow> lo \<le> byte_val c \<and> byte_val c \<le> hi"

text \<open>
  The length of the multi-byte rune a string starts with, \<open>None\<close> if the bytes are not a valid
  encoding (\<open>utf8.DecodeRune\<close> then consumes one byte as U+FFFD). Overlong forms, surrogates and
  values above U+10FFFF are invalid.
\<close>

definition rune_len :: "string \<Rightarrow> nat option" where
  "rune_len s =
     (case s of
        c0 # c1 # rest \<Rightarrow>
          if in_range 194 223 c0 then (if in_range 128 191 c1 then Some 2 else None)
          else
            (case rest of
               c2 # rest' \<Rightarrow>
                 if in_range 224 239 c0
                 then (if in_range (if byte_val c0 = 224 then 160 else 128)
                              (if byte_val c0 = 237 then 159 else 191) c1 \<and> in_range 128 191 c2
                       then Some 3 else None)
                 else
                   (case rest' of
                      c3 # _ \<Rightarrow>
                        if in_range 240 244 c0
                           \<and> in_range (if byte_val c0 = 240 then 144 else 128)
                                (if byte_val c0 = 244 then 143 else 191) c1
                           \<and> in_range 128 191 c2 \<and> in_range 128 191 c3
                        then Some 4 else None
                    | [] \<Rightarrow> None)
             | [] \<Rightarrow> None)
      | _ \<Rightarrow> None)"

definition replacement :: string where
  "replacement = [byte_of 239, byte_of 191, byte_of 189]"

lemma rune_len_bounds: "rune_len s = Some n \<Longrightarrow> 2 \<le> n \<and> n \<le> length s"
  by (auto simp: rune_len_def split: list.splits if_splits)

function utf8_sanitize :: "string \<Rightarrow> string" where
  "utf8_sanitize s =
     (case s of [] \<Rightarrow> []
      | c # cs \<Rightarrow>
          if byte_val c < 128 then c # utf8_sanitize cs
          else (case rune_len s of
                  Some n \<Rightarrow> take n s @ utf8_sanitize (drop n s)
                | None \<Rightarrow> replacement @ utf8_sanitize cs))"
  by pat_completeness auto
termination
  by (relation "measure length") (auto dest: rune_len_bounds)

declare utf8_sanitize.simps [simp del]

text \<open>\<open>utf8.AppendRune\<close>, for code points outside the surrogate range.\<close>

definition encode_rune :: "int \<Rightarrow> string" where
  "encode_rune r =
     (if r < 128 then [byte_of r]
      else if r < 2048 then [byte_of (192 + r div 64), byte_of (128 + r mod 64)]
      else if r < 65536
      then [byte_of (224 + r div 4096), byte_of (128 + r div 64 mod 64), byte_of (128 + r mod 64)]
      else [byte_of (240 + r div 262144), byte_of (128 + r div 4096 mod 64),
            byte_of (128 + r div 64 mod 64), byte_of (128 + r mod 64)])"

section \<open>Encoding\<close>

definition hex_digit :: "int \<Rightarrow> char" where
  "hex_digit d = (if d < 10 then byte_of (48 + d) else byte_of (87 + d))"

text \<open>The escape of one ASCII byte; the characters \<open><\<close>, \<open>>\<close> and \<open>&\<close> are escaped under \<open>html\<close>.\<close>

definition escape_ascii :: "bool \<Rightarrow> char \<Rightarrow> string" where
  "escape_ascii html c =
     (let b = byte_val c in
      if b = 34 \<or> b = 92 then [byte_of 92, c]
      else if b = 8 then [byte_of 92, CHR ''b'']
      else if b = 12 then [byte_of 92, CHR ''f'']
      else if b = 10 then [byte_of 92, CHR ''n'']
      else if b = 13 then [byte_of 92, CHR ''r'']
      else if b = 9 then [byte_of 92, CHR ''t'']
      else if b < 32 \<or> html \<and> (b = 60 \<or> b = 62 \<or> b = 38)
      then [byte_of 92, CHR ''u'', CHR ''0'', CHR ''0'', hex_digit (b div 16), hex_digit (b mod 16)]
      else [c])"

text \<open>The multi-byte runes that are escaped all the same: U+2028 and U+2029 (E2 80 A8, E2 80 A9).\<close>

definition escape_rune :: "string \<Rightarrow> string" where
  "escape_rune r =
     (if r = [byte_of 226, byte_of 128, byte_of 168] then byte_of 92 # ''u2028''
      else if r = [byte_of 226, byte_of 128, byte_of 169] then byte_of 92 # ''u2029''
      else r)"

function escape_body :: "bool \<Rightarrow> string \<Rightarrow> string" where
  "escape_body html s =
     (case s of [] \<Rightarrow> []
      | c # cs \<Rightarrow>
          if byte_val c < 128 then escape_ascii html c @ escape_body html cs
          else (case rune_len s of
                  Some n \<Rightarrow> escape_rune (take n s) @ escape_body html (drop n s)
                | None \<Rightarrow> (byte_of 92 # ''ufffd'') @ escape_body html cs))"
  by pat_completeness auto
termination
  by (relation "measure (\<lambda>(html, s). length s)") (auto dest: rune_len_bounds)

declare escape_body.simps [simp del]

definition json_string :: "bool \<Rightarrow> string \<Rightarrow> string" where
  "json_string html s = byte_of 34 # escape_body html s @ [byte_of 34]"

definition json_array :: "string list \<Rightarrow> string" where
  "json_array items = CHR ''['' # strings_Join items '','' @ [CHR '']'']"

text \<open>\<open>json.Marshal([]errorEntry{...})\<close>, as every native provider serialises its error texts.\<close>

definition entry :: "string \<Rightarrow> string" where
  "entry t = CHR ''{'' # json_string True ''text'' @ CHR '':'' # json_string True t @ [CHR ''}'']"

definition marshal_errors :: "string list \<Rightarrow> string" where
  "marshal_errors texts = json_array (map entry texts)"

section \<open>Decoding\<close>

datatype json =
    JNull
  | JBool bool
  | JNum string
  | JStr string
  | JArr "json list"
  | JObj "(string \<times> json) list"

definition hex_val :: "char \<Rightarrow> int option" where
  "hex_val c =
     (let b = byte_val c in
      if 48 \<le> b \<and> b \<le> 57 then Some (b - 48)
      else if 97 \<le> b \<and> b \<le> 102 then Some (b - 87)
      else if 65 \<le> b \<and> b \<le> 70 then Some (b - 55)
      else None)"

definition hex4 :: "string \<Rightarrow> int option" where
  "hex4 s =
     (case s of a # b # c # d # _ \<Rightarrow>
        (case (hex_val a, hex_val b, hex_val c, hex_val d) of
           (Some w, Some x, Some y, Some z) \<Rightarrow> Some (4096 * w + 256 * x + 16 * y + z)
         | _ \<Rightarrow> None)
      | _ \<Rightarrow> None)"

definition is_surrogate :: "int \<Rightarrow> bool" where
  "is_surrogate r \<longleftrightarrow> 55296 \<le> r \<and> r < 57344"

text \<open>
  What follows a surrogate \<open>r\<close>: a second escape that completes the pair gives one rune and takes
  six more bytes; otherwise the surrogate becomes U+FFFD.
\<close>

definition surrogate_pair :: "int \<Rightarrow> string \<Rightarrow> string \<times> nat" where
  "surrogate_pair r rest =
     (case rest of b # u # hs \<Rightarrow>
        (case hex4 hs of
           Some r1 \<Rightarrow>
             if byte_val b = 92 \<and> u = CHR ''u'' \<and> r < 56320 \<and> 56320 \<le> r1 \<and> r1 < 57344
             then (encode_rune ((r - 55296) * 1024 + (r1 - 56320) + 65536), 6)
             else (replacement, 0)
         | None \<Rightarrow> (replacement, 0))
      | _ \<Rightarrow> (replacement, 0))"

text \<open>The character behind a one-letter escape.\<close>

definition simple_escape :: "char \<Rightarrow> char option" where
  "simple_escape e =
     (let b = byte_val e in
      if b = 34 \<or> b = 92 \<or> b = 47 then Some e
      else if e = CHR ''b'' then Some (byte_of 8)
      else if e = CHR ''f'' then Some (byte_of 12)
      else if e = CHR ''n'' then Some (byte_of 10)
      else if e = CHR ''r'' then Some (byte_of 13)
      else if e = CHR ''t'' then Some (byte_of 9)
      else None)"

definition prepend :: "string \<Rightarrow> (string \<times> string) option \<Rightarrow> (string \<times> string) option" where
  "prepend p r = map_option (\<lambda>(v, rest). (p @ v, rest)) r"

text \<open>The rest of a string literal after its opening quote: the value and what follows it.\<close>

function parse_string :: "string \<Rightarrow> (string \<times> string) option" where
  "parse_string s =
     (case s of [] \<Rightarrow> None
      | c # cs \<Rightarrow>
          if byte_val c = 34 then Some ([], cs)
          else if byte_val c = 92 then
            (case cs of [] \<Rightarrow> None
             | e # cs' \<Rightarrow>
                 if e = CHR ''u'' then
                   (case hex4 cs' of None \<Rightarrow> None
                    | Some r \<Rightarrow>
                        if is_surrogate r
                        then (case surrogate_pair r (drop 4 cs') of
                                (v, n) \<Rightarrow> prepend v (parse_string (drop (4 + n) cs')))
                        else prepend (encode_rune r) (parse_string (drop 4 cs')))
                 else (case simple_escape e of None \<Rightarrow> None
                       | Some v \<Rightarrow> prepend [v] (parse_string cs')))
          else if byte_val c < 32 then None
          else if byte_val c < 128 then prepend [c] (parse_string cs)
          else (case rune_len s of
                  Some n \<Rightarrow> prepend (take n s) (parse_string (drop n s))
                | None \<Rightarrow> prepend replacement (parse_string cs)))"
  by pat_completeness auto
termination
  by (relation "measure length") (auto dest: rune_len_bounds)

declare parse_string.simps [simp del]

definition is_json_space :: "char \<Rightarrow> bool" where
  "is_json_space c \<longleftrightarrow> byte_val c \<in> {9, 10, 13, 32}"

definition skip_ws :: "string \<Rightarrow> string" where
  "skip_ws s = dropWhile is_json_space s"

definition is_digit :: "char \<Rightarrow> bool" where
  "is_digit c \<longleftrightarrow> in_range 48 57 c"

text \<open>A number literal: its text and what follows.\<close>

definition parse_frac :: "string \<Rightarrow> (string \<times> string) option" where
  "parse_frac s =
     (case s of c # cs \<Rightarrow>
        if c = CHR ''.'' then
          (let ds = takeWhile is_digit cs in
           if ds = [] then None else Some (c # ds, dropWhile is_digit cs))
        else Some ([], s)
      | [] \<Rightarrow> Some ([], []))"

definition parse_exp :: "string \<Rightarrow> (string \<times> string) option" where
  "parse_exp s =
     (case s of c # cs \<Rightarrow>
        if c = CHR ''e'' \<or> c = CHR ''E'' then
          (let (sg, cs') = (case cs of d # ds \<Rightarrow>
                 if d = CHR ''+'' \<or> d = CHR ''-'' then ([d], ds) else ([], cs) | [] \<Rightarrow> ([], []));
               ds = takeWhile is_digit cs' in
           if ds = [] then None else Some (c # sg @ ds, dropWhile is_digit cs'))
        else Some ([], s)
      | [] \<Rightarrow> Some ([], []))"

definition parse_sign :: "string \<Rightarrow> string \<times> string" where
  "parse_sign s = (case s of c # cs \<Rightarrow> if c = CHR ''-'' then ([c], cs) else ([], s) | [] \<Rightarrow> ([], []))"

definition parse_int_part :: "string \<Rightarrow> string \<times> string" where
  "parse_int_part s =
     (case s of c # cs \<Rightarrow>
        if c = CHR ''0'' then ([c], cs) else (takeWhile is_digit s, dropWhile is_digit s)
      | [] \<Rightarrow> ([], []))"

definition parse_number :: "string \<Rightarrow> (string \<times> string) option" where
  "parse_number s =
     (let (sg, s1) = parse_sign s; (ip, s2) = parse_int_part s1 in
      if ip = [] then None
      else case parse_frac s2 of None \<Rightarrow> None
        | Some (fp, s3) \<Rightarrow>
            (case parse_exp s3 of None \<Rightarrow> None
             | Some (ep, s4) \<Rightarrow> Some (sg @ ip @ fp @ ep, s4)))"

text \<open>
  Values, the elements of an array after its first value, the members of an object. \<open>d\<close> is how
  many more levels may be opened (Go allows 10000). The argument \<open>fuel\<close> bounds the number of
  nested and successive calls; every call consumes a byte, so the length of the input is enough.
\<close>

fun parse_value :: "nat \<Rightarrow> int \<Rightarrow> string \<Rightarrow> (json \<times> string) option"
  and parse_elems :: "nat \<Rightarrow> int \<Rightarrow> string \<Rightarrow> (json list \<times> string) option"
  and parse_members :: "nat \<Rightarrow> int \<Rightarrow> string \<Rightarrow> ((string \<times> json) list \<times> string) option"
where
  "parse_value 0 d s = None"
| "parse_value (Suc fuel) d s =
     (case skip_ws s of [] \<Rightarrow> None
      | c # cs \<Rightarrow>
          if c = CHR ''['' then
            (if d \<le> 0 then None
             else case skip_ws cs of
                 c1 # cs1 \<Rightarrow>
                   if c1 = CHR '']'' then Some (JArr [], cs1)
                   else map_option (\<lambda>(vs, r). (JArr vs, r)) (parse_elems fuel (d - 1) cs)
               | [] \<Rightarrow> None)
          else if c = CHR ''{'' then
            (if d \<le> 0 then None
             else case skip_ws cs of
                 c1 # cs1 \<Rightarrow>
                   if c1 = CHR ''}'' then Some (JObj [], cs1)
                   else map_option (\<lambda>(ms, r). (JObj ms, r)) (parse_members fuel (d - 1) cs)
               | [] \<Rightarrow> None)
          else if byte_val c = 34 then map_option (\<lambda>(v, r). (JStr v, r)) (parse_string cs)
          else if prefix ''true'' (c # cs) then Some (JBool True, drop 3 cs)
          else if prefix ''false'' (c # cs) then Some (JBool False, drop 4 cs)
          else if prefix ''null'' (c # cs) then Some (JNull, drop 3 cs)
          else map_option (\<lambda>(v, r). (JNum v, r)) (parse_number (c # cs)))"
| "parse_elems 0 d s = None"
| "parse_elems (Suc fuel) d s =
     (case parse_value fuel d s of None \<Rightarrow> None
      | Some (v, r) \<Rightarrow>
          (case skip_ws r of [] \<Rightarrow> None
           | c # cs \<Rightarrow>
               if c = CHR '']'' then Some ([v], cs)
               else if c = CHR '','' then map_option (\<lambda>(vs, r'). (v # vs, r')) (parse_elems fuel d cs)
               else None))"
| "parse_members 0 d s = None"
| "parse_members (Suc fuel) d s =
     (case skip_ws s of [] \<Rightarrow> None
      | q # ks \<Rightarrow>
          if byte_val q \<noteq> 34 then None
          else case parse_string ks of None \<Rightarrow> None
            | Some (k, r) \<Rightarrow>
                (case skip_ws r of [] \<Rightarrow> None
                 | co # vs \<Rightarrow>
                     if co \<noteq> CHR '':'' then None
                     else case parse_value fuel d vs of None \<Rightarrow> None
                       | Some (v, r1) \<Rightarrow>
                           (case skip_ws r1 of [] \<Rightarrow> None
                            | c # cs \<Rightarrow>
                                if c = CHR ''}'' then Some ([(k, v)], cs)
                                else if c = CHR '',''
                                then map_option (\<lambda>(ms, r'). ((k, v) # ms, r')) (parse_members fuel d cs)
                                else None)))"

definition parse_json :: "string \<Rightarrow> json option" where
  "parse_json s =
     (case parse_value (Suc (2 * length s)) 10000 s of
        Some (v, r) \<Rightarrow> if skip_ws r = [] then Some v else None
      | None \<Rightarrow> None)"

text \<open>
  \<open>json.Unmarshal\<close> into \<open>[]struct{ Text string `json:"text"` }\<close>. Keys match without regard to
  ASCII case, a later field overrides an earlier one, \<open>null\<close> leaves a value as it is, and a value
  of another type is an error that is reported after the whole input was read.
\<close>

definition lower_ascii :: "char \<Rightarrow> char" where
  "lower_ascii c = (if in_range 65 90 c then byte_of (byte_val c + 32) else c)"

fun decode_text :: "string \<Rightarrow> (string \<times> json) list \<Rightarrow> string option" where
  "decode_text acc [] = Some acc"
| "decode_text acc ((k, v) # ms) =
     (if map lower_ascii k = ''text'' then
        (case v of JStr t \<Rightarrow> decode_text t ms | JNull \<Rightarrow> decode_text acc ms | _ \<Rightarrow> None)
      else decode_text acc ms)"

fun decode_entry :: "json \<Rightarrow> string option" where
  "decode_entry JNull = Some []"
| "decode_entry (JObj ms) = decode_text [] ms"
| "decode_entry _ = None"

fun decode_entries :: "json list \<Rightarrow> string list option" where
  "decode_entries [] = Some []"
| "decode_entries (v # vs) =
     (case (decode_entry v, decode_entries vs) of
        (Some t, Some ts) \<Rightarrow> Some (t # ts) | _ \<Rightarrow> None)"

definition unmarshal_texts :: "string \<Rightarrow> string list option" where
  "unmarshal_texts s =
     (case parse_json s of
        Some JNull \<Rightarrow> Some []
      | Some (JArr vs) \<Rightarrow> decode_entries vs
      | _ \<Rightarrow> None)"

section \<open>Lemmas\<close>

lemma prepend_simps [simp]:
  "prepend p None = None"
  "prepend p (Some (v, r)) = Some (p @ v, r)"
  by (simp_all add: prepend_def)

lemma skip_ws_id [simp]: "\<not> is_json_space c \<Longrightarrow> skip_ws (c # cs) = c # cs"
  by (simp add: skip_ws_def)

lemma hex_val_digit: "0 \<le> d \<Longrightarrow> d < 16 \<Longrightarrow> hex_val (hex_digit d) = Some d"
  by (auto simp: hex_val_def hex_digit_def Let_def)

lemma hex4_Cons:
  "hex_val a = Some w \<Longrightarrow> hex_val b = Some x \<Longrightarrow> hex_val c = Some y \<Longrightarrow> hex_val d = Some z \<Longrightarrow>
     hex4 (a # b # c # d # r) = Some (4096 * w + 256 * x + 16 * y + z)"
  by (simp add: hex4_def)

lemma parse_string_u:
  assumes "hex4 (a # b # c # d # r) = Some v" and "\<not> is_surrogate v" and "byte_val q = 92"
  shows "parse_string (q # CHR ''u'' # a # b # c # d # r) = prepend (encode_rune v) (parse_string r)"
  using assms by (subst parse_string.simps) simp

lemma parse_string_simple:
  assumes "simple_escape e = Some v" and "byte_val q = 92" and "e \<noteq> CHR ''u''"
  shows "parse_string (q # e # r) = prepend [v] (parse_string r)"
  using assms by (subst parse_string.simps) simp

lemma parse_string_plain:
  assumes "32 \<le> byte_val c" and "byte_val c < 128" and "byte_val c \<noteq> 34" and "byte_val c \<noteq> 92"
  shows "parse_string (c # r) = prepend [c] (parse_string r)"
  using assms by (subst parse_string.simps) simp

lemma hex_consts:
  "hex_val CHR ''0'' = Some 0" "hex_val CHR ''2'' = Some 2" "hex_val CHR ''8'' = Some 8" 
  "hex_val CHR ''9'' = Some 9" "hex_val CHR ''f'' = Some 15" "hex_val CHR ''d'' = Some 13"
  by (simp_all add: hex_val_def byte_val_def)

lemma simple_escapes:
  "simple_escape CHR ''b'' = Some (byte_of 8)" "simple_escape CHR ''f'' = Some (byte_of 12)"
  "simple_escape CHR ''n'' = Some (byte_of 10)" "simple_escape CHR ''r'' = Some (byte_of 13)"
  "simple_escape CHR ''t'' = Some (byte_of 9)"
  by (simp_all add: simple_escape_def byte_val_def)

lemma parse_escape_ascii:
  assumes "byte_val c < 128"
  shows "parse_string (escape_ascii html c @ t) = prepend [c] (parse_string t)"
proof -
  let ?b = "byte_val c"
  have c: "c = byte_of ?b" by simp
  consider (quote) "?b = 34 \<or> ?b = 92" | (letter) "?b \<in> {8, 12, 10, 13, 9}"
    | (u) "?b \<notin> {8, 12, 10, 13, 9, 34, 92}" "?b < 32 \<or> html \<and> (?b = 60 \<or> ?b = 62 \<or> ?b = 38)"
    | (plain) "32 \<le> ?b" "?b \<noteq> 34" "?b \<noteq> 92" "\<not> (html \<and> (?b = 60 \<or> ?b = 62 \<or> ?b = 38))"
    by fastforce
  then show ?thesis
  proof cases
    case quote
    then have "simple_escape c = Some c" and "c \<noteq> CHR ''u''"
      by (auto simp: simple_escape_def byte_val_def)
    moreover from quote have "escape_ascii html c = [byte_of 92, c]" by (simp add: escape_ascii_def)
    ultimately show ?thesis by (simp add: parse_string_simple)
  next
    case letter
    then have "c = byte_of 8 \<or> c = byte_of 12 \<or> c = byte_of 10 \<or> c = byte_of 13 \<or> c = byte_of 9"
      by (simp add: byte_eq_iff)
    then show ?thesis
      by (elim disjE; simp only:) (simp_all add: escape_ascii_def parse_string_simple simple_escapes)
  next
    case u
    have h: "hex4 (CHR ''0'' # CHR ''0'' # hex_digit (?b div 16) # hex_digit (?b mod 16) # t)
               = Some (16 * (?b div 16) + ?b mod 16)"
      using assms by (subst hex4_Cons [OF hex_consts(1) hex_consts(1) hex_val_digit hex_val_digit]) (auto simp: pos_imp_zdiv_nonneg_iff)
    then have h: "hex4 (CHR ''0'' # CHR ''0'' # hex_digit (?b div 16) # hex_digit (?b mod 16) # t) = Some ?b"
      by simp
    from u have "escape_ascii html c
        = [byte_of 92, CHR ''u'', CHR ''0'', CHR ''0'', hex_digit (?b div 16), hex_digit (?b mod 16)]"
      by (simp add: escape_ascii_def Let_def)
    moreover have "encode_rune ?b = [c]" using assms by (simp add: encode_rune_def)
    ultimately show ?thesis
      using assms by (simp add: parse_string_u [OF h] is_surrogate_def)
  next
    case plain
    then have "escape_ascii html c = [c]" by (simp add: escape_ascii_def Let_def)
    with plain assms show ?thesis by (simp add: parse_string_plain)
  qed
qed

lemma rune_len_take:
  assumes "rune_len s = Some n"
  shows "rune_len (take n s @ t) = Some n"
proof -
  consider (two) a b where "s = [a, b]" | (three) a b c where "s = [a, b, c]"
    | (four) a b c d es where "s = a # b # c # d # es"
    using assms rune_len_bounds [OF assms]
    by (cases s; cases "tl s"; cases "tl (tl s)"; cases "tl (tl (tl s))") auto
  then show ?thesis
    by cases (use assms in \<open>simp_all add: rune_len_def split: if_splits\<close>)
qed

lemma parse_escape_rune:
  assumes "rune_len s = Some n" and "s = c # cs" and "\<not> byte_val c < 128"
  shows "parse_string (escape_rune (take n s) @ t) = prepend (take n s) (parse_string t)"
proof -
  consider (ls) "take n s = [byte_of 226, byte_of 128, byte_of 168]"
    | (ps) "take n s = [byte_of 226, byte_of 128, byte_of 169]"
    | (other) "escape_rune (take n s) = take n s"
    by (metis escape_rune_def)
  then show ?thesis
  proof cases
    case ls
    have h: "hex4 (CHR ''2'' # CHR ''0'' # CHR ''2'' # CHR ''8'' # t) = Some 8232"
      by (subst hex4_Cons [OF hex_consts(2) hex_consts(1) hex_consts(2) hex_consts(3)]) simp
    show ?thesis
      by (simp add: ls escape_rune_def parse_string_u [OF h] is_surrogate_def encode_rune_def)
  next
    case ps
    have h: "hex4 (CHR ''2'' # CHR ''0'' # CHR ''2'' # CHR ''9'' # t) = Some 8233"
      by (subst hex4_Cons [OF hex_consts(2) hex_consts(1) hex_consts(2) hex_consts(4)]) simp
    show ?thesis
      by (simp add: ps escape_rune_def byte_eq_iff parse_string_u [OF h] is_surrogate_def encode_rune_def)
  next
    case other
    from assms have n: "2 \<le> n" "n \<le> length s" by (auto dest: rune_len_bounds)
    then obtain cs' where tk: "take n s = c # cs'" using assms(2) by (cases n) auto
    from rune_len_take [OF assms(1), of t] have r: "rune_len (c # cs' @ t) = Some n" by (simp add: tk)
    from tk n have len: "length (c # cs') = n" by (metis length_take min.absorb2)
    then have "take n (c # cs' @ t) = c # cs'" "drop n (c # cs' @ t) = t" by auto
    with assms(3) r have "parse_string (c # cs' @ t) = prepend (c # cs') (parse_string t)"
      by (subst parse_string.simps) simp
    with other tk show ?thesis by simp
  qed
qed

lemma parse_string_escape:
  "parse_string (escape_body html s @ byte_of 34 # r) = Some (utf8_sanitize s, r)"
proof (induction html s rule: escape_body.induct)
  case (1 html s)
  have bad: "parse_string ((byte_of 92 # ''ufffd'') @ t) = prepend replacement (parse_string t)" for t
  proof -
    have h: "hex4 (CHR ''f'' # CHR ''f'' # CHR ''f'' # CHR ''d'' # t) = Some 65533"
      by (subst hex4_Cons [OF hex_consts(5) hex_consts(5) hex_consts(5) hex_consts(6)]) simp
    show ?thesis
      by (simp add: parse_string_u [OF h] is_surrogate_def encode_rune_def replacement_def)
  qed
  show ?case
  proof (cases s)
    case Nil
    then show ?thesis
      by (simp add: escape_body.simps [of html "[]"] utf8_sanitize.simps [of "[]"] parse_string.simps [of "byte_of 34 # r"])
  next
    case (Cons c cs)
    show ?thesis
    proof (cases "byte_val c < 128")
      case True
      with 1(1) [OF Cons True] Cons show ?thesis
        by (simp add: escape_body.simps [of html "c # cs"] utf8_sanitize.simps [of "c # cs"] parse_escape_ascii)
    next
      case False
      show ?thesis
      proof (cases "rune_len s")
        case None
        with False 1(2) [OF Cons False None] Cons bad show ?thesis
          by (simp add: escape_body.simps [of html "c # cs"] utf8_sanitize.simps [of "c # cs"])
      next
        case (Some n)
        with False 1(3) [OF Cons False Some] parse_escape_rune [OF Some Cons False] Cons show ?thesis
          by (simp add: escape_body.simps [of html "c # cs"] utf8_sanitize.simps [of "c # cs"])
      qed
    qed
  qed
qed

lemma utf8_sanitize_ascii: "\<forall>c \<in> set s. byte_val c < 128 \<Longrightarrow> utf8_sanitize s = s"
  by (induction s) (simp_all add: utf8_sanitize.simps)

lemma json_punctuation:
  "\<not> is_json_space CHR ''{''" "\<not> is_json_space CHR ''}''" "\<not> is_json_space CHR '':''"
  "\<not> is_json_space CHR ''['' " "\<not> is_json_space CHR '']''" "\<not> is_json_space CHR '',''"
  "\<not> is_json_space (byte_of 34)" "byte_of 34 \<noteq> CHR ''}''" "byte_of 34 \<noteq> CHR ''{''"
  "byte_of 34 \<noteq> CHR ''[''" "byte_of 34 \<noteq> CHR '']''"
  unfolding is_json_space_def byte_eq_iff byte_val_of by (simp_all add: byte_val_def)

lemma parse_json_string:
  "parse_value (Suc f) d (json_string html t @ r) = Some (JStr (utf8_sanitize t), r)"
  by (simp add: json_string_def json_punctuation parse_string_escape)

lemma parse_entry:
  assumes "0 < d"
  shows "parse_value (Suc (Suc (Suc f))) d (entry t @ r) = Some (JObj [(''text'', JStr (utf8_sanitize t))], r)"
proof -
  have key: "utf8_sanitize ''text'' = ''text''"
    by (rule utf8_sanitize_ascii) (simp add: byte_val_def)
  then have k: "parse_string (escape_body True ''text'' @ byte_of 34 # x) = Some (''text'', x)" for x
    by (simp add: parse_string_escape)
  have e: "entry t @ r = CHR ''{'' # byte_of 34 # escape_body True ''text'' @ byte_of 34 # CHR '':'' #
      (json_string True t @ CHR ''}'' # r)"
    by (simp add: entry_def json_string_def)
  show ?thesis
    unfolding e using assms by (simp add: json_punctuation k json_string_def parse_string_escape key)
qed


lemma parse_entries:
  assumes "0 < d" and "length ts + 3 < f"
  shows "parse_elems f d (strings_Join (map entry (t # ts)) '','' @ CHR '']'' # r)
    = Some (map (\<lambda>t. JObj [(''text'', JStr (utf8_sanitize t))]) (t # ts), r)"
  using assms(2)
proof (induction ts arbitrary: t f)
  case Nil
  then obtain g where "f = Suc (Suc (Suc (Suc g)))" by (metis Suc_less_eq2 add_Suc_right less_imp_Suc_add numeral_3_eq_3)
  then show ?case
    using assms(1) by (simp add: strings_Join_def parse_entry json_punctuation del: parse_value.simps)
next
  case (Cons t' ts)
  then obtain g where f: "f = Suc (Suc (Suc (Suc g)))"
    by (metis Suc_less_eq2 add_Suc_right less_imp_Suc_add numeral_3_eq_3)
  have "strings_Join (map entry (t # t' # ts)) '','' @ CHR '']'' # r
      = entry t @ CHR '','' # (strings_Join (map entry (t' # ts)) '','' @ CHR '']'' # r)"
    by (simp add: strings_Join_def)
  moreover have "length ts + 3 < Suc (Suc (Suc g))" using Cons.prems f by simp
  ultimately show ?case
    using assms(1) Cons.IH [of "Suc (Suc (Suc g))" t']
    by (simp add: f parse_entry json_punctuation del: parse_value.simps)
qed

lemma entry_length: "3 \<le> length (entry t)"
  by (simp add: entry_def)

lemma Join_length: "\<forall>x \<in> set xs. k \<le> length x \<Longrightarrow> k * length xs \<le> length (strings_Join xs sep)"
proof (cases xs)
  case (Cons y ys)
  moreover have "\<forall>x \<in> set ys. k \<le> length x \<Longrightarrow> k * length ys \<le> length (concat (map (\<lambda>x. sep @ x) ys))"
    by (induction ys) (auto simp: algebra_simps)
  ultimately show "\<forall>x \<in> set xs. k \<le> length x \<Longrightarrow> ?thesis" by (simp add: strings_Join_def)
qed simp

lemma decode_entries_map:
  "decode_entries (map (\<lambda>t. JObj [(''text'', JStr (f t))]) ts) = Some (map f ts)"
proof -
  have "map lower_ascii ''text'' = ''text''" 
    by (simp add: lower_ascii_def in_range_def byte_val_def)
  then show ?thesis by (induction ts) simp_all
qed

text \<open>What the providers serialise is read back: the texts, with invalid UTF-8 replaced.\<close>

lemma unmarshal_marshal_errors: "unmarshal_texts (marshal_errors ts) = Some (map utf8_sanitize ts)"
proof (cases ts)
  case Nil
  then show ?thesis
    by (simp add: unmarshal_texts_def parse_json_def marshal_errors_def json_array_def strings_Join_def
        json_punctuation skip_ws_def [of "[]"] eval_nat_numeral)
next
  case (Cons t us)
  let ?body = "strings_Join (map entry (t # us)) '','' @ [CHR '']'']"
  have s: "marshal_errors ts = CHR ''['' # ?body"
    by (simp add: marshal_errors_def json_array_def Cons)
  have "3 * length (map entry (t # us)) \<le> length (strings_Join (map entry (t # us)) '','')"
    by (rule Join_length) (auto simp: entry_length)
  then have fuel: "length us + 3 < 2 * length (marshal_errors ts)" by (simp add: s)
  obtain x y where hd: "skip_ws ?body = x # y" "x \<noteq> CHR '']''"
    by (simp add: strings_Join_def entry_def json_punctuation)
  have "parse_json (marshal_errors ts)
      = Some (JArr (map (\<lambda>t. JObj [(''text'', JStr (utf8_sanitize t))]) (t # us)))"
    using parse_entries [OF _ fuel, of 9999 t "[]"] hd
    by (simp add: parse_json_def s json_punctuation skip_ws_def [of "[]"] del: list.map)
  then show ?thesis
    by (simp add: unmarshal_texts_def decode_entries_map Cons del: list.map)
qed

section \<open>The fuel is enough\<close>

lemma prepend_SomeE:
  assumes "prepend p x = Some (v, r)"
  obtains v' where "x = Some (v', r)"
  using assms by (auto simp: prepend_def)

lemma parse_string_shorter: "parse_string s = Some (v, r) \<Longrightarrow> length r < length s"
proof (induction s arbitrary: v r rule: length_induct)
  case (1 s)
  have step: "length r < length s" if "prepend p (parse_string u) = Some (v, r)" "length u < length s" for p u
    using that 1 by (meson less_trans prepend_SomeE)
  show ?case
    using 1(2)
    by (subst (asm) parse_string.simps)
      (auto split: list.splits if_splits option.splits prod.splits dest!: step dest: rune_len_bounds)
qed

lemma dropWhile_shorter: "length (dropWhile P xs) \<le> length xs"
  by (induction xs) auto

lemma skip_ws_shorter: "skip_ws s = c # cs \<Longrightarrow> length cs < length s"
  using dropWhile_shorter [of is_json_space s] by (simp add: skip_ws_def)

lemma dropWhile_strict: "takeWhile P xs \<noteq> [] \<Longrightarrow> length (dropWhile P xs) < length xs"
  by (metis length_append length_greater_0_conv less_add_same_cancel2 takeWhile_dropWhile_id)

lemma parse_frac_shorter: "parse_frac s = Some (v, r) \<Longrightarrow> length r \<le> length s"
  by (auto simp: parse_frac_def Let_def split: list.splits if_splits) 
    (meson dropWhile_shorter le_SucI)

lemma parse_exp_shorter: "parse_exp s = Some (v, r) \<Longrightarrow> length r \<le> length s"
  by (auto simp: parse_exp_def Let_def split: list.splits if_splits)
    (metis dropWhile_shorter le_SucI)+

lemma parse_int_part_shorter: "parse_int_part s = (v, r) \<Longrightarrow> v \<noteq> [] \<Longrightarrow> length r < length s"
  using dropWhile_strict [of is_digit s] by (auto simp: parse_int_part_def split: list.splits if_splits)

lemma parse_sign_shorter: "parse_sign s = (v, r) \<Longrightarrow> length r \<le> length s"
  by (auto simp: parse_sign_def split: list.splits if_splits)

lemma parse_number_shorter: "parse_number s = Some (v, r) \<Longrightarrow> length r < length s"
  by (fastforce simp: parse_number_def Let_def split: if_splits prod.splits option.splits
      dest!: parse_sign_shorter parse_int_part_shorter parse_frac_shorter parse_exp_shorter)

lemma prefix_length: "prefix p s \<Longrightarrow> length p \<le> length s"
  by (auto simp: prefix_def)

lemma parse_shorter:
  "parse_value f d s = Some (v, r) \<Longrightarrow> length r < length s"
  "parse_elems f d s = Some (vs, r') \<Longrightarrow> length r' < length s"
  "parse_members f d s = Some (ms, r'') \<Longrightarrow> length r'' < length s"
proof (induction f d s and f d s and f d s arbitrary: v r and vs r' and ms r''
    rule: parse_value_parse_elems_parse_members.induct)
  case (2 fuel d s)
  then show ?case
    by (simp split: list.splits if_splits option.splits prod.splits)
      (force dest: skip_ws_shorter parse_string_shorter parse_number_shorter)+
next
  case (4 fuel d s)
  then show ?case
    by (fastforce split: list.splits if_splits option.splits dest!: skip_ws_shorter)
next
  case (6 fuel d s)
  then show ?case
    by (fastforce split: list.splits if_splits option.splits dest!: skip_ws_shorter parse_string_shorter)
qed simp_all

text \<open>Any two amounts of fuel beyond twice the length of the input give the same answer.\<close>

lemma parse_fuel_enough:
  "2 * length s < f \<Longrightarrow> 2 * length s < g \<Longrightarrow> parse_value f d s = parse_value g d s"
  "2 * length s + 1 < f \<Longrightarrow> 2 * length s + 1 < g \<Longrightarrow> parse_elems f d s = parse_elems g d s"
  "2 * length s < f \<Longrightarrow> 2 * length s < g \<Longrightarrow> parse_members f d s = parse_members g d s"
proof (induction f d s and f d s and f d s arbitrary: g and g and g
    rule: parse_value_parse_elems_parse_members.induct)
  case (2 fuel d s)
  then obtain h where g: "g = Suc h" by (cases g) auto
  show ?case
  proof (cases "skip_ws s")
    case (Cons c cs)
    then have "length cs < length s" by (rule skip_ws_shorter)
    then have len: "2 * length cs + 1 < fuel" "2 * length cs + 1 < h" using 2(3,4) g by simp_all
    then have e: "parse_elems fuel (d - 1) cs = parse_elems h (d - 1) cs"
      if "c = CHR ''[''" "0 < d" "skip_ws cs = x # y" "x \<noteq> CHR '']''" for x y
      using 2(1) [OF Cons that(1) _ that(3,4), of h] that(2) by simp
    have m: "parse_members fuel (d - 1) cs = parse_members h (d - 1) cs"
      if "c = CHR ''{''" "0 < d" "skip_ws cs = x # y" "x \<noteq> CHR ''}''" for x y
      using 2(2) [OF Cons _ that(1) _ that(3,4), of h] that(1,2) len by simp
    show ?thesis
      by (cases "skip_ws cs") (simp_all add: g Cons e m)
  qed (simp add: g)
next
  case (4 fuel d s)
  from 4(4) obtain h where g: "g = Suc h" by (cases g) auto
  have v: "parse_value fuel d s = parse_value h d s" by (rule 4(1)) (use 4(3,4) g in simp_all)
  have "parse_elems fuel d cs = parse_elems h d cs"
    if "parse_value fuel d s = Some (u, r)" "skip_ws r = CHR '','' # cs" for u r cs
  proof -
    have "length cs + 1 < length s"
      using parse_shorter(1) [OF that(1)] skip_ws_shorter [OF that(2)] by simp
    then show ?thesis using 4(2) [OF that(1) _ that(2), of _ h] 4(3,4) g by simp
  qed
  with v show ?case by (simp add: g split: option.splits list.splits)
next
  case (6 fuel d s)
  from 6(4) obtain h where g: "g = Suc h" by (cases g) auto
  show ?case
  proof (cases "skip_ws s")
    case (Cons q ks)
    then have ks: "length ks < length s" by (rule skip_ws_shorter)
    have v: "parse_value fuel d vs = parse_value h d vs"
      if "byte_val q = 34" "parse_string ks = Some (k, r)" "skip_ws r = CHR '':'' # vs" for k r vs
      using 6(1) [OF Cons _ that(2) _ that(3), where g = h] 6(3,4) that g ks
        parse_string_shorter [OF that(2)] skip_ws_shorter [OF that(3)] by simp
    have m: "parse_members fuel d cs = parse_members h d cs"
      if "byte_val q = 34" "parse_string ks = Some (k, r)" "skip_ws r = CHR '':'' # vs" 
        "parse_value fuel d vs = Some (u, r1)" "skip_ws r1 = CHR '','' # cs" for k r vs u r1 cs
      using 6(2) [OF Cons _ that(2) _ that(3) _ that(4) _ that(5), where g = h] 6(3,4) that g ks
        parse_string_shorter [OF that(2)] skip_ws_shorter [OF that(3)] 
        parse_shorter(1) [OF that(4)] skip_ws_shorter [OF that(5)] by simp
    from v m show ?thesis by (simp add: g Cons split: option.splits list.splits)
  qed (simp add: g)
qed simp_all

section \<open>Valid UTF-8\<close>

definition is_rune :: "string \<Rightarrow> bool" where
  "is_rune p \<longleftrightarrow> (\<exists>c. p = [c] \<and> byte_val c < 128) \<or> rune_len p = Some (length p)"

lemma rune_len_high: "rune_len (c # cs) = Some n \<Longrightarrow> \<not> byte_val c < 128"
  by (auto simp: rune_len_def in_range_def split: list.splits if_splits)

lemma sanitize_rune:
  assumes "is_rune p"
  shows "utf8_sanitize (p @ v) = p @ utf8_sanitize v"
proof (cases "rune_len p = Some (length p)")
  case True
  then obtain c cs where p: "p = c # cs" using rune_len_bounds [OF True] by (cases p) auto
  have r: "rune_len (p @ v) = Some (length p)" using rune_len_take [OF True, of v] by simp
  have "\<not> byte_val c < 128" using True unfolding p by (rule rune_len_high)
  with r p show ?thesis
    by (simp add: utf8_sanitize.simps [of "c # cs @ v"])
next
  case False
  with assms obtain c where "p = [c]" "byte_val c < 128" by (auto simp: is_rune_def)
  then show ?thesis by (simp add: utf8_sanitize.simps [of "c # v"])
qed

lemma is_rune_take: "rune_len s = Some n \<Longrightarrow> is_rune (take n s)"
  using rune_len_take [of s n "[]"] rune_len_bounds [of s n] by (simp add: is_rune_def min_absorb2)

lemma split_64: "(r::int) = 64 * (r div 64) + r mod 64" "r div 64 div 64 = r div 4096" "r div 4096 div 64 = r div 262144"
  by (simp_all add: zdiv_zmult2_eq [symmetric])

lemma is_rune_encode:
  assumes "0 \<le> r" "r < 1114112" "\<not> is_surrogate r"
  shows "is_rune (encode_rune r)"
proof -
  have sg: "r < 55296 \<or> 57344 \<le> r" using assms(3) by (auto simp: is_surrogate_def)
  consider "r < 128" | "128 \<le> r" "r < 2048" | "2048 \<le> r" "r < 65536" | "65536 \<le> r" by linarith
  then show ?thesis
  proof cases
    case 1
    then show ?thesis using assms(1) by (simp add: encode_rune_def is_rune_def)
  next
    case 2
    then have "2 \<le> r div 64" "r div 64 < 32" by auto
    then show ?thesis using 2 by (simp add: encode_rune_def is_rune_def rune_len_def in_range_def)
  next
    case 3
    define a where "a = r div 4096"
    define b where "b = r div 64 mod 64"
    define c where "c = r mod 64"
    have r: "r = 4096 * a + 64 * b + c"
      using split_64 [of r] split_64 [of "r div 64"] unfolding a_def b_def c_def by linarith
    have bc: "0 \<le> a" "a < 16" "0 \<le> b" "b < 64" "0 \<le> c" "c < 64"
      using 3 by (auto simp: a_def b_def c_def)
    have "a = 0 \<Longrightarrow> 32 \<le> b" using r bc 3 by auto
    moreover have "a = 13 \<Longrightarrow> b \<le> 31" using r bc sg by auto
    ultimately show ?thesis
      using 3 bc by (simp add: encode_rune_def is_rune_def rune_len_def in_range_def
          a_def [symmetric] b_def [symmetric] c_def [symmetric])
  next
    case 4
    define a where "a = r div 262144"
    define b where "b = r div 4096 mod 64"
    define c where "c = r div 64 mod 64"
    define d where "d = r mod 64"
    have r: "r = 262144 * a + 4096 * b + 64 * c + d"
      using split_64 [of r] split_64 [of "r div 64"] split_64 [of "r div 4096"]
      unfolding a_def b_def c_def d_def by linarith
    have bc: "0 \<le> b" "b < 64" "0 \<le> c" "c < 64" "0 \<le> d" "d < 64" "0 \<le> a" "a < 5"
      using 4 assms(2) by (auto simp: a_def b_def c_def d_def)
    have "a = 0 \<Longrightarrow> 16 \<le> b" using r bc 4 by auto
    moreover have "a = 4 \<Longrightarrow> b \<le> 15" using r bc assms(2) by auto
    ultimately show ?thesis
      using 4 bc by (simp add: encode_rune_def is_rune_def rune_len_def in_range_def
          a_def [symmetric] b_def [symmetric] c_def [symmetric] d_def [symmetric])
  qed
qed

definition valid_utf8 :: "string \<Rightarrow> bool" where
  "valid_utf8 s \<longleftrightarrow> utf8_sanitize s = s"

lemma valid_utf8_Nil [simp]: "valid_utf8 []"
  by (simp add: valid_utf8_def utf8_sanitize.simps)

lemma valid_utf8_append: "is_rune p \<Longrightarrow> valid_utf8 v \<Longrightarrow> valid_utf8 (p @ v)"
  by (simp add: valid_utf8_def sanitize_rune)

lemma replacement_rune: "is_rune replacement"
  by (simp add: is_rune_def replacement_def rune_len_def in_range_def)

lemma simple_escape_rune: "simple_escape e = Some v \<Longrightarrow> is_rune [v]"
  by (auto simp: simple_escape_def is_rune_def Let_def split: if_splits)

lemma hex_val_range: "hex_val c = Some v \<Longrightarrow> 0 \<le> v \<and> v < 16"
  by (auto simp: hex_val_def Let_def split: if_splits)

lemma hex4_range: "hex4 s = Some v \<Longrightarrow> 0 \<le> v \<and> v < 65536"
  by (auto simp: hex4_def split: list.splits option.splits dest!: hex_val_range)

lemma surrogate_pair_rune:
  assumes "surrogate_pair r rest = (v, n)" and "is_surrogate r"
  shows "is_rune v"
  using assms
  by (auto simp: surrogate_pair_def replacement_rune split: list.splits option.splits if_splits
      intro!: is_rune_encode simp: is_surrogate_def)

lemma hex4_rune: "hex4 s = Some v \<Longrightarrow> \<not> is_surrogate v \<Longrightarrow> is_rune (encode_rune v)"
  by (rule is_rune_encode) (auto dest: hex4_range)

lemma parse_string_valid: "parse_string s = Some (v, r) \<Longrightarrow> valid_utf8 v"
proof (induction s arbitrary: v r rule: length_induct)
  case (1 s)
  have step: "valid_utf8 v" if "prepend p (parse_string u) = Some (v, r)" "length u < length s" "is_rune p" for p u
    using that 1 by (auto simp: prepend_def intro!: valid_utf8_append)
  show ?case
    using 1(2)
    by (subst (asm) parse_string.simps)
      (auto split: list.splits if_splits option.splits prod.splits elim!: step
        intro: is_rune_take replacement_rune simple_escape_rune surrogate_pair_rune
          hex4_rune dest: rune_len_bounds simp: is_rune_def [of "[_]"])
qed

fun clean :: "json \<Rightarrow> bool" where
  "clean (JStr s) = valid_utf8 s"
| "clean (JArr vs) = list_all clean vs"
| "clean (JObj ms) = list_all (\<lambda>(k, v). clean v) ms"
| "clean _ = True"

lemma parse_clean:
  "parse_value f d s = Some (v, r) \<Longrightarrow> clean v"
  "parse_elems f d s = Some (vs, r') \<Longrightarrow> list_all clean vs"
  "parse_members f d s = Some (ms, r'') \<Longrightarrow> list_all (\<lambda>(k, v). clean v) ms"
proof (induction f d s and f d s and f d s arbitrary: v r and vs r' and ms r''
    rule: parse_value_parse_elems_parse_members.induct)
  case (2 fuel d s)
  then show ?case
    by (simp split: list.splits if_splits option.splits prod.splits)
      (force dest: parse_string_valid)+
next
  case (4 fuel d s)
  then show ?case
    by (fastforce split: list.splits if_splits option.splits)
next
  case (6 fuel d s)
  then show ?case
    by (fastforce split: list.splits if_splits option.splits)
qed simp_all

lemma decode_text_valid:
  "decode_text acc ms = Some t \<Longrightarrow> valid_utf8 acc \<Longrightarrow> list_all (\<lambda>(k, v). clean v) ms \<Longrightarrow> valid_utf8 t"
  by (induction acc ms arbitrary: t rule: decode_text.induct) (auto split: if_splits json.splits)

lemma decode_entry_valid: "decode_entry v = Some t \<Longrightarrow> clean v \<Longrightarrow> valid_utf8 t"
  by (cases v) (auto dest: decode_text_valid)

lemma decode_entries_valid: "decode_entries vs = Some ts \<Longrightarrow> list_all clean vs \<Longrightarrow> list_all valid_utf8 ts"
  by (induction vs arbitrary: ts) (auto split: option.splits dest: decode_entry_valid)

lemma unmarshal_texts_valid: "unmarshal_texts s = Some ts \<Longrightarrow> list_all valid_utf8 ts"
  by (auto simp: unmarshal_texts_def parse_json_def split: option.splits json.splits if_splits prod.splits
      dest!: parse_clean(1) decode_entries_valid simp del: parse_value.simps)

text \<open>A string literal determines its value and where it ends.\<close>

lemma json_string_inj:
  "json_string h s @ r = json_string h s' @ r' \<Longrightarrow> utf8_sanitize s = utf8_sanitize s' \<and> r = r'"
  using parse_string_escape [of h s r] parse_string_escape [of h s' r'] by (simp add: json_string_def)


lemma json_strings_inj:
  assumes "strings_Join (map (json_string h) ts) '','' @ CHR '']'' # r
    = strings_Join (map (json_string h) us) '','' @ CHR '']'' # r'"
  shows "map utf8_sanitize ts = map utf8_sanitize us \<and> r = r'"
  using assms
proof (induction ts arbitrary: us)
  case Nil
  then show ?case
    by (cases us) (auto simp: strings_Join_def json_string_def json_punctuation(11) [symmetric])
next
  case (Cons t ts)
  show ?case
  proof (cases us)
    case Nil
    with Cons.prems show ?thesis
      by (simp add: strings_Join_def json_string_def json_punctuation)
  next
    case us: (Cons u us')
    let ?tl = "\<lambda>xs r. concat (map (\<lambda>x. '','' @ x) (map (json_string h) xs)) @ CHR '']'' # r"
    have "json_string h t @ ?tl ts r = json_string h u @ ?tl us' r'"
      using Cons.prems by (simp add: strings_Join_def us comp_def)
    then have tu: "utf8_sanitize t = utf8_sanitize u" and tl: "?tl ts r = ?tl us' r'"
      by (blast dest: json_string_inj)+
    have "strings_Join (map (json_string h) ts) '','' @ CHR '']'' # r
        = strings_Join (map (json_string h) us') '','' @ CHR '']'' # r'"
      using tl by (cases ts; cases us') (simp_all add: strings_Join_def comp_def)
    moreover have "ts = [] \<longleftrightarrow> us' = []"
      using tl by (cases ts; cases us') simp_all
    ultimately show ?thesis using Cons.IH [of us'] tu us by simp
  qed
qed

end
