(* ===== verification/Sha256.thy ===== *)
theory Sha256
  imports Prelude "HOL-Library.Word"
begin

text \<open>
  SHA-256 (\<open>crypto/sha256\<close>) and the lower-case hexadecimal form of its digest
  (\<open>fmt.Sprintf("%x", ...)\<close>), on byte strings. The fingerprint of a finding is such a digest.
\<close>

unbundle bit_operations_syntax

type_synonym w32 = "32 word"

text \<open>
  The tables of constants, as FIPS 180-4 introduces them: the first 32 bits of the fractional
  parts of the cube roots of the first 64 primes, and of the square roots of the first eight.
  \<open>int_root k n b r\<close> adds the bits from \<open>b\<close> down to 0 of the integer \<open>k\<close>-th root of \<open>n\<close> to \<open>r\<close>.
\<close>

fun int_root :: "nat \<Rightarrow> int \<Rightarrow> nat \<Rightarrow> int \<Rightarrow> int" where
  "int_root k n 0 r = (if (r + 1) ^ k \<le> n then r + 1 else r)"
| "int_root k n (Suc b) r =
     int_root k n b (if (r + 2 ^ Suc b) ^ k \<le> n then r + 2 ^ Suc b else r)"

definition root_fraction :: "nat \<Rightarrow> int \<Rightarrow> w32" where
  "root_fraction k p = word_of_int (int_root k (p * 2 ^ (32 * k)) 36 0)"

definition first_primes :: "int list" where
  "first_primes =
     [2, 3, 5, 7, 11, 13, 17, 19, 23, 29, 31, 37, 41, 43, 47, 53, 59, 61, 67, 71, 73, 79, 83,
      89, 97, 101, 103, 107, 109, 113, 127, 131, 137, 139, 149, 151, 157, 163, 167, 173, 179,
      181, 191, 193, 197, 199, 211, 223, 227, 229, 233, 239, 241, 251, 257, 263, 269, 271, 277,
      281, 283, 293, 307, 311]"

definition K256 :: "w32 list" where
  "K256 = map (root_fraction 3) first_primes"

definition H256 :: "w32 list" where
  "H256 = map (root_fraction 2) (take 8 first_primes)"

definition rotr :: "nat \<Rightarrow> w32 \<Rightarrow> w32" where
  "rotr n x = drop_bit n x OR push_bit (32 - n) x"

text \<open>The padded message: a one bit, zeros, and the length in bits as a 64-bit big-endian number.\<close>

definition big_endian :: "nat \<Rightarrow> int \<Rightarrow> string" where
  "big_endian k v = map (\<lambda>i. byte_of (v div 256 ^ i)) (rev [0..<k])"

definition sha_pad :: "string \<Rightarrow> string" where
  "sha_pad s = s @ byte_of 128 # replicate (nat ((55 - int (length s)) mod 64)) (byte_of 0)
     @ big_endian 8 (8 * int (length s))"

definition be_word :: "char \<Rightarrow> char \<Rightarrow> char \<Rightarrow> char \<Rightarrow> w32" where
  "be_word a b c d =
     word_of_int (16777216 * byte_val a + 65536 * byte_val b + 256 * byte_val c + byte_val d)"

fun words_of :: "string \<Rightarrow> w32 list" where
  "words_of (a # b # c # d # s) = be_word a b c d # words_of s"
| "words_of _ = []"

text \<open>
  The message schedule, newest word first: the word at distance \<open>i\<close> is \<open>w ! (i - 1)\<close>.
\<close>

definition next_word :: "w32 list \<Rightarrow> w32" where
  "next_word w =
     (let v1 = w ! 1; v2 = w ! 14;
          t1 = rotr 17 v1 XOR rotr 19 v1 XOR drop_bit 10 v1;
          t2 = rotr 7 v2 XOR rotr 18 v2 XOR drop_bit 3 v2
      in t1 + w ! 6 + t2 + w ! 15)"

primrec expand :: "nat \<Rightarrow> w32 list \<Rightarrow> w32 list" where
  "expand 0 w = w"
| "expand (Suc n) w = expand n (next_word w # w)"

definition schedule :: "w32 list \<Rightarrow> w32 list" where
  "schedule block = rev (expand 48 (rev block))"

fun sha_round :: "w32 list \<Rightarrow> w32 \<times> w32 \<Rightarrow> w32 list" where
  "sha_round st (k, w) =
     (let a = st ! 0; b = st ! 1; c = st ! 2; d = st ! 3; e = st ! 4; f = st ! 5; g = st ! 6; h = st ! 7;
          t1 = h + (rotr 6 e XOR rotr 11 e XOR rotr 25 e) + ((e AND f) XOR (NOT e AND g)) + k + w;
          t2 = (rotr 2 a XOR rotr 13 a XOR rotr 22 a) + ((a AND b) XOR (a AND c) XOR (b AND c))
      in [t1 + t2, a, b, c, d + t1, e, f, g])"

definition compress :: "w32 list \<Rightarrow> w32 list \<Rightarrow> w32 list" where
  "compress st block = map2 (+) st (foldl sha_round st (zip K256 (schedule block)))"

function sha_blocks :: "w32 list \<Rightarrow> w32 list \<Rightarrow> w32 list" where
  "sha_blocks st ws =
     (if length ws < 16 then st else sha_blocks (compress st (take 16 ws)) (drop 16 ws))"
  by pat_completeness auto
termination
  by (relation "measure (\<lambda>(st, ws). length ws)") auto

declare sha_blocks.simps [simp del]

definition sha256_Sum256 :: "string \<Rightarrow> w32 list" where
  "sha256_Sum256 s = sha_blocks H256 (words_of (sha_pad s))"

definition hex_nibble :: "w32 \<Rightarrow> nat \<Rightarrow> char" where
  "hex_nibble x i =
     (let d = uint (drop_bit (4 * i) x AND 15) in if d < 10 then byte_of (48 + d) else byte_of (87 + d))"

definition hex_word :: "w32 \<Rightarrow> string" where
  "hex_word x = map (hex_nibble x) [7, 6, 5, 4, 3, 2, 1, 0]"

definition Sprintf_x :: "w32 list \<Rightarrow> string" where
  "Sprintf_x ws = concat (map hex_word ws)"

section \<open>The digest has 64 hexadecimal digits\<close>

text \<open>The tables start and end as the published ones do.\<close>

lemma table_ends:
  "hd K256 = 0x428a2f98" "last K256 = 0xc67178f2" "hd H256 = 0x6a09e667" "last H256 = 0x5be0cd19"
  by code_simp+

lemma sha_rounds_length: "length st = 8 \<Longrightarrow> length (foldl sha_round st kws) = 8"
  by (induction kws arbitrary: st) (auto simp: Let_def)

lemma compress_length: "length st = 8 \<Longrightarrow> length (compress st block) = 8"
  by (simp add: compress_def sha_rounds_length)

lemma sha_blocks_length: "length st = 8 \<Longrightarrow> length (sha_blocks st ws) = 8"
  by (induction st ws rule: sha_blocks.induct) (subst sha_blocks.simps, simp add: compress_length)

lemma Sum256_length: "length (sha256_Sum256 s) = 8"
  by (simp add: sha256_Sum256_def sha_blocks_length H256_def first_primes_def)

lemma Sprintf_x_length: "length (Sprintf_x ws) = 8 * length ws"
  by (induction ws) (simp_all add: Sprintf_x_def hex_word_def)

definition is_hex :: "char \<Rightarrow> bool" where
  "is_hex c \<longleftrightarrow> 48 \<le> byte_val c \<and> byte_val c \<le> 57 \<or> 97 \<le> byte_val c \<and> byte_val c \<le> 102"

lemma hex_nibble_hex: "is_hex (hex_nibble x i)"
proof -
  let ?d = "uint (drop_bit (4 * i) x AND 15)"
  have "?d = uint (drop_bit (4 * i) x) AND 15" by (simp add: uint_and)
  also have "15 = (mask 4 :: int)" by (simp add: mask_eq_exp_minus_1)
  also have "uint (drop_bit (4 * i) x) AND mask 4 = uint (drop_bit (4 * i) x) mod 16"
    by (simp add: take_bit_eq_mask [symmetric] take_bit_eq_mod)
  finally have "0 \<le> ?d" "?d < 16" by simp_all
  then show ?thesis by (auto simp: is_hex_def hex_nibble_def Let_def)
qed

lemma Sprintf_x_hex: "c \<in> set (Sprintf_x ws) \<Longrightarrow> is_hex c"
  by (auto simp: Sprintf_x_def hex_word_def hex_nibble_hex)

text \<open>Eight hexadecimal digits determine a word.\<close>

lemma hex_nibble_inj:
  assumes "hex_nibble x i = hex_nibble y i" 
  shows "drop_bit (4 * i) x AND 15 = drop_bit (4 * i) y AND 15"
proof -
  have r: "0 \<le> uint (z AND 15) \<and> uint (z AND 15) < 16" for z :: w32
    by (simp add: uint_and and_less_eq)
  have "uint (drop_bit (4 * i) x AND 15) = uint (drop_bit (4 * i) y AND 15)"
    using assms r [of "drop_bit (4 * i) x"] r [of "drop_bit (4 * i) y"] 
    by (auto simp: hex_nibble_def Let_def byte_eq_iff split: if_splits)
  then show ?thesis by (rule word_uint_eqI)
qed

lemma hex_word_inj: "hex_word x = hex_word y \<Longrightarrow> x = y"
proof (rule bit_word_eqI)
  fix n assume h: "hex_word x = hex_word y" and "n < LENGTH(32)"
  then have n: "n div 4 \<in> {0,1,2,3,4,5,6,7}" by auto
  have "drop_bit (4 * (n div 4)) x AND 15 = drop_bit (4 * (n div 4)) y AND 15"
    using h n by (auto simp: hex_word_def intro!: hex_nibble_inj)
  then have "bit (drop_bit (4 * (n div 4)) x AND mask 4) (n mod 4) = bit (drop_bit (4 * (n div 4)) y AND mask 4) (n mod 4)"
    by (simp add: mask_eq_exp_minus_1)
  then show "bit x n = bit y n" 
    using order.strict_trans [of "n mod 4" 4 32] by (simp add: bit_and_iff bit_drop_bit_eq bit_mask_iff)
qed

lemma hex_word_length: "length (hex_word x) = 8"
  by (simp add: hex_word_def)

lemma Sprintf_x_inj: "length ws = length vs \<Longrightarrow> Sprintf_x ws = Sprintf_x vs \<Longrightarrow> ws = vs"
  by (induction ws vs rule: list_induct2) (auto simp: Sprintf_x_def hex_word_length dest: hex_word_inj)

end
