(* ===== verification/Fingerprint.thy ===== *)
theory Fingerprint
  imports Domain Json Sha256
begin

text \<open>
  The deduplication key of a finding (\<open>FindingFingerprint\<close> in
  \<open>src/internal/domain/provider.go\<close>): the SHA-256 of a JSON object over the namespace, the
  kind, the parent object and the sorted error texts.
\<close>

section \<open>The fingerprint\<close>

text \<open>The JSON object of the payload struct, as \<open>Encode\<close> writes it, with a final newline.\<close>

definition json_field :: "string \<Rightarrow> string \<Rightarrow> string" where
  "json_field k v = json_string False k @ CHR '':'' # v"

definition encode_payload :: "string \<Rightarrow> string \<Rightarrow> string \<Rightarrow> string list \<Rightarrow> string" where
  "encode_payload ns kind parent texts =
     CHR ''{'' # strings_Join
       [json_field ''namespace'' (json_string False ns),
        json_field ''kind'' (json_string False kind),
        json_field ''parentObject'' (json_string False parent),
        json_field ''errorTexts'' (json_array (map (json_string False) texts))] '',''
     @ [CHR ''}'', byte_of 10]"

definition FindingFingerprint :: "Finding \<Rightarrow> goerr + string" where
  "FindingFingerprint f =
     (case (if fErrors f \<noteq> '''' then unmarshal_texts (fErrors f) else Some []) of
        None \<Rightarrow> Inl (Msg ''FindingFingerprint: malformed errors JSON'')
      | Some failures \<Rightarrow>
          (let texts = sort failures
           in Inr (Sprintf_x (sha256_Sum256
                (encode_payload (fNamespace f) (fKind f) (fParentObject f) texts)))))"

text \<open>The texts a fingerprint is taken over.\<close>

definition error_texts :: "string \<Rightarrow> string list option" where
  "error_texts errs = (if errs \<noteq> '''' then unmarshal_texts errs else Some [])"

lemma FindingFingerprint_alt:
  "FindingFingerprint f =
     (case error_texts (fErrors f) of
        None \<Rightarrow> Inl (Msg ''FindingFingerprint: malformed errors JSON'')
      | Some failures \<Rightarrow> Inr (Sprintf_x (sha256_Sum256
          (encode_payload (fNamespace f) (fKind f) (fParentObject f) (sort failures)))))"
  by (simp add: FindingFingerprint_def error_texts_def Let_def split: option.splits)

lemma FindingFingerprint_length: "FindingFingerprint f = Inr fp \<Longrightarrow> length fp = 64"
  by (auto simp: FindingFingerprint_alt Sprintf_x_length Sum256_length split: option.splits)

lemma encode_payload_inj:
  assumes "encode_payload ns kind parent ts = encode_payload ns' kind' parent' us"
  shows "utf8_sanitize ns = utf8_sanitize ns' \<and> utf8_sanitize kind = utf8_sanitize kind'
    \<and> utf8_sanitize parent = utf8_sanitize parent' \<and> map utf8_sanitize ts = map utf8_sanitize us"
  using assms
  by (auto simp: encode_payload_def json_field_def json_array_def strings_Join_def [of "[_, _, _, _]"]
      dest!: json_string_inj intro: json_strings_inj [of False ts "[]" us "[]", THEN conjunct1])

section \<open>What the fingerprint identifies\<close>

text \<open>
  The payload of a finding whose error texts are \<open>ts\<close>, and two findings that are about the same
  problem: the same anchor and the same error texts, in any order.
\<close>

definition payload :: "Finding \<Rightarrow> string list \<Rightarrow> string" where
  "payload f ts = encode_payload (fNamespace f) (fKind f) (fParentObject f) (sort ts)"

definition same_anchor :: "Finding \<Rightarrow> Finding \<Rightarrow> bool" where
  "same_anchor f g \<longleftrightarrow>
     fNamespace f = fNamespace g \<and> fKind f = fKind g \<and> fParentObject f = fParentObject g"

definition valid_anchor :: "Finding \<Rightarrow> bool" where
  "valid_anchor f \<longleftrightarrow> valid_utf8 (fNamespace f) \<and> valid_utf8 (fKind f) \<and> valid_utf8 (fParentObject f)"

lemma FindingFingerprint_payload:
  "error_texts (fErrors f) = Some ts \<Longrightarrow> FindingFingerprint f = Inr (Sprintf_x (sha256_Sum256 (payload f ts)))"
  by (simp add: FindingFingerprint_alt payload_def)

lemma error_texts_valid: "error_texts e = Some ts \<Longrightarrow> list_all valid_utf8 ts"
  by (auto simp: error_texts_def dest: unmarshal_texts_valid split: if_splits)

lemma map_sanitize_valid: "list_all valid_utf8 ts \<Longrightarrow> map utf8_sanitize ts = ts"
  by (induction ts) (auto simp: valid_utf8_def)

lemma payload_eq_iff:
  assumes "valid_anchor f" "valid_anchor g" "list_all valid_utf8 ts" "list_all valid_utf8 us"
  shows "payload f ts = payload g us \<longleftrightarrow> same_anchor f g \<and> mset ts = mset us"
proof
  assume "payload f ts = payload g us"
  from encode_payload_inj [OF this [unfolded payload_def]]
  have "same_anchor f g" "map utf8_sanitize (sort ts) = map utf8_sanitize (sort us)"
    using assms(1,2) by (simp_all add: same_anchor_def valid_anchor_def valid_utf8_def)
  moreover have "list_all valid_utf8 (sort ts)" "list_all valid_utf8 (sort us)"
    using assms(3,4) by (simp_all add: list_all_iff)
  ultimately show "same_anchor f g \<and> mset ts = mset us"
    by (metis map_sanitize_valid mset_sort)
next
  assume "same_anchor f g \<and> mset ts = mset us"
  moreover from this have "sort ts = sort us"
    by (metis properties_for_sort sorted_sort mset_sort)
  ultimately show "payload f ts = payload g us" by (simp add: payload_def same_anchor_def)
qed

text \<open>
  C13. Two findings get the same fingerprint exactly when they have the same namespace, kind and
  parent object and the same error texts up to their order, unless SHA-256 collides on their two
  payloads. Name, details, severity, chain depth and node do not matter. (The names are valid
  UTF-8, as Kubernetes guarantees; the error texts are valid because they were decoded.)
\<close>

theorem fingerprint_identifies:
  assumes "error_texts (fErrors f) = Some ts" and "error_texts (fErrors g) = Some us"
    and "valid_anchor f" and "valid_anchor g"
  shows "FindingFingerprint f = FindingFingerprint g \<longleftrightarrow>
    (same_anchor f g \<and> mset ts = mset us) \<or>
    (payload f ts \<noteq> payload g us \<and> sha256_Sum256 (payload f ts) = sha256_Sum256 (payload g us))"
proof -
  have "FindingFingerprint f = FindingFingerprint g \<longleftrightarrow>
      sha256_Sum256 (payload f ts) = sha256_Sum256 (payload g us)"
    using Sprintf_x_inj [of "sha256_Sum256 (payload f ts)" "sha256_Sum256 (payload g us)"]
    by (auto simp: FindingFingerprint_payload assms Sum256_length)
  then show ?thesis
    using payload_eq_iff [OF assms(3,4) error_texts_valid error_texts_valid, OF assms(1,2)] by metis
qed

definition pod_finding :: "string \<Rightarrow> string \<Rightarrow> Finding" where
  "pod_finding name errs = \<lparr>fKind = ''Pod'', fName = name, fNamespace = ''prod'', fParentObject = ''api'',
     fErrors = errs, fDetails = '''', fSeverity = SeverityHigh, fChainDepth = 0, fNodeName = ''''\<rparr>"

lemma pod_finding_valid: "valid_anchor (pod_finding n e)"
proof -
  have "utf8_sanitize s = s" if "s \<in> {''prod'', ''Pod'', ''api''}" for s
    using that by (intro utf8_sanitize_ascii) (auto simp: byte_val_def)
  then show ?thesis by (simp add: valid_anchor_def pod_finding_def valid_utf8_def)
qed

lemma error_texts_marshal: "error_texts (marshal_errors ts) = Some (map utf8_sanitize ts)"
  by (simp add: error_texts_def unmarshal_marshal_errors) (simp add: marshal_errors_def json_array_def)

theorem fingerprint_identifies_witness:
  "FindingFingerprint (pod_finding ''api-1'' (marshal_errors [''OOMKilled'', ''exit 1'']))
     = FindingFingerprint (pod_finding ''api-2'' (marshal_errors [''exit 1'', ''OOMKilled'']))"
proof -
  let ?f = "pod_finding ''api-1'' (marshal_errors [''OOMKilled'', ''exit 1''])"
  let ?g = "pod_finding ''api-2'' (marshal_errors [''exit 1'', ''OOMKilled''])"
  have "error_texts (fErrors ?f) = Some (map utf8_sanitize [''OOMKilled'', ''exit 1''])"
    and "error_texts (fErrors ?g) = Some (map utf8_sanitize [''exit 1'', ''OOMKilled''])"
    by (simp_all only: pod_finding_def Finding.simps error_texts_marshal)
  from fingerprint_identifies [OF this pod_finding_valid pod_finding_valid]
  show ?thesis by (simp add: same_anchor_def pod_finding_def)
qed

text \<open>
  The errors a provider serialises never make the fingerprint fail: it is 64 lower-case
  hexadecimal digits (so that the reconciler's test for fewer than twelve never fires), and it
  does not depend on the order in which the provider reports the texts.
\<close>

theorem fingerprint_of_serialised_errors:
  "(\<exists>fp. FindingFingerprint (f\<lparr>fErrors := marshal_errors ts\<rparr>) = Inr fp \<and> length fp = 64
      \<and> list_all is_hex fp)
   \<and> FindingFingerprint (f\<lparr>fErrors := marshal_errors (rev ts)\<rparr>)
       = FindingFingerprint (f\<lparr>fErrors := marshal_errors ts\<rparr>)"
proof -
  have "sort (rev (map utf8_sanitize ts)) = sort (map utf8_sanitize ts)"
    by (metis mset_rev mset_sort properties_for_sort sorted_sort)
  then show ?thesis
    by (auto simp: FindingFingerprint_alt error_texts_marshal Sprintf_x_length Sum256_length rev_map
        list_all_iff dest: Sprintf_x_hex)
qed

end
