(* ===== verification/Regex.thy ===== *)
theory Regex
  imports Prelude
begin

text \<open>
  Go's \<open>regexp\<close> as far as the watcher uses it. An expression is matched against a byte string
  by \<open>alternatives\<close>, which lists what is left of the input after every way to match a prefix,
  in the order Go's leftmost-first semantics prefers them (left alternative first, a repetition
  as often as possible first, an iteration that consumes nothing cut off). \<open>MatchString\<close> asks
  whether some position has a match. The section on correctness relates both to the language of
  the expression.
\<close>

section \<open>Expressions and matching\<close>

text \<open>\<open>Cls False cs\<close> is one byte of \<open>cs\<close>, \<open>Cls True cs\<close> one byte outside \<open>cs\<close>.\<close>

datatype rx =
    Eps
  | Cls bool "char list"
  | Seq rx rx
  | Alt rx rx
  | Star rx
  | LazyStar rx \<comment> \<open>\<open>r*?\<close>, as seldom as possible first\<close>

definition cls_ok :: "bool \<Rightarrow> char list \<Rightarrow> char \<Rightarrow> bool" where
  "cls_ok neg cs c \<longleftrightarrow> (List.member cs c \<noteq> neg)"

function alternatives :: "rx \<Rightarrow> string \<Rightarrow> string list" where
  "alternatives Eps s = [s]"
| "alternatives (Cls neg cs) s =
     (case s of [] \<Rightarrow> [] | c # t \<Rightarrow> if cls_ok neg cs c then [t] else [])"
| "alternatives (Seq r1 r2) s = concat (map (alternatives r2) (alternatives r1 s))"
| "alternatives (Alt r1 r2) s = alternatives r1 s @ alternatives r2 s"
| "alternatives (Star r) s =
     concat (map (\<lambda>t. if length t < length s then alternatives (Star r) t else [])
       (alternatives r s)) @ [s]"
| "alternatives (LazyStar r) s =
     s # concat (map (\<lambda>t. if length t < length s then alternatives (LazyStar r) t else [])
       (alternatives r s))"
  by pat_completeness auto
termination
  by (relation "measures [\<lambda>(r, s). size r, \<lambda>(r, s). length s]") auto

declare alternatives.simps(5,6) [simp del]

definition regexp_MatchString :: "rx \<Rightarrow> string \<Rightarrow> bool" where
  "regexp_MatchString r s = list_ex (\<lambda>t. alternatives r t \<noteq> []) (suffixes s)"

text \<open>Derived forms: \<open>r?\<close>, \<open>r+\<close>, \<open>r{0,n}\<close>, alternatives and sequences of several parts.\<close>

definition Opt :: "rx \<Rightarrow> rx" where
  "Opt r = Alt r Eps"

definition Plus :: "rx \<Rightarrow> rx" where
  "Plus r = Seq r (Star r)"

fun UpTo :: "nat \<Rightarrow> rx \<Rightarrow> rx" where
  "UpTo 0 r = Eps"
| "UpTo (Suc n) r = Opt (Seq r (UpTo n r))"

fun Seqs :: "rx list \<Rightarrow> rx" where
  "Seqs [] = Eps"
| "Seqs [r] = r"
| "Seqs (r # rs) = Seq r (Seqs rs)"

fun Alts :: "rx list \<Rightarrow> rx" where
  "Alts [] = Cls False []"
| "Alts [r] = r"
| "Alts (r # rs) = Alt r (Alts rs)"

text \<open>
  A letter under \<open>(?i)\<close>: both ASCII cases and, for k and s, the two letters outside ASCII that
  Go folds with them (U+212A, bytes E2 84 AA, and U+017F, bytes C5 BF).
\<close>

definition is_lower :: "char \<Rightarrow> bool" where
  "is_lower c \<longleftrightarrow> 97 \<le> byte_val c \<and> byte_val c \<le> 122"

definition is_upper :: "char \<Rightarrow> bool" where
  "is_upper c \<longleftrightarrow> 65 \<le> byte_val c \<and> byte_val c \<le> 90"

definition to_lower :: "char \<Rightarrow> char" where
  "to_lower c = (if is_upper c then byte_of (byte_val c + 32) else c)"

definition to_upper :: "char \<Rightarrow> char" where
  "to_upper c = (if is_lower c then byte_of (byte_val c - 32) else c)"

definition byte :: "int \<Rightarrow> rx" where
  "byte n = Cls False [byte_of n]"

definition fold_char :: "char \<Rightarrow> rx" where
  "fold_char c =
     (let b = Cls False [to_lower c, to_upper c] in
      if to_lower c = CHR ''k'' then Alt b (Seqs [byte 226, byte 132, byte 170])
      else if to_lower c = CHR ''s'' then Alt b (Seqs [byte 197, byte 191])
      else b)"

definition Word_ci :: "string \<Rightarrow> rx" where
  "Word_ci w = Seqs (map fold_char w)"

text \<open>\<open>\s\<close> is a tab, a newline, a form feed, a carriage return or a blank.\<close>

definition Space :: rx where
  "Space = Cls False [byte_of 9, byte_of 10, byte_of 12, byte_of 13, CHR '' '']"

section \<open>Correctness\<close>

text \<open>The language of an expression.\<close>

inductive matches :: "rx \<Rightarrow> string \<Rightarrow> bool" where
  m_Eps: "matches Eps []"
| m_Cls: "cls_ok neg cs c \<Longrightarrow> matches (Cls neg cs) [c]"
| m_Seq: "matches r1 u \<Longrightarrow> matches r2 v \<Longrightarrow> matches (Seq r1 r2) (u @ v)"
| m_Alt1: "matches r1 u \<Longrightarrow> matches (Alt r1 r2) u"
| m_Alt2: "matches r2 u \<Longrightarrow> matches (Alt r1 r2) u"
| m_StarNil: "matches (Star r) []"
| m_StarCons: "matches r u \<Longrightarrow> matches (Star r) v \<Longrightarrow> matches (Star r) (u @ v)"
| m_Lazy: "matches (Star r) u \<Longrightarrow> matches (LazyStar r) u"

inductive_cases matches_EpsE: "matches Eps u"
inductive_cases matches_ClsE: "matches (Cls neg cs) u"
inductive_cases matches_SeqE: "matches (Seq r1 r2) u"
inductive_cases matches_AltE: "matches (Alt r1 r2) u"
inductive_cases matches_LazyE: "matches (LazyStar r) u"

lemma in_alternatives_Star:
  "t \<in> set (alternatives (Star r) s) \<longleftrightarrow> t = s \<or>
     (\<exists>t1 \<in> set (alternatives r s). length t1 < length s \<and> t \<in> set (alternatives (Star r) t1))"
  by (auto simp: alternatives.simps(5) [of r s] split: if_splits)

lemma alternatives_Star_self [simp]: "s \<in> set (alternatives (Star r) s)"
  by (subst in_alternatives_Star) simp

lemma alternatives_Lazy_set: "set (alternatives (LazyStar r) s) = set (alternatives (Star r) s)"
proof (induction s rule: length_induct)
  case (1 s)
  then show ?case
    by (auto simp: alternatives.simps(5) [of r s] alternatives.simps(6) [of r s])
qed

lemma alternatives_sound: "t \<in> set (alternatives r s) \<Longrightarrow> \<exists>u. s = u @ t \<and> matches r u"
proof (induction r s arbitrary: t rule: alternatives.induct)
  case (1 s)
  then show ?case by (auto intro: m_Eps)
next
  case (2 neg cs s)
  then show ?case by (auto intro: m_Cls split: list.splits if_splits)
next
  case (3 r1 r2 s)
  then obtain t1 where t1: "t1 \<in> set (alternatives r1 s)" "t \<in> set (alternatives r2 t1)" by auto
  from "3.IH"(1) [OF t1(1)] "3.IH"(2) [OF t1] show ?case by (force intro: m_Seq)
next
  case (4 r1 r2 s)
  from "4.prems" consider "t \<in> set (alternatives r1 s)" | "t \<in> set (alternatives r2 s)" by auto
  then show ?case using "4.IH" by cases (blast intro: m_Alt1 m_Alt2)+
next
  case (5 r s)
  then consider "t = s"
    | t1 where "t1 \<in> set (alternatives r s)" "length t1 < length s" "t \<in> set (alternatives (Star r) t1)"
    by (subst (asm) in_alternatives_Star) auto
  then show ?case
  proof cases
    case 1
    then show ?thesis by (auto intro: m_StarNil)
  next
    case (2 t1)
    from "5.IH"(1) [OF 2(1)] "5.IH"(2) [OF 2(1,2,3)] show ?thesis by (force intro: m_StarCons)
  qed
next
  case (6 r s)
  then consider "t = s"
    | t1 where "t1 \<in> set (alternatives r s)" "length t1 < length s" "t \<in> set (alternatives (LazyStar r) t1)"
    by (auto simp: alternatives.simps(6) [of r s] split: if_splits)
  then show ?case
  proof cases
    case 1
    then show ?thesis by (auto intro: m_Lazy m_StarNil)
  next
    case (2 t1)
    from "6.IH"(1) [OF 2(1)] "6.IH"(2) [OF 2(1,2,3)] show ?thesis
      by (force intro: m_Lazy m_StarCons elim: matches_LazyE)
  qed
qed

lemma alternatives_Star_shrink:
  assumes "matches r' u" and "r' = Star r"
    and "\<And>v t. matches r v \<Longrightarrow> t \<in> set (alternatives r (v @ t))"
  shows "t \<in> set (alternatives (Star r) (u @ t))"
  using assms(1,2)
proof (induction rule: matches.induct)
  case (m_StarCons r'' u v)
  show ?case
  proof (cases u)
    case Nil
    with m_StarCons show ?thesis by simp
  next
    case (Cons c u')
    have "v @ t \<in> set (alternatives r (u @ v @ t))"
      using m_StarCons assms(3) by auto
    moreover have "t \<in> set (alternatives (Star r) (v @ t))" using m_StarCons by simp
    ultimately show ?thesis
      using Cons by (subst in_alternatives_Star) (auto intro!: bexI [of _ "v @ t"])
  qed
qed auto

lemma alternatives_complete: "matches r u \<Longrightarrow> t \<in> set (alternatives r (u @ t))"
proof (induction r arbitrary: u t)
  case (Seq r1 r2)
  then show ?case by (force elim: matches_SeqE)
next
  case (Star r)
  then show ?case using alternatives_Star_shrink by blast
next
  case (LazyStar r)
  then show ?case using alternatives_Star_shrink [OF _ refl] alternatives_Lazy_set by (blast elim: matches_LazyE)
qed (auto elim: matches_EpsE matches_ClsE matches_AltE)

lemma alternatives_iff: "t \<in> set (alternatives r s) \<longleftrightarrow> (\<exists>u. s = u @ t \<and> matches r u)"
  using alternatives_sound alternatives_complete by blast

lemma MatchString_iff: "regexp_MatchString r s \<longleftrightarrow> (\<exists>a u b. s = a @ u @ b \<and> matches r u)"
proof -
  have "alternatives r t \<noteq> [] \<longleftrightarrow> (\<exists>b. b \<in> set (alternatives r t))" for t
    by (cases "alternatives r t") auto
  then have ne: "alternatives r t \<noteq> [] \<longleftrightarrow> (\<exists>u b. t = u @ b \<and> matches r u)" for t
    by (auto simp: alternatives_iff)
  show ?thesis
    unfolding regexp_MatchString_def list_ex_iff ne
  proof (safe)
    fix t u b
    assume "u @ b \<in> set (suffixes s)" and "matches r u"
    then show "\<exists>a u b. s = a @ u @ b \<and> matches r u" by (auto simp: suffix_def)
  next
    fix a u b
    assume "matches r u"
    then show "\<exists>t \<in> set (suffixes (a @ u @ b)). \<exists>u b. t = u @ b \<and> matches r u"
      by (intro bexI [of _ "u @ b"]) (auto simp: suffix_def)
  qed
qed

section \<open>Case folding\<close>

text \<open>Every byte class of the expression treats the two ASCII cases of a letter alike.\<close>

fun case_blind :: "rx \<Rightarrow> bool" where
  "case_blind Eps = True"
| "case_blind (Cls neg cs) \<longleftrightarrow> (\<forall>c. to_lower c \<in> set cs \<longleftrightarrow> c \<in> set cs)"
| "case_blind (Seq r1 r2) \<longleftrightarrow> case_blind r1 \<and> case_blind r2"
| "case_blind (Alt r1 r2) \<longleftrightarrow> case_blind r1 \<and> case_blind r2"
| "case_blind (Star r) = case_blind r"
| "case_blind (LazyStar r) = case_blind r"

lemma alternatives_fold:
  "case_blind r \<Longrightarrow> alternatives r (map to_lower s) = map (map to_lower) (alternatives r s)"
proof (induction r s rule: alternatives.induct)
  case (2 neg cs s)
  then show ?case by (cases s) (auto simp: cls_ok_def)
next
  case (3 r1 r2 s)
  then have "map (\<lambda>t. alternatives r2 (map to_lower t)) (alternatives r1 s)
      = map (\<lambda>t. map (map to_lower) (alternatives r2 t)) (alternatives r1 s)"
    by (auto intro!: map_cong)
  with 3 show ?case by (simp add: map_concat comp_def del: map_eq_conv)
next
  case (5 r s)
  have "map (\<lambda>t. if length t < length s then alternatives (Star r) (map to_lower t) else [])
        (alternatives r s)
      = map (\<lambda>t. map (map to_lower) (if length t < length s then alternatives (Star r) t else []))
        (alternatives r s)"
    using 5 by (auto intro!: map_cong)
  then show ?case
    using "5.IH"(1) "5.prems"
    by (simp add: map_concat comp_def del: map_eq_conv
        add: alternatives.simps(5) [of r s] alternatives.simps(5) [of r "map to_lower s"])
next
  case (6 r s)
  have "map (\<lambda>t. if length t < length s then alternatives (LazyStar r) (map to_lower t) else [])
        (alternatives r s)
      = map (\<lambda>t. map (map to_lower) (if length t < length s then alternatives (LazyStar r) t else []))
        (alternatives r s)"
    using 6 by (auto intro!: map_cong)
  then show ?case
    using "6.IH"(1) "6.prems"
    by (simp add: map_concat comp_def del: map_eq_conv
        add: alternatives.simps(6) [of r s] alternatives.simps(6) [of r "map to_lower s"])
qed auto

lemma suffixes_map: "suffixes (map f s) = map (map f) (suffixes s)"
  by (induction s) auto

lemma MatchString_fold:
  "case_blind r \<Longrightarrow> regexp_MatchString r (map to_lower s) = regexp_MatchString r s"
  by (simp add: regexp_MatchString_def suffixes_map alternatives_fold list_ex_iff)

lemma case_blind_derived [simp]:
  "case_blind (Opt r) = case_blind r"
  "case_blind (Plus r) = case_blind r"
  by (auto simp: Opt_def Plus_def)

lemma case_blind_UpTo [simp]: "case_blind r \<Longrightarrow> case_blind (UpTo n r)"
  by (induction n) auto

lemma case_blind_Seqs [simp]: "case_blind (Seqs rs) = (\<forall>r \<in> set rs. case_blind r)"
  by (induction rs rule: Seqs.induct) auto

lemma case_blind_Alts [simp]: "case_blind (Alts rs) = (\<forall>r \<in> set rs. case_blind r)"
  by (induction rs rule: Alts.induct) auto

lemma val_to_lower: "byte_val (to_lower c) = (if is_upper c then byte_val c + 32 else byte_val c)"
  by (auto simp: to_lower_def is_upper_def)

lemma val_to_upper: "byte_val (to_upper c) = (if is_lower c then byte_val c - 32 else byte_val c)"
  using byte_val_range [of c] by (auto simp: to_upper_def is_lower_def)

lemma to_lower_pair:
  "(to_lower c = to_lower d \<or> to_lower c = to_upper d) \<longleftrightarrow> (c = to_lower d \<or> c = to_upper d)"
  by (auto simp: byte_eq_iff val_to_lower val_to_upper is_upper_def is_lower_def split: if_splits)

lemma to_lower_byte: "128 \<le> n \<Longrightarrow> n < 256 \<Longrightarrow> to_lower c = byte_of n \<longleftrightarrow> c = byte_of n"
  by (auto simp: byte_eq_iff val_to_lower is_upper_def split: if_splits)

lemma case_blind_pair: "case_blind (Cls False [to_lower c, to_upper c])"
  using to_lower_pair [of _ c] by simp

lemma case_blind_byte: "128 \<le> n \<Longrightarrow> n < 256 \<Longrightarrow> case_blind (byte n)"
  by (simp add: byte_def to_lower_byte)

lemma case_blind_fold_char [simp]: "case_blind (fold_char c)"
proof -
  have "case_blind (Alt (Cls False [to_lower c, to_upper c]) (Seqs [byte 226, byte 132, byte 170]))"
    and "case_blind (Alt (Cls False [to_lower c, to_upper c]) (Seqs [byte 197, byte 191]))"
    using case_blind_pair [of c] by (simp_all add: case_blind_byte del: case_blind.simps(2))
  then show ?thesis
    unfolding fold_char_def Let_def using case_blind_pair [of c] by presburger
qed

lemma case_blind_Word [simp]: "case_blind (Word_ci w)"
  by (simp add: Word_ci_def)

lemma case_blind_Space [simp]: "case_blind Space"
proof -
  have "to_lower c = byte_of n \<longleftrightarrow> c = byte_of n" if "0 \<le> n" "n < 65" for c n
    using that by (auto simp: byte_eq_iff val_to_lower is_upper_def split: if_splits)
  moreover have "CHR '' '' = byte_of 32" by code_simp
  ultimately show ?thesis by (simp add: Space_def)
qed

end
