(* ===== verification/Injection.thy ===== *)
theory Injection
  imports Regex
begin

text \<open>
  \<open>src/internal/domain/injection.go\<close>: the heuristic that looks for prompt injections in the text
  of a finding. The patterns are the source's, all under \<open>(?i)\<close>.
\<close>

section \<open>Model\<close>

definition Words :: "string list \<Rightarrow> rx" where
  "Words ws = Alts (map Word_ci ws)"

text \<open>A word with an optional final \<open>s\<close>.\<close>

definition Plural :: "string \<Rightarrow> rx" where
  "Plural w = Seq (Word_ci w) (Opt (fold_char (CHR ''s'')))"

definition injectionPatterns :: "rx list" where
  "injectionPatterns =
     [Seqs [Words [''ignore'', ''disregard'', ''forget''], UpTo 10 Space,
            Opt (Seq (Word_ci ''all'') (Plus Space)),
            Words [''previous'', ''prior'', ''above'', ''earlier''], Plus Space,
            Alts [Plural ''instruction'', Plural ''rule'', Plural ''prompt'', Word_ci ''context'']],
      Seqs [Word_ci ''you'', Plus Space, Word_ci ''are'', Plus Space, Word_ci ''now'', Plus Space,
            Opt (Seq (Word_ci ''in'') (Plus Space)), Opt (Seq (Word_ci ''a'') (Plus Space)),
            Words [''different'', ''new'', ''maintenance'', ''admin'', ''root'', ''debug''],
            Plus Space, Word_ci ''mode''],
      Seqs [Words [''override'', ''bypass'', ''disable''], Plus Space,
            Opt (Seq (Word_ci ''all'') (Plus Space)), Opt (Seq (Word_ci ''hard'') (Plus Space)),
            Plural ''rule''],
      Seqs [Word_ci ''system'', Star Space, Word_ci '':'', Star Space,
            Alts [Seqs [Word_ci ''you'', Plus Space, Word_ci ''are''],
                  Seqs [Word_ci ''act'', Plus Space, Word_ci ''as''],
                  Seqs [Word_ci ''behave'', Plus Space, Word_ci ''as'']]],
      Seqs [Word_ci ''stop'', Plus Space, Words [''following'', ''obeying''], Plus Space,
            Opt (Seq (Words [''the'', ''these'', ''all'']) (Plus Space)),
            Alts [Plural ''rule'', Plural ''instruction'', Plural ''guideline'', Plural ''prompt'']]]"

definition DetectInjection :: "string \<Rightarrow> bool" where
  "DetectInjection text = list_ex (\<lambda>p. regexp_MatchString p text) injectionPatterns"

section \<open>Properties\<close>

lemma injectionPatterns_case_blind: "\<forall>p \<in> set injectionPatterns. case_blind p"
  by (simp add: injectionPatterns_def Words_def Plural_def)

lemma DetectInjection_iff:
  "DetectInjection text \<longleftrightarrow> (\<exists>p \<in> set injectionPatterns. \<exists>a u b. text = a @ u @ b \<and> matches p u)"
  by (simp add: DetectInjection_def list_ex_iff MatchString_iff)

lemma DetectInjection_fold: "DetectInjection (map to_lower text) = DetectInjection text"
  using injectionPatterns_case_blind by (auto simp: DetectInjection_def list_ex_iff MatchString_fold)

lemma DetectInjection_context: "DetectInjection u \<Longrightarrow> DetectInjection (a @ u @ b)"
  unfolding DetectInjection_iff by (metis append.assoc)

lemma DetectInjection_at:
  assumes "i < length injectionPatterns" and "alternatives (injectionPatterns ! i) s \<noteq> []"
  shows "DetectInjection s"
proof -
  have "regexp_MatchString (injectionPatterns ! i) s"
    using assms(2) by (auto simp: regexp_MatchString_def list_ex_iff intro: bexI [of _ s])
  with assms(1) show ?thesis by (auto simp: DetectInjection_def list_ex_iff)
qed

text \<open>
  The reference: the phrases that count as an injection, written as sequences of slots, each slot
  the set of texts that may fill it. A letter is spelled in either case, and for k and s also by
  the letter outside ASCII that folds with it.
\<close>

definition spelled_letter :: "char \<Rightarrow> string set" where
  "spelled_letter c = {[d] |d. to_lower d = c}
     \<union> (if c = CHR ''k'' then {map byte_of [226, 132, 170]} else {})
     \<union> (if c = CHR ''s'' then {map byte_of [197, 191]} else {})"

definition joined :: "string set \<Rightarrow> string set \<Rightarrow> string set" where
  "joined A B = {u @ v |u v. u \<in> A \<and> v \<in> B}"

definition phrase :: "string set list \<Rightarrow> string set" where
  "phrase slots = foldr joined slots {[]}"

definition spelled :: "string \<Rightarrow> string set" where
  "spelled w = phrase (map spelled_letter w)"

definition one_of :: "string list \<Rightarrow> string set" where
  "one_of ws = (\<Union>w \<in> set ws. spelled w)"

definition is_blank :: "char \<Rightarrow> bool" where
  "is_blank c \<longleftrightarrow> byte_val c \<in> {9, 10, 12, 13, 32}"

definition blanks :: "string set" where
  "blanks = {s. list_all is_blank s \<and> s \<noteq> []}"

definition perhaps :: "string set \<Rightarrow> string set" where
  "perhaps A = insert [] A"

definition injection_phrases :: "string set" where
  "injection_phrases =
     phrase [one_of [''ignore'', ''disregard'', ''forget''], {s \<in> perhaps blanks. length s \<le> 10},
             perhaps (phrase [spelled ''all'', blanks]),
             one_of [''previous'', ''prior'', ''above'', ''earlier''], blanks,
             one_of [''instruction'', ''instructions'', ''rule'', ''rules'', ''prompt'', ''prompts'', ''context'']]
     \<union> phrase [spelled ''you'', blanks, spelled ''are'', blanks, spelled ''now'', blanks,
               perhaps (phrase [spelled ''in'', blanks]), perhaps (phrase [spelled ''a'', blanks]),
               one_of [''different'', ''new'', ''maintenance'', ''admin'', ''root'', ''debug''], blanks, spelled ''mode'']
     \<union> phrase [one_of [''override'', ''bypass'', ''disable''], blanks, perhaps (phrase [spelled ''all'', blanks]),
               perhaps (phrase [spelled ''hard'', blanks]), one_of [''rule'', ''rules'']]
     \<union> phrase [spelled ''system'', perhaps blanks, spelled '':'', perhaps blanks,
               phrase [spelled ''you'', blanks, spelled ''are''] \<union> phrase [one_of [''act'', ''behave''], blanks, spelled ''as'']]
     \<union> phrase [spelled ''stop'', blanks, one_of [''following'', ''obeying''], blanks,
               perhaps (phrase [one_of [''the'', ''these'', ''all''], blanks]),
               one_of [''rule'', ''rules'', ''instruction'', ''instructions'', ''guideline'', ''guidelines'', ''prompt'', ''prompts'']]"

subsection \<open>The languages of the patterns\<close>

definition lang :: "rx \<Rightarrow> string set" where
  "lang r = {u. matches r u}"

lemma lang_basic:
  "lang Eps = {[]}" "lang (Seq r1 r2) = joined (lang r1) (lang r2)" "lang (Alt r1 r2) = lang r1 \<union> lang r2"
  "lang (Cls False cs) = {[c] |c. c \<in> set cs}"
  by (auto simp: lang_def joined_def cls_ok_def intro: matches.intros elim: matches_EpsE matches_AltE matches_ClsE)
    (blast elim: matches_SeqE)

lemma joined_simps [simp]:
  "joined A {[]} = A" "joined {[]} A = A" "joined (joined A B) C = joined A (joined B C)"
  "joined (A \<union> B) C = joined A C \<union> joined B C" "joined A (B \<union> C) = joined A B \<union> joined A C" "joined {} A = {}"
  unfolding joined_def by (auto, (metis append.assoc)+)

lemma phrase_simps: "phrase [] = {[]}" "phrase (A # As) = joined A (phrase As)"
  by (simp_all add: phrase_def)

lemma phrase_append: "phrase (As @ Bs) = joined (phrase As) (phrase Bs)"
  by (induction As) (simp_all add: phrase_simps)

lemma lang_Seqs: "lang (Seqs rs) = phrase (map lang rs)"
  by (induction rs rule: Seqs.induct) (simp_all add: phrase_simps lang_basic)

lemma lang_Alts: "lang (Alts rs) = (\<Union>r \<in> set rs. lang r)"
  by (induction rs rule: Alts.induct) (auto simp: lang_basic)

lemma lang_Opt: "lang (Opt r) = perhaps (lang r)"
  by (auto simp: Opt_def lang_basic perhaps_def)

lemma to_lower_pre: "to_lower c = c \<Longrightarrow> d = c \<or> d = to_upper c \<longleftrightarrow> to_lower d = c"
  by (auto simp: byte_eq_iff val_to_lower val_to_upper is_upper_def is_lower_def split: if_splits)

lemma lang_fold_char: "to_lower c = c \<Longrightarrow> lang (fold_char c) = spelled_letter c"
  using to_lower_pre [of c]
  by (auto simp: fold_char_def spelled_letter_def Let_def lang_basic byte_def joined_def lang_Seqs [unfolded phrase_def])

lemma lang_Word: "map to_lower w = w \<Longrightarrow> lang (Word_ci w) = spelled w"
  by (induction w) (simp_all add: Word_ci_def spelled_def lang_Seqs phrase_simps lang_fold_char lang_basic)


lemma lang_Words: "list_all (\<lambda>w. map to_lower w = w) ws \<Longrightarrow> lang (Words ws) = one_of ws"
  by (auto simp: Words_def lang_Alts one_of_def list_all_iff lang_Word [symmetric])

lemma lang_Plural: "map to_lower w = w \<Longrightarrow> lang (Plural w) = spelled w \<union> spelled (w @ ''s'')"
proof -
  assume w: "map to_lower w = w"
  have s: "to_lower (CHR ''s'') = CHR ''s''" by code_simp
  have "lang (Plural w) = joined (spelled w) (perhaps (spelled_letter (CHR ''s'')))"
    by (simp only: Plural_def lang_basic lang_Opt lang_Word [OF w] lang_fold_char [OF s])
  also have "\<dots> = spelled w \<union> joined (spelled w) (spelled_letter (CHR ''s''))"
    by (auto simp: perhaps_def joined_def)
  also have "joined (spelled w) (spelled_letter (CHR ''s'')) = spelled (w @ ''s'')"
    by (simp add: spelled_def phrase_append phrase_simps)
  finally show ?thesis .
qed

lemma lang_Space: "lang Space = {[c] |c. is_blank c}"
proof -
  have "c \<in> set [byte_of 9, byte_of 10, byte_of 12, byte_of 13, CHR '' ''] \<longleftrightarrow> is_blank c" for c
    by (auto simp: is_blank_def byte_eq_iff) (auto simp: byte_val_def)
  then show ?thesis unfolding Space_def lang_basic by blast
qed

lemma joined_char: "joined {[c] |c. P c} A = {c # v |c v. P c \<and> v \<in> A}"
  unfolding joined_def by (auto, metis append_Cons append_Nil)

lemma lang_Star_Space: "lang (Star Space) = perhaps blanks"
proof -
  have "list_all is_blank s" if "matches r s" "r = Star Space" for r s
    using that by (induction rule: matches.induct) (use lang_Space [THEN eqset_imp_iff] in \<open>auto simp: lang_def\<close>)
  moreover have "matches (Star Space) s" if "list_all is_blank s" for s
    using that
  proof (induction s)
    case (Cons c s)
    then have "matches Space [c]" using lang_Space by (auto simp: lang_def)
    with Cons m_StarCons [of Space "[c]" s] show ?case by simp
  qed (rule m_StarNil)
  ultimately show ?thesis by (auto simp: lang_def perhaps_def blanks_def)
qed

lemma blanks_Cons: "blanks = {c # v |c v. is_blank c \<and> v \<in> perhaps blanks}"
proof -
  have "s \<in> blanks \<longleftrightarrow> (\<exists>c v. s = c # v \<and> is_blank c \<and> v \<in> perhaps blanks)" for s
    by (cases s) (auto simp: blanks_def perhaps_def)
  then show ?thesis by blast
qed

lemma lang_Plus_Space: "lang (Plus Space) = blanks"
  unfolding Plus_def lang_basic lang_Space lang_Star_Space joined_char blanks_Cons [symmetric] ..

lemma lang_UpTo_Space: "lang (UpTo n Space) = {s \<in> perhaps blanks. length s \<le> n}"
proof (induction n)
  case 0
  then show ?case by (auto simp: lang_basic perhaps_def)
next
  case (Suc n)
  have "s \<in> lang (UpTo (Suc n) Space) \<longleftrightarrow> s \<in> perhaps blanks \<and> length s \<le> Suc n" for s
    unfolding UpTo.simps lang_Opt lang_basic Suc lang_Space joined_char
    by (cases s) (auto simp: perhaps_def blanks_def)
  then show ?case by blast
qed

lemmas lang_simps = lang_Seqs lang_Alts lang_Opt lang_Word lang_Words lang_Plural lang_Plus_Space lang_Star_Space
  lang_UpTo_Space

lemma to_lower_literals:
  "to_lower (CHR ''a'') = CHR ''a''" "to_lower (CHR ''b'') = CHR ''b''" "to_lower (CHR ''c'') = CHR ''c''" "to_lower (CHR ''d'') = CHR ''d''"
  "to_lower (CHR ''e'') = CHR ''e''" "to_lower (CHR ''f'') = CHR ''f''" "to_lower (CHR ''g'') = CHR ''g''" "to_lower (CHR ''h'') = CHR ''h''"
  "to_lower (CHR ''i'') = CHR ''i''" "to_lower (CHR ''j'') = CHR ''j''" "to_lower (CHR ''k'') = CHR ''k''" "to_lower (CHR ''l'') = CHR ''l''"
  "to_lower (CHR ''m'') = CHR ''m''" "to_lower (CHR ''n'') = CHR ''n''" "to_lower (CHR ''o'') = CHR ''o''" "to_lower (CHR ''p'') = CHR ''p''"
  "to_lower (CHR ''q'') = CHR ''q''" "to_lower (CHR ''r'') = CHR ''r''" "to_lower (CHR ''s'') = CHR ''s''" "to_lower (CHR ''t'') = CHR ''t''"
  "to_lower (CHR ''u'') = CHR ''u''" "to_lower (CHR ''v'') = CHR ''v''" "to_lower (CHR ''w'') = CHR ''w''" "to_lower (CHR ''x'') = CHR ''x''"
  "to_lower (CHR ''y'') = CHR ''y''" "to_lower (CHR ''z'') = CHR ''z''" "to_lower (CHR '':'') = CHR '':''"
  by code_simp+

lemma lang_injectionPatterns: "(\<Union>p \<in> set injectionPatterns. lang p) = injection_phrases"
  unfolding injectionPatterns_def injection_phrases_def
  by (simp add: lang_simps lang_basic to_lower_literals) (simp add: one_of_def phrase_simps Un_assoc)

text \<open>
  C33. The check finds exactly the listed phrases: it answers yes if and only if some part of the
  text is one of the injection phrases, in any mix of upper and lower case, with any white space
  where the phrase has white space, but at most ten blanks after \<open>ignore\<close>, \<open>disregard\<close> or \<open>forget\<close>.
\<close>

theorem DetectInjection_phrases:
  "DetectInjection text \<longleftrightarrow> (\<exists>a u b. text = a @ u @ b \<and> u \<in> injection_phrases)"
  unfolding DetectInjection_iff lang_injectionPatterns [symmetric] by (auto simp: lang_def)

text \<open>
  An injection is not hidden by changing the case of its letters or by surrounding it with
  other text: whatever equals a detected text up to ASCII case is detected in every context.
\<close>

theorem injection_not_hidden:
  assumes "DetectInjection u" and "map to_lower v = map to_lower u"
  shows "DetectInjection (a @ v @ b)"
proof (rule DetectInjection_context)
  from assms DetectInjection_fold [of u] have "DetectInjection (map to_lower v)" by simp
  then show "DetectInjection v" by (simp only: DetectInjection_fold)
qed

theorem injection_not_hidden_witness:
  "DetectInjection (''x '' @ ''SYSTEM: Act AS'' @ '' y'')"
proof -
  have "alternatives (injectionPatterns ! 3) ''system: act as'' \<noteq> []" by code_simp
  then have d: "DetectInjection ''system: act as''"
    by (rule DetectInjection_at [rotated]) (simp add: injectionPatterns_def)
  have l: "map to_lower ''SYSTEM: Act AS'' = map to_lower ''system: act as''" by code_simp
  show ?thesis by (rule injection_not_hidden [OF d l])
qed

end
