(* ===== verification/Provider.thy ===== *)
theory Provider
  imports Cluster Fingerprint Injection
begin

text \<open>
  The source-provider reconciler (\<open>src/internal/provider/provider.go\<close>): from a watched object to
  a \<open>RemediationJob\<close>. The method \<open>Reconcile\<close> is the composition of its stages in source order;
  a stage either returns an outcome, which ends the reconcile, or lets it continue.

  The source provider (\<open>domain.SourceProvider\<close>), the readiness checker, the sink closer and the
  merge checker are interfaces the reconciler is given; they are fields of its record.
\<close>

section \<open>The reconciler\<close>

record ('w, 'o) SourceProviderReconciler =
  spEnv :: "'w env"
  spCfg :: Config
  ProviderName :: string
  get_source :: "NamespacedName \<Rightarrow> 'w \<Rightarrow> (api_error + 'o) \<times> 'w"
  GetAnnotations :: "'o \<Rightarrow> (string \<rightharpoonup> string)"
  ExtractFinding :: "'o \<Rightarrow> 'w \<Rightarrow> (goerr + Finding option) \<times> 'w"
  hasRecorder :: bool
  ReadinessChecker :: "('w \<Rightarrow> goerr option \<times> 'w) option"
  SinkCloser :: "(RemediationJob \<Rightarrow> string \<Rightarrow> 'w \<Rightarrow> goerr option \<times> 'w) option"
  PRMergeChecker :: "(SinkRef \<Rightarrow> 'w \<Rightarrow> (goerr + bool) \<times> 'w) option"

definition ReadinessCacheTTL :: duration where
  "ReadinessCacheTTL = 60 * Second"

definition suppressed :: "string \<Rightarrow> ('w, unit) prog" where
  "suppressed reason = emit (Metric (RecordSuppressed reason))"

subsection \<open>First seen\<close>

definition initFirstSeen :: "('w, 'o) SourceProviderReconciler \<Rightarrow> ('w, BoundedMap) prog" where
  "initFirstSeen r = do {
     m \<leftarrow> get_firstSeen;
     case m of
       Some m \<Rightarrow> ret m
     | None \<Rightarrow>
         (let ttl = int64 (StabilisationWindow (spCfg r) * 2);
              ttl = (if ttl = 0 then Hour else ttl)
          in do {
               t \<leftarrow> Now (spEnv r);
               set_firstSeen (NewBoundedMap 1000 ttl 0 t);
               ret (NewBoundedMap 1000 ttl 0 t) }) }"

definition clear_firstSeen :: "('w, 'o) SourceProviderReconciler \<Rightarrow> BoundedMap \<Rightarrow> ('w, unit) prog" where
  "clear_firstSeen r m = do {
     t \<leftarrow> Now (spEnv r);
     set_firstSeen (BoundedMap_Clear m t) }"

subsection \<open>Closing sinks\<close>

definition close_reason :: "RemediationJob \<Rightarrow> string" where
  "close_reason j =
     ''Closing automatically: the underlying issue ('' @ fsKind (rjFinding j) @ ''/'' @ fsName (rjFinding j)
       @ '' '' @ fsNamespace (rjFinding j) @ '') has resolved. No manual fix is required.''"

definition Close :: "(RemediationJob \<Rightarrow> string \<Rightarrow> 'w \<Rightarrow> goerr option \<times> 'w) \<Rightarrow> RemediationJob \<Rightarrow> ('w, unit) prog" where
  "Close closer j = do {
     er \<leftarrow> outside (closer j (close_reason j));
     emit (CloseSink j (close_reason j) er) }"

definition from_source :: "NamespacedName \<Rightarrow> RemediationJob \<Rightarrow> bool" where
  "from_source req j \<longleftrightarrow>
     rrName (spSourceResultRef (rjSpec j)) = nnName req
     \<and> rrNamespace (spSourceResultRef (rjSpec j)) = nnNamespace req"

fun autoCloseSucceededSinks ::
    "(RemediationJob \<Rightarrow> string \<Rightarrow> 'w \<Rightarrow> goerr option \<times> 'w) \<Rightarrow> NamespacedName \<Rightarrow> RemediationJob list \<Rightarrow>
     ('w, unit) prog" where
  "autoCloseSucceededSinks closer req [] = ret ()"
| "autoCloseSucceededSinks closer req (j # js) =
     (if \<not> from_source req j then autoCloseSucceededSinks closer req js
      else if rjPhase j \<noteq> PhaseSucceeded \<or> rjSinkURL j = '''' then autoCloseSucceededSinks closer req js
      else do { Close closer j; autoCloseSucceededSinks closer req js })"

subsection \<open>The source object is gone\<close>

definition cancellable :: "RemediationJobPhase \<Rightarrow> bool" where
  "cancellable phase \<longleftrightarrow>
     \<not> (phase \<noteq> PhasePending \<and> phase \<noteq> PhaseDispatched \<and> phase \<noteq> PhaseRunning
        \<and> phase \<noteq> PhaseSuppressed \<and> phase \<noteq> PhaseBlank)"

text \<open>Cancelling one job: the object as it is left in the list, and the error to report.\<close>

definition cancel_job ::
    "('w, 'o) SourceProviderReconciler \<Rightarrow> RemediationJob \<Rightarrow> ('w, RemediationJob \<times> api_error option) prog" where
  "cancel_job r j = do {
     (if PRAutoClose (spCfg r) \<and> rjSinkURL j \<noteq> ''''
      then (case SinkCloser r of None \<Rightarrow> ret () | Some closer \<Rightarrow> Close closer j)
      else ret ());
     let j' = upd_status (\<lambda>st. st\<lparr>stPhase := PhaseCancelled\<rparr>) j;
     p \<leftarrow> Patch_status (spEnv r) j' (RemediationJob_DeepCopyInto j);
     let j'' = (case p of Inr server \<Rightarrow> server | Inl _ \<Rightarrow> j');
     if failed (err_of p) then ret (j'', err_of p)
     else do {
       d \<leftarrow> Delete_rjob (spEnv r) j'';
       if failed d then ret (j'', d)
       else do {
         record_event (hasRecorder r) (OnRJob (rjName j'')) ''Normal'' ''SourceDeleted''
           ''Source object deleted; investigation cancelled'';
         ret (j'', None) } } }"

fun cancel_loop ::
    "('w, 'o) SourceProviderReconciler \<Rightarrow> NamespacedName \<Rightarrow> RemediationJob list \<Rightarrow>
     ('w, RemediationJob list \<times> api_error list) prog" where
  "cancel_loop r req [] = ret ([], [])"
| "cancel_loop r req (j # js) =
     (if \<not> from_source req j \<or> \<not> cancellable (rjPhase j)
      then do { (js', ers) \<leftarrow> cancel_loop r req js; ret (j # js', ers) }
      else do {
        (j', er) \<leftarrow> cancel_job r j;
        (js', ers) \<leftarrow> cancel_loop r req js;
        ret (j' # js', (case er of None \<Rightarrow> ers | Some x \<Rightarrow> x # ers)) })"

definition on_source_gone ::
    "('w, 'o) SourceProviderReconciler \<Rightarrow> BoundedMap \<Rightarrow> NamespacedName \<Rightarrow> ('w, outcome) prog" where
  "on_source_gone r m req = do {
     clear_firstSeen r m;
     l \<leftarrow> outside (list_rjobs (spEnv r) (AgentNamespace (spCfg r)) []);
     case l of
       Inl er \<Rightarrow> ret (fail (Api er))
     | Inr items \<Rightarrow> do {
         (items', ers) \<leftarrow> cancel_loop r req items;
         if ers \<noteq> [] then ret (fail (Wrapped ''cancelling RemediationJobs'' (Joined (map Api ers))))
         else do {
           (case (PRAutoClose (spCfg r), SinkCloser r) of
              (True, Some closer) \<Rightarrow> autoCloseSucceededSinks closer req items'
            | _ \<Rightarrow> ret ());
           ret finish } } }"

subsection \<open>The finding is cleared\<close>

definition on_finding_cleared ::
    "('w, 'o) SourceProviderReconciler \<Rightarrow> BoundedMap \<Rightarrow> NamespacedName \<Rightarrow> ('w, outcome) prog" where
  "on_finding_cleared r m req = do {
     clear_firstSeen r m;
     record_event (hasRecorder r) OnSource ''Normal'' ''FindingCleared''
       ''Finding cleared; no active finding on this object'';
     (case (PRAutoClose (spCfg r), SinkCloser r) of
        (True, Some closer) \<Rightarrow> do {
          l \<leftarrow> outside (list_rjobs (spEnv r) (AgentNamespace (spCfg r)) []);
          case l of Inr items \<Rightarrow> autoCloseSucceededSinks closer req items | Inl _ \<Rightarrow> ret () }
      | _ \<Rightarrow> ret ());
     ret finish }"

subsection \<open>Gates on the finding\<close>

definition injection_gate :: "('w, 'o) SourceProviderReconciler \<Rightarrow> string \<Rightarrow> ('w, outcome option) prog" where
  "injection_gate r text =
     (if DetectInjection text \<and> InjectionDetectionAction (spCfg r) = ''suppress''
      then do { suppressed ''injection_detected''; ret (Some finish) }
      else ret None)"

definition namespace_allowed :: "Config \<Rightarrow> string \<Rightarrow> bool" where
  "namespace_allowed cfg ns \<longleftrightarrow>
     (WatchNamespaces cfg \<noteq> [] \<longrightarrow> ns \<in> set (WatchNamespaces cfg)) \<and> ns \<notin> set (ExcludeNamespaces cfg)"

definition namespace_gate :: "('w, 'o) SourceProviderReconciler \<Rightarrow> Finding \<Rightarrow> ('w, outcome option) prog" where
  "namespace_gate r f =
     (if fNamespace f = '''' then ret None
      else if WatchNamespaces (spCfg r) \<noteq> [] \<and> fNamespace f \<notin> set (WatchNamespaces (spCfg r))
      then ret (Some finish)
      else if fNamespace f \<in> set (ExcludeNamespaces (spCfg r)) then ret (Some finish)
      else do {
        ns \<leftarrow> outside (get_namespace (spEnv r) (fNamespace f));
        case ns of
          Inl er \<Rightarrow>
            if \<not> IsNotFound er
            then ret (Some (fail (Wrapped (''fetching namespace '' @ fNamespace f) (Api er))))
            else ret None
        | Inr annotations \<Rightarrow> do {
            t \<leftarrow> Now (spEnv r);
            if ShouldSkip annotations t then ret (Some finish) else ret None } })"

definition min_severity :: "Config \<Rightarrow> Severity" where
  "min_severity cfg = (if MinSeverity cfg = '''' then SeverityLow else MinSeverity cfg)"

definition severity_gate :: "('w, 'o) SourceProviderReconciler \<Rightarrow> Finding \<Rightarrow> ('w, outcome option) prog" where
  "severity_gate r f =
     (if \<not> MeetsSeverityThreshold (fSeverity f) (min_severity (spCfg r))
      then do { suppressed ''min_severity''; ret (Some finish) }
      else ret None)"

definition self_remediation_gate ::
    "('w, 'o) SourceProviderReconciler \<Rightarrow> Finding \<Rightarrow> ('w, outcome option) prog" where
  "self_remediation_gate r f =
     (if fChainDepth f > 0 then
        (let maxDepth = SelfRemediationMaxDepth (spCfg r) in
         if maxDepth = 0 \<or> fChainDepth f > maxDepth
         then do { suppressed ''self_remediation_depth''; ret (Some finish) }
         else do {
           cb \<leftarrow> get_breaker;
           case cb of
             None \<Rightarrow> ret None
           | Some b \<Rightarrow> do {
               n1 \<leftarrow> Now (spEnv r);
               n2 \<leftarrow> Now (spEnv r);
               case CircuitBreaker_ShouldAllow b n1 n2 of
                 ((allowed, remaining), b') \<Rightarrow> do {
                   set_breaker b';
                   if \<not> allowed then do {
                     suppressed ''circuit_breaker'';
                     emit (Metric RecordCircuitBreakerActivation);
                     ret (Some (requeue_after remaining, None)) }
                   else ret None } } })
      else ret None)"

subsection \<open>Fingerprint and stabilisation window\<close>

definition fingerprint_of :: "Finding \<Rightarrow> goerr + string" where
  "fingerprint_of f =
     (case FindingFingerprint f of
        Inl er \<Rightarrow> Inl (Wrapped ''computing fingerprint'' er)
      | Inr fp \<Rightarrow>
          if length fp < 12
          then Inl (Msg (''fingerprint too short: got '' @ int_to_dec (int (length fp)) @
                 '' chars, need at least 12''))
          else Inr fp)"

definition stabilisation_gate ::
    "('w, 'o) SourceProviderReconciler \<Rightarrow> BoundedMap \<Rightarrow> (string \<rightharpoonup> string) \<Rightarrow> string \<Rightarrow> ('w, outcome option) prog" where
  "stabilisation_gate r m annotations fp =
     (let priorityCritical = (map_get annotations AnnotationPriority = ''critical'');
          window = StabilisationWindow (spCfg r) in
      if \<not> priorityCritical \<and> window \<noteq> 0 then do {
        n1 \<leftarrow> Now (spEnv r);
        n2 \<leftarrow> Now (spEnv r);
        case BoundedMap_Get m fp n1 n2 of
          None \<Rightarrow> do {
            t0 \<leftarrow> Now (spEnv r);
            t1 \<leftarrow> Now (spEnv r);
            t2 \<leftarrow> Now (spEnv r);
            t3 \<leftarrow> Now (spEnv r);
            set_firstSeen (fst (BoundedMap_Set (map_order (spEnv r)) m fp t0 t1 t2 t3));
            suppressed ''stabilisation_window'';
            ret (Some (requeue_after window, None)) }
        | Some first \<Rightarrow> do {
            t \<leftarrow> Now (spEnv r);
            let elapsed = time_Sub t first;
            if elapsed < window then do {
              suppressed ''stabilisation_window'';
              ret (Some (requeue_after (int64 (window - elapsed)), None)) }
            else ret None } }
      else ret None)"

subsection \<open>Deduplication\<close>

definition duplicate :: "('w, 'o) SourceProviderReconciler \<Rightarrow> string \<Rightarrow> string \<Rightarrow> ('w, outcome) prog" where
  "duplicate r name why = do {
     record_event (hasRecorder r) OnSource ''Normal'' ''DuplicateFingerprint''
       (''Existing RemediationJob '' @ name @ '' already covers this finding'' @ why);
     suppressed ''duplicate'';
     ret finish }"

text \<open>\<open>None\<close>: no merge checker, no sink, not merged, or the check failed.\<close>

definition check_merged ::
    "('w, 'o) SourceProviderReconciler \<Rightarrow> RemediationJob \<Rightarrow> ('w, bool) prog" where
  "check_merged r j =
     (if rjSinkURL j \<noteq> '''' then
        (case PRMergeChecker r of
           None \<Rightarrow> ret False
         | Some isMerged \<Rightarrow> do {
             x \<leftarrow> outside (isMerged (stSinkRef (rjStatus j)));
             ret (case x of Inl _ \<Rightarrow> False | Inr merged \<Rightarrow> merged) })
      else ret False)"

definition dedup_succeeded ::
    "('w, 'o) SourceProviderReconciler \<Rightarrow> RemediationJob \<Rightarrow> ('w, outcome) prog" where
  "dedup_succeeded r j =
     (if stPRMerged (rjStatus j) then duplicate r (rjName j) '' (PR merged)''
      else do {
        merged \<leftarrow> check_merged r j;
        if merged then do {
          t \<leftarrow> Now (spEnv r);
          let j' = upd_status (\<lambda>st. st\<lparr>stPRMerged := True, stPRMergedAt := Some t\<rparr>) j;
          p \<leftarrow> Patch_status (spEnv r) j' (RemediationJob_DeepCopyInto j);
          let j'' = (case p of Inr server \<Rightarrow> server | Inl _ \<Rightarrow> j');
          duplicate r (rjName j'') '' (PR just merged)'' }
        else do {
          within \<leftarrow> (case stCompletedAt (rjStatus j) of
             None \<Rightarrow> ret False
           | Some c \<Rightarrow> do { t \<leftarrow> Now (spEnv r); ret (time_Sub t c < short_ttl (spCfg r)) });
          if within then duplicate r (rjName j) '' (within short TTL)''
          else do {
            d \<leftarrow> Delete_rjob (spEnv r) j;
            case d of
              Some er \<Rightarrow> if \<not> IsNotFound er
                then ret (fail (Wrapped ''deleting expired tombstone'' (Api er)))
                else ret (requeue_now, None)
            | None \<Rightarrow> ret (requeue_now, None) } } })"

fun dedup_loop ::
    "('w, 'o) SourceProviderReconciler \<Rightarrow> string \<Rightarrow> RemediationJob list \<Rightarrow> ('w, outcome option) prog" where
  "dedup_loop r fp [] = ret None"
| "dedup_loop r fp (j # js) =
     (if rjFingerprint j \<noteq> fp then dedup_loop r fp js
      else case rjPhase j of
          PhasePermanentlyFailed \<Rightarrow> do {
            record_event (hasRecorder r) OnSource ''Warning'' ''RemediationJobPermanentlyFailed''
              (''RemediationJob '' @ rjName j @ '' is permanently failed after '' @
               int_to_dec (stRetryCount (rjStatus j)) @ '' retries'');
            suppressed ''permanently_failed'';
            ret (Some finish) }
        | PhaseFailed \<Rightarrow> do {
            d \<leftarrow> Delete_rjob (spEnv r) j;
            case d of
              Some er \<Rightarrow> if \<not> IsNotFound er then ret (Some (fail (Api er))) else dedup_loop r fp js
            | None \<Rightarrow> dedup_loop r fp js }
        | PhaseSucceeded \<Rightarrow> do { out \<leftarrow> dedup_succeeded r j; ret (Some out) }
        | _ \<Rightarrow> do { out \<leftarrow> duplicate r (rjName j) ''''; ret (Some out) })"

definition dedup_gate ::
    "('w, 'o) SourceProviderReconciler \<Rightarrow> string \<Rightarrow> ('w, outcome option) prog" where
  "dedup_gate r fp = do {
     l \<leftarrow> outside (list_rjobs (spEnv r) (AgentNamespace (spCfg r))
            [(''remediation.mechanic.io/fingerprint'', take 12 fp)]);
     case l of
       Inl er \<Rightarrow> ret (Some (fail (Api er)))
     | Inr items \<Rightarrow> dedup_loop r fp items }"

subsection \<open>Parent hierarchy and readiness\<close>

definition outranked_by :: "Finding \<Rightarrow> RemediationJob \<Rightarrow> bool" where
  "outranked_by f peer \<longleftrightarrow>
     fsNamespace (rjFinding peer) = fNamespace f
     \<and> fsParentObject (rjFinding peer) = fParentObject f
     \<and> KindHierarchyRank (fsKind (rjFinding peer)) > KindHierarchyRank (fKind f)"

definition parent_gate :: "('w, 'o) SourceProviderReconciler \<Rightarrow> Finding \<Rightarrow> ('w, outcome option) prog" where
  "parent_gate r f =
     (if fParentObject f \<noteq> '''' then do {
        l \<leftarrow> outside (list_rjobs (spEnv r) (AgentNamespace (spCfg r)) managed);
        case l of
          Inl er \<Rightarrow> ret (Some (fail (Wrapped ''parent-hierarchy suppression: listing RemediationJobs'' (Api er))))
        | Inr items \<Rightarrow>
            if list_ex (outranked_by f) items then do {
              suppressed ''parent_hierarchy'';
              ret (Some (requeue_after (30 * Second), None)) }
            else ret None }
      else ret None)"

definition readiness_gate :: "('w, 'o) SourceProviderReconciler \<Rightarrow> ('w, outcome option) prog" where
  "readiness_gate r =
     (case ReadinessChecker r of
        None \<Rightarrow> ret None
      | Some check \<Rightarrow> do {
          er \<leftarrow> outside check;
          ret (if er \<noteq> None then Some (requeue_after ReadinessCacheTTL, None) else None) })"

subsection \<open>Creating the job\<close>

definition new_rjob ::
    "('w, 'o) SourceProviderReconciler \<Rightarrow> NamespacedName \<Rightarrow> Finding \<Rightarrow> string \<Rightarrow> RemediationJob" where
  "new_rjob r req f fp =
     (let cfg = spCfg r;
          agentSA = (if AgentRBACScope cfg = ''namespace'' then ''mechanic-agent-ns'' else AgentSA cfg);
          annotations = [''remediation.mechanic.io/fingerprint-full'' \<mapsto> fp];
          annotations = (if fNodeName f \<noteq> '''' then annotations(NodeNameAnnotation \<mapsto> fNodeName f)
                         else annotations) in
      \<lparr>rjName = ''mechanic-'' @ take 12 fp, rjNamespace = AgentNamespace cfg, rjUID = '''',
       rjCreationTimestamp = 0,
       rjLabels = [''remediation.mechanic.io/fingerprint'' \<mapsto> take 12 fp,
                   ''app.kubernetes.io/managed-by'' \<mapsto> ''mechanic-watcher''],
       rjAnnotations = annotations,
       rjSpec = \<lparr>spSourceResultRef = \<lparr>rrName = nnName req, rrNamespace = nnNamespace req\<rparr>,
         spFingerprint = fp, spSourceType = ProviderName r, spSinkType = SinkType cfg,
         spFinding = \<lparr>fsKind = fKind f, fsName = fName f, fsNamespace = fNamespace f,
           fsParentObject = fParentObject f, fsErrors = fErrors f, fsDetails = fDetails f,
           fsChainDepth = int32 (fChainDepth f)\<rparr>,
         spGitOpsRepo = GitOpsRepo cfg, spGitOpsManifestRoot = GitOpsManifestRoot cfg,
         spAgentImage = AgentImage cfg, spAgentSA = agentSA,
         spMaxRetries = MaxInvestigationRetries cfg, spSeverity = fSeverity f\<rparr>,
       rjStatus = zero_Status\<rparr>)"

definition create_stage ::
    "('w, 'o) SourceProviderReconciler \<Rightarrow> NamespacedName \<Rightarrow> Finding \<Rightarrow> string \<Rightarrow> ('w, outcome) prog" where
  "create_stage r req f fp = do {
     c \<leftarrow> Create_rjob (spEnv r) (new_rjob r req f fp);
     case c of
       Inl er \<Rightarrow>
         if IsAlreadyExists er then ret finish
         else ret (fail (Wrapped ''creating RemediationJob'' (Api er)))
     | Inr _ \<Rightarrow> do {
         emit (Metric (RecordDispatched (fKind f) (fSeverity f)));
         record_event (hasRecorder r) OnSource ''Normal'' ''FindingDetected''
           (''Provider '' @ ProviderName r @ '' detected '' @ fKind f @ ''/'' @ fName f @
            '' in namespace '' @ fNamespace f);
         ret finish } }"

section \<open>Reconcile\<close>

text \<open>Everything that happens once a finding has been extracted.\<close>

definition handle_fingerprint ::
    "('w, 'o) SourceProviderReconciler \<Rightarrow> BoundedMap \<Rightarrow> NamespacedName \<Rightarrow> 'o \<Rightarrow> Finding \<Rightarrow> string \<Rightarrow>
     ('w, outcome) prog" where
  "handle_fingerprint r m req obj f fp =
     gate (stabilisation_gate r m (GetAnnotations r obj) fp)
      (gate (dedup_gate r fp)
        (gate (parent_gate r f)
          (gate (readiness_gate r)
            (create_stage r req f fp))))"

definition handle_finding ::
    "('w, 'o) SourceProviderReconciler \<Rightarrow> BoundedMap \<Rightarrow> NamespacedName \<Rightarrow> 'o \<Rightarrow> Finding \<Rightarrow> ('w, outcome) prog" where
  "handle_finding r m req obj f =
     gate (injection_gate r (fErrors f))
      (gate (injection_gate r (fDetails f))
        (gate (namespace_gate r f)
          (gate (severity_gate r f)
            (gate (self_remediation_gate r f)
              (case fingerprint_of f of
                 Inl er \<Rightarrow> ret (fail er)
               | Inr fp \<Rightarrow> handle_fingerprint r m req obj f fp)))))"

definition Provider_Reconcile ::
    "('w, 'o) SourceProviderReconciler \<Rightarrow> NamespacedName \<Rightarrow> ('w, outcome) prog" where
  "Provider_Reconcile r req = do {
     m \<leftarrow> initFirstSeen r;
     o' \<leftarrow> outside (get_source r req);
     case o' of
       Inl er \<Rightarrow> if \<not> IsNotFound er then ret (fail (Api er)) else on_source_gone r m req
     | Inr obj \<Rightarrow> do {
         x \<leftarrow> outside (ExtractFinding r obj);
         case x of
           Inl er \<Rightarrow> ret (fail er)
         | Inr None \<Rightarrow> on_finding_cleared r m req
         | Inr (Some f) \<Rightarrow> handle_finding r m req obj f } }"

section \<open>Traces of the stages\<close>

definition is_create :: "effect \<Rightarrow> bool" where
  "is_create ef \<longleftrightarrow> (\<exists>j r. ef = CreateRJob j r)"

lemma is_create_simps [simp]:
  "is_create (CreateRJob j x)" "\<not> is_create (PatchStatus b j x)" "\<not> is_create (PatchMeta b j x)"
  "\<not> is_create (DeleteRJob j x)" "\<not> is_create (CreateJob jb x)" "\<not> is_create (DeleteConfigMap n x)"
  "\<not> is_create (CloseSink j m y)" "\<not> is_create (Event su ty re ms)" "\<not> is_create (Metric mt)"
  by (simp_all add: is_create_def)

text \<open>No stage before the last one creates a job.\<close>

lemmas stage_defs = injection_gate_def namespace_gate_def severity_gate_def self_remediation_gate_def
  stabilisation_gate_def parent_gate_def readiness_gate_def suppressed_def

lemma stage_emits:
  assumes "\<And>m. A (Metric m)"
  shows "emits A (injection_gate r t)" "emits A (namespace_gate r f)" "emits A (severity_gate r f)"
    "emits A (self_remediation_gate r f)" "emits A (stabilisation_gate r m an fp)"
    "emits A (parent_gate r f)" "emits A (readiness_gate r)"
  unfolding stage_defs using assms by (intro emits_rules; simp)+

lemma initFirstSeen_emits: "emits A (initFirstSeen r)"
  unfolding initFirstSeen_def by (intro emits_rules)

lemma initFirstSeen_silent: "run_state (initFirstSeen r) s = (m, t) \<Longrightarrow> trace t = trace s"
  by (erule emitsD [OF initFirstSeen_emits [where A = "\<lambda>_. False"]]) (metis append_Nil2 last_in_set)

lemma clear_firstSeen_emits: "emits A (clear_firstSeen r m)"
  unfolding clear_firstSeen_def by (intro emits_rules)

lemma duplicate_emits:
  "(\<And>m. A (Metric m)) \<Longrightarrow> (\<And>ty re ms. A (Event OnSource ty re ms)) \<Longrightarrow> emits A (duplicate r n w)"
  unfolding duplicate_def suppressed_def by (intro emits_rules; simp)

lemma dedup_succeeded_emits:
  assumes "\<And>m. A (Metric m)" and "\<And>ty re ms. A (Event OnSource ty re ms)"
    and "\<And>x t. A (PatchStatus j (upd_status (\<lambda>st. st\<lparr>stPRMerged := True, stPRMergedAt := Some t\<rparr>) j) x)"
    and "\<And>x. A (DeleteRJob j x)"
  shows "emits A (dedup_succeeded r j)"
  unfolding dedup_succeeded_def check_merged_def
  using assms by (intro emits_rules duplicate_emits; simp)


lemma dedup_loop_emits:
  assumes "\<And>m. A (Metric m)" and "\<And>ty re ms. A (Event OnSource ty re ms)"
    and "\<And>j x t. j \<in> set js \<Longrightarrow>
      A (PatchStatus j (upd_status (\<lambda>st. st\<lparr>stPRMerged := True, stPRMergedAt := Some t\<rparr>) j) x)"
    and "\<And>j x. j \<in> set js \<Longrightarrow> rjFingerprint j = fp \<Longrightarrow> rjPhase j \<in> {PhaseFailed, PhaseSucceeded} \<Longrightarrow>
      A (DeleteRJob j x)"
  shows "emits A (dedup_loop r fp js)"
  using assms(3,4)
proof (induction js)
  case (Cons j js)
  then have IH: "emits A (dedup_loop r fp js)" by simp
  show ?case
  proof (cases "rjFingerprint j = fp")
    case fp: True
    have del: "A (DeleteRJob j x)" if "rjPhase j = PhaseFailed \<or> rjPhase j = PhaseSucceeded" for x
      using that fp Cons.prems(2) by auto
    show ?thesis
      using fp del IH assms(1,2) Cons.prems(1)
      by (cases "rjPhase j")
        (auto simp: suppressed_def intro!: emits_rules duplicate_emits dedup_succeeded_emits)
  qed (use IH in simp)
qed (simp add: emits_rules)

lemma dedup_gate_emits:
  assumes "\<And>m. A (Metric m)" and "\<And>ty re ms. A (Event OnSource ty re ms)"
    and "\<And>j x t. A (PatchStatus j (upd_status (\<lambda>st. st\<lparr>stPRMerged := True, stPRMergedAt := Some t\<rparr>) j) x)"
    and "\<And>j x. A (DeleteRJob j x)"
  shows "emits A (dedup_gate r fp)"
  unfolding dedup_gate_def using assms by (intro emits_rules dedup_loop_emits; simp)

lemma Close_emits: "(\<And>m er. A (CloseSink j m er)) \<Longrightarrow> emits A (Close closer j)"
  unfolding Close_def by (intro emits_rules; simp)

lemma autoClose_emits: "(\<And>j m er. A (CloseSink j m er)) \<Longrightarrow> emits A (autoCloseSucceededSinks closer req js)"
  by (induction js) (auto intro!: emits_rules Close_emits)

lemma cancel_job_emits:
  assumes "\<And>m er. A (CloseSink j m er)"
    and "\<And>x. A (PatchStatus j (upd_status (\<lambda>st. st\<lparr>stPhase := PhaseCancelled\<rparr>) j) x)"
    and "\<And>j x. A (DeleteRJob j x)" and "\<And>su ty re ms. A (Event su ty re ms)"
  shows "emits A (cancel_job r j)"
  unfolding cancel_job_def using assms by (intro emits_rules Close_emits; simp)

lemma cancel_loop_emits:
  assumes "\<And>j m er. A (CloseSink j m er)"
    and "\<And>j x. A (PatchStatus j (upd_status (\<lambda>st. st\<lparr>stPhase := PhaseCancelled\<rparr>) j) x)"
    and "\<And>j x. A (DeleteRJob j x)" and "\<And>su ty re ms. A (Event su ty re ms)"
  shows "emits A (cancel_loop r req js)"
  by (induction js) (auto intro!: emits_rules cancel_job_emits assms)

lemma gone_or_cleared_emits:
  assumes "\<And>j m er. A (CloseSink j m er)"
    and "\<And>j x. A (PatchStatus j (upd_status (\<lambda>st. st\<lparr>stPhase := PhaseCancelled\<rparr>) j) x)"
    and "\<And>j x. A (DeleteRJob j x)" and "\<And>su ty re ms. A (Event su ty re ms)"
  shows "emits A (on_source_gone r m req)" and "emits A (on_finding_cleared r m req)"
  unfolding on_source_gone_def on_finding_cleared_def using assms
  by (auto intro!: emits_rules clear_firstSeen_emits cancel_loop_emits autoClose_emits
      split: bool.splits option.splits)

section \<open>Which jobs are created\<close>

definition admissible :: "Config \<Rightarrow> Finding \<Rightarrow> bool" where
  "admissible cfg f \<longleftrightarrow>
     (InjectionDetectionAction cfg = ''suppress'' \<longrightarrow>
        \<not> DetectInjection (fErrors f) \<and> \<not> DetectInjection (fDetails f))
     \<and> (fNamespace f \<noteq> '''' \<longrightarrow> namespace_allowed cfg (fNamespace f))
     \<and> MeetsSeverityThreshold (fSeverity f) (min_severity cfg)
     \<and> (fChainDepth f > 0 \<longrightarrow>
          SelfRemediationMaxDepth cfg \<noteq> 0 \<and> fChainDepth f \<le> SelfRemediationMaxDepth cfg)"

lemma passes_injection:
  "passes (injection_gate r t) (InjectionDetectionAction (spCfg r) = ''suppress'' \<longrightarrow> \<not> DetectInjection t)"
  by (auto simp: passes_def injection_gate_def run_bind split: prod.splits)

lemma passes_namespace:
  "passes (namespace_gate r f) (fNamespace f \<noteq> '''' \<longrightarrow> namespace_allowed (spCfg r) (fNamespace f))"
  by (simp add: passes_def namespace_gate_def namespace_allowed_def)

lemma passes_severity:
  "passes (severity_gate r f) (MeetsSeverityThreshold (fSeverity f) (min_severity (spCfg r)))"
  by (simp add: passes_def severity_gate_def run_bind split: prod.splits)

lemma passes_depth:
  "passes (self_remediation_gate r f) (fChainDepth f > 0 \<longrightarrow>
     SelfRemediationMaxDepth (spCfg r) \<noteq> 0 \<and> fChainDepth f \<le> SelfRemediationMaxDepth (spCfg r))"
  by (auto simp: passes_def self_remediation_gate_def Let_def run_bind split: prod.splits if_splits)

lemma fingerprint_of_iff: "fingerprint_of f = Inr fp \<longleftrightarrow> FindingFingerprint f = Inr fp"
  by (auto simp: fingerprint_of_def dest: FindingFingerprint_length split: sum.splits)

text \<open>A create effect that stems from an admissible finding.\<close>

definition justified ::
    "('w, 'o) SourceProviderReconciler \<Rightarrow> NamespacedName \<Rightarrow> effect \<Rightarrow> bool" where
  "justified r req ef \<longleftrightarrow>
     (\<forall>j x. ef = CreateRJob j x \<longrightarrow>
        (\<exists>f fp. FindingFingerprint f = Inr fp \<and> admissible (spCfg r) f \<and> j = new_rjob r req f fp))"

lemma justified_other: "\<not> is_create ef \<Longrightarrow> justified r req ef"
  by (auto simp: justified_def is_create_def)

lemma justified_simps [simp]:
  "justified r req (PatchStatus b j x)" "justified r req (DeleteRJob j x)" "justified r req (CloseSink j m y)"
  "justified r req (Event su ty re ms)" "justified r req (Metric mt)"
  by (simp_all add: justified_other)

lemma create_stage_emits:
  "(\<And>x. A (CreateRJob (new_rjob r req f fp) x)) \<Longrightarrow> (\<And>m. A (Metric m)) \<Longrightarrow> (\<And>su ty re ms. A (Event su ty re ms)) \<Longrightarrow>
     emits A (create_stage r req f fp)"
  unfolding create_stage_def by (intro emits_rules; simp)

lemma handle_fingerprint_emits:
  assumes "\<And>m. A (Metric m)" and "\<And>su ty re ms. A (Event su ty re ms)"
    and "\<And>j k x. A (PatchStatus j k x)" and "\<And>j x. A (DeleteRJob j x)"
    and "\<And>x. A (CreateRJob (new_rjob r req f fp) x)"
  shows "emits A (handle_fingerprint r m req obj f fp)"
  unfolding handle_fingerprint_def
  by (intro emits_gate [OF _ passes_trivial] stage_emits dedup_gate_emits create_stage_emits assms)

lemma handle_finding_emits: "emits (justified r req) (handle_finding r m req obj f)"
proof -
  have last: "emits (justified r req) (case fingerprint_of f of Inl er \<Rightarrow> ret (fail er)
      | Inr fp \<Rightarrow> handle_fingerprint r m req obj f fp)" if "admissible (spCfg r) f"
  proof -
    have "justified r req (CreateRJob (new_rjob r req f fp) x)" if "fingerprint_of f = Inr fp" for fp x
      using that \<open>admissible (spCfg r) f\<close> by (auto simp: justified_def fingerprint_of_iff)
    then show ?thesis
      by (cases "fingerprint_of f") (auto intro!: emits_rules handle_fingerprint_emits)
  qed
  note gates = emits_gate [OF _ passes_injection] emits_gate [OF _ passes_namespace]
    emits_gate [OF _ passes_severity] emits_gate [OF _ passes_depth]
  show ?thesis
    unfolding handle_finding_def by (intro gates stage_emits last) (simp_all add: admissible_def)
qed

lemma Reconcile_emits:
  assumes "\<And>j m er. A (CloseSink j m er)" and "\<And>j k x. A (PatchStatus j k x)"
    and "\<And>j x. A (DeleteRJob j x)" and "\<And>su ty re ms. A (Event su ty re ms)"
    and "\<And>m obj f. emits A (handle_finding r m req obj f)"
  shows "emits A (Provider_Reconcile r req)"
  unfolding Provider_Reconcile_def
  by (intro emits_rules initFirstSeen_emits gone_or_cleared_emits assms)

text \<open>
  C4. A reconcile creates a RemediationJob only for a finding that passes every static gate: no
  injection pattern in its errors or details when injections are to be suppressed, a namespace
  that is watched and not excluded, a severity at or above the threshold, a self-remediation
  depth within the limit. The job it creates is the one \<open>new_rjob\<close> describes: named and labelled
  by the fingerprint of that finding. This holds whatever the API server answers.
\<close>

theorem created_jobs_admissible:
  "\<exists>es. trace (snd (run_state (Provider_Reconcile r req) s)) = trace s @ es
    \<and> list_all (justified r req) es"
proof -
  have "emits (justified r req) (Provider_Reconcile r req)"
    by (intro Reconcile_emits handle_finding_emits) simp_all
  then show ?thesis by (auto simp: emits_def does_def)
qed

lemma create_stage_once: "at_most 1 is_create (create_stage r req f fp)"
proof -
  have "at_most 1 is_create (Create_rjob (spEnv r) j)" for j
    unfolding Create_rjob_def by (intro at_most_rules emits_rules at_most_once)
  then have "at_most (1 + 0) is_create (create_stage r req f fp)"
    unfolding create_stage_def
    by (rule at_most_bind) (auto simp: at_most_0_iff intro!: emits_rules)
  then show ?thesis by simp
qed

lemma handle_finding_once: "at_most 1 is_create (handle_finding r m req obj f)"
  unfolding handle_finding_def handle_fingerprint_def
  by (intro at_most_gate at_most_rules stage_emits dedup_gate_emits create_stage_once)
    (auto intro: at_most_emits emits_rules)

lemma Reconcile_creates_once: "at_most 1 is_create (Provider_Reconcile r req)"
  unfolding Provider_Reconcile_def
  by (intro at_most_rules initFirstSeen_emits emits_rules handle_finding_once
      at_most_emits [OF gone_or_cleared_emits(1)] at_most_emits [OF gone_or_cleared_emits(2)])
    (auto intro: at_most_emits emits_rules)

section \<open>Deduplication\<close>

lemma dedup_loop_passes:
  assumes "run_state (dedup_loop r fp js) s = (None, s')"
  shows "\<exists>es. trace s' = trace s @ es \<and>
    (\<forall>j \<in> set js. rjFingerprint j = fp \<longrightarrow>
       rjPhase j = PhaseFailed \<and> (\<exists>x. DeleteRJob j x \<in> set es \<and> \<not> failed x))"
  using assms
proof (induction js arbitrary: s)
  case (Cons j js)
  show ?case
  proof (cases "rjFingerprint j = fp")
    case False
    with Cons show ?thesis by auto
  next
    case True
    with Cons.prems have ph: "rjPhase j = PhaseFailed"
      by (cases "rjPhase j") (auto simp: run_simps split: prod.splits)
    define d w where "d = fst (delete_rjob (spEnv r) j (world s))"
      and "w = snd (delete_rjob (spEnv r) j (world s))"
    let ?t = "s\<lparr>world := w, trace := trace s @ [DeleteRJob j d]\<rparr>"
    have del: "delete_rjob (spEnv r) j (world s) = (d, w)" by (simp add: d_def w_def)
    have "run_state (dedup_loop r fp js) ?t = (None, s')" and ok: "\<not> failed d"
      using Cons.prems True ph del
      by (auto simp: run_simps failed_def split: option.splits if_splits)
    from Cons.IH [OF this(1)] obtain es where es: "trace s' = trace ?t @ es"
      "\<forall>j \<in> set js. rjFingerprint j = fp \<longrightarrow>
         rjPhase j = PhaseFailed \<and> (\<exists>x. DeleteRJob j x \<in> set es \<and> \<not> failed x)" by blast
    then show ?thesis
      using ph ok by (intro exI [of _ "DeleteRJob j d # es"]) auto
  qed
qed simp

text \<open>
  C3. Deduplication: the reconcile gets past the list of jobs that carry the finding's
  fingerprint only if every one of them is in phase Failed, and then each of them has been
  deleted (or was gone already). A pending, dispatched, running, suppressed, succeeded or
  permanently failed job for the same finding always ends the reconcile before the creation.
\<close>

theorem dedup_only_past_failed_jobs:
  assumes "run_state (dedup_loop r fp js) s = (None, s')" and "j \<in> set js" and "rjFingerprint j = fp"
  shows "rjPhase j = PhaseFailed
    \<and> (\<exists>x. DeleteRJob j x \<in> set (drop (length (trace s)) (trace s')) \<and> \<not> failed x)"
  using dedup_loop_passes [OF assms(1)] assms(2,3) by auto

definition sample_reconciler :: "(cluster, (string \<rightharpoonup> string) \<times> Finding option) SourceProviderReconciler" where
  "sample_reconciler = \<lparr>spEnv = cluster_env, spCfg = default_Config, ProviderName = ''native'',
     get_source = (\<lambda>n c. (Inl NotFound, c)), GetAnnotations = fst,
     ExtractFinding = (\<lambda>obj c. (Inr (snd obj), c)), hasRecorder = True, ReadinessChecker = None,
     SinkCloser = None, PRMergeChecker = None\<rparr>"

definition failed_job :: RemediationJob where
  "failed_job = sample_rjob ''mechanic-0'' 5 (sample_finding ''Pod'' ''api-1'' ''api'') PhaseFailed"

theorem dedup_only_past_failed_jobs_witness:
  "\<exists>s'. run_state (dedup_loop sample_reconciler ''0123456789abcdef'' [failed_job])
        (start (empty_cluster\<lparr>clRJobs := [failed_job]\<rparr>)) = (None, s')
    \<and> (\<exists>x. DeleteRJob failed_job x \<in> set (trace s') \<and> \<not> failed x)"
proof -
  let ?s = "start (empty_cluster\<lparr>clRJobs := [failed_job]\<rparr>)"
  have fp: "rjFingerprint failed_job = ''0123456789abcdef''"
    by (simp add: failed_job_def sample_rjob_def sample_spec_def)
  obtain s' where run: "run_state (dedup_loop sample_reconciler ''0123456789abcdef'' [failed_job]) ?s = (None, s')"
    by (simp add: failed_job_def sample_rjob_def sample_spec_def sample_reconciler_def run_simps cluster_simps)
  have "failed_job \<in> set [failed_job]" by simp
  from dedup_only_past_failed_jobs [OF run this fp] run show ?thesis
    by (auto simp: start_def)
qed

section \<open>The source object is deleted\<close>

definition cancelled :: "RemediationJob \<Rightarrow> RemediationJob" where
  "cancelled j = upd_status (\<lambda>st. st\<lparr>stPhase := PhaseCancelled\<rparr>) j"

text \<open>A job of the source that is not finished.\<close>

definition open_job_of :: "NamespacedName \<Rightarrow> RemediationJob \<Rightarrow> bool" where
  "open_job_of req j \<longleftrightarrow> spSourceResultRef (rjSpec j) = \<lparr>rrName = nnName req, rrNamespace = nnNamespace req\<rparr>
     \<and> rjPhase j \<in> {PhasePending, PhaseDispatched, PhaseRunning, PhaseSuppressed, PhaseBlank}"

text \<open>The effects that change a \<open>RemediationJob\<close> or an agent job.\<close>

fun is_write :: "effect \<Rightarrow> bool" where
  "is_write (CloseSink j ms y) = False"
| "is_write (Event su ty re ms) = False"
| "is_write (Metric mt) = False"
| "is_write _ = True"

text \<open>
  How one job \<open>j\<close> is cancelled: the writes it takes and the error it leaves. The status is patched to
  Cancelled; if that fails (other than because the job is gone already) this is the error; otherwise the
  object is deleted, as the server returned it or, when it was gone, as it was sent.
\<close>

inductive cancels :: "'w env \<Rightarrow> RemediationJob \<Rightarrow> effect list \<times> api_error option \<Rightarrow> bool" for e j where
  refused: "failed p \<Longrightarrow> cancels e j ([PatchStatus j (cancelled j) p], p)"
| gone: "p = Some NotFound \<Longrightarrow> er = (if failed d then d else None) \<Longrightarrow>
    cancels e j ([PatchStatus j (cancelled j) p, DeleteRJob (cancelled j) d], er)"
| deleted: "fst (patch_status e (cancelled j) j w) = Inr k \<Longrightarrow> er = (if failed d then d else None) \<Longrightarrow>
    cancels e j ([PatchStatus j (cancelled j) None, DeleteRJob k d], er)"

definition errors_of :: "('b \<times> api_error option) list \<Rightarrow> api_error list" where
  "errors_of segs = concat (map (\<lambda>(ws, er). case er of None \<Rightarrow> [] | Some x \<Rightarrow> [x]) segs)"

lemma not_failed: "\<not> failed x \<longleftrightarrow> x = None \<or> x = Some NotFound"
proof (cases x)
  case (Some er)
  then show ?thesis by (cases er) auto
qed simp

lemma cancel_job_cancels: "does (cancel_job r j) (\<lambda>(j', er) es. cancels (spEnv r) j (filter is_write es, er))"
proof -
  let ?e = "spEnv r" and ?j = "cancelled j"
  let ?sent = "\<lambda>p :: api_error + RemediationJob. case p of Inr server \<Rightarrow> server | Inl _ \<Rightarrow> ?j"
  let ?deletes = "\<lambda>k (j' :: RemediationJob, er) es. \<exists>d. filter is_write es = [DeleteRJob k d] \<and> er = (if failed d then d else None)"
  have close: "does (if PRAutoClose (spCfg r) \<and> rjSinkURL j \<noteq> []
      then (case SinkCloser r of None \<Rightarrow> ret () | Some closer \<Rightarrow> Close closer j) else ret ())
      (\<lambda>u es. filter is_write es = [])"
    unfolding does_def by (auto simp: run_simps Close_def split: option.splits prod.splits)
  have patch: "does (Patch_status ?e ?j j) (\<lambda>p es. es = [PatchStatus j ?j (err_of p)]
      \<and> (\<forall>k. p = Inr k \<longrightarrow> (\<exists>w. fst (patch_status ?e ?j j w) = Inr k)))"
    unfolding does_def by (auto simp: run_simps split: prod.splits) (metis fst_conv)
  have del: "does (do { d \<leftarrow> Delete_rjob ?e k;
        if failed d then ret (k, d)
        else do { record_event (hasRecorder r) (OnRJob (rjName k)) ''Normal'' ''SourceDeleted''
                    ''Source object deleted; investigation cancelled''; ret (k, None) } }) (?deletes k)" for k
    unfolding does_def by (auto simp: run_simps split: prod.splits)
  have rest: "does (if failed (err_of p) then ret (?sent p, err_of p)
      else do { d \<leftarrow> Delete_rjob ?e (?sent p);
        if failed d then ret (?sent p, d)
        else do { record_event (hasRecorder r) (OnRJob (rjName (?sent p))) ''Normal'' ''SourceDeleted''
                    ''Source object deleted; investigation cancelled''; ret (?sent p, None) } })
      (\<lambda>(j', er) es. if failed (err_of p) then es = [] \<and> er = err_of p else ?deletes (?sent p) (j', er) es)" for p
    using del [of "?sent p"] by (auto intro: does_return)
  have step: "cancels ?e j (PatchStatus j ?j (err_of p) # filter is_write es, er)"
    if "\<forall>k. p = Inr k \<longrightarrow> (\<exists>w. fst (patch_status ?e ?j j w) = Inr k)"
      and "if failed (err_of p) then es = [] \<and> er = err_of p else ?deletes (?sent p) (j', er) es" for p j' er es
  proof (cases "failed (err_of p)")
    case True
    then show ?thesis using that by (auto intro: cancels.refused)
  next
    case False
    with that obtain d where d: "filter is_write es = [DeleteRJob (?sent p) d]" "er = (if failed d then d else None)" by auto
    show ?thesis
    proof (cases p)
      case (Inl x)
      with False not_failed have "p = Inl NotFound" by auto
      then show ?thesis using d cancels.gone [OF refl d(2), of ?e j] by simp
    next
      case (Inr k)
      with that(1) obtain w where "fst (patch_status ?e ?j j w) = Inr k" by auto
      then show ?thesis using Inr d cancels.deleted [OF _ d(2), of ?e j w k] by simp
    qed
  qed
  have tail: "does (do { p \<leftarrow> Patch_status ?e ?j j;
      let j'' = (?sent p);
      if failed (err_of p) then ret (j'', err_of p)
      else do { d \<leftarrow> Delete_rjob ?e j'';
        if failed d then ret (j'', d)
        else do { record_event (hasRecorder r) (OnRJob (rjName j'')) ''Normal'' ''SourceDeleted''
                    ''Source object deleted; investigation cancelled''; ret (j'', None) } } })
      (\<lambda>(j', er) es. cancels ?e j (filter is_write es, er))"
    unfolding Let_def by (rule does_bind [OF patch rest]) (auto intro: step)
  show ?thesis
    unfolding cancel_job_def DeepCopyInto_id cancelled_def [symmetric]
    by (simp only: Let_def [of "cancelled j"], rule does_bind [OF close tail]) auto
qed

lemma cancel_loop_cancels:
  "does (cancel_loop r req js)
     (\<lambda>(js', ers) es. \<exists>segs. list_all2 (cancels (spEnv r)) (filter (\<lambda>j. from_source req j \<and> cancellable (rjPhase j)) js) segs
        \<and> filter is_write es = concat (map fst segs) \<and> ers = errors_of segs)" (is "does _ (\<lambda>(js', ers) es. ?T js ers es)")
proof (induction js)
  case Nil
  then show ?case by (auto simp: errors_of_def intro: does_return)
next
  case (Cons j js)
  show ?case
  proof (cases "from_source req j \<and> cancellable (rjPhase j)")
    case True
    have rest: "does (do { (js', ers) \<leftarrow> cancel_loop r req js;
          ret (j' # js', (case er of None \<Rightarrow> ers | Some x \<Rightarrow> x # ers)) })
        (\<lambda>(js', ers) es. \<exists>frs. ers = (case er of None \<Rightarrow> frs | Some x \<Rightarrow> x # frs) \<and> ?T js frs es)" for j' er
      by (rule does_bind_prod [OF Cons.IH, where U = "\<lambda>x y z es. z = (j' # x, (case er of None \<Rightarrow> y | Some e \<Rightarrow> e # y)) \<and> es = []"])
        (auto intro: does_return)
    have join: "?T (j # js) ers (es @ fs)"
      if "cancels (spEnv r) j (filter is_write es, er)"
        and "\<exists>frs. ers = (case er of None \<Rightarrow> frs | Some x \<Rightarrow> x # frs) \<and> ?T js frs fs" for er ers es fs
    proof -
      from that(2) obtain segs where segs: "ers = (case er of None \<Rightarrow> errors_of segs | Some x \<Rightarrow> x # errors_of segs)"
        "list_all2 (cancels (spEnv r)) (filter (\<lambda>j. from_source req j \<and> cancellable (rjPhase j)) js) segs"
        "filter is_write fs = concat (map fst segs)" by auto
      with that(1) True show ?thesis
        by (intro exI [of _ "(filter is_write es, er) # segs"]) (auto simp: errors_of_def split: option.splits)
    qed
    show ?thesis
      using True
      by (simp del: filter.simps filter_append) (rule does_bind_prod [OF cancel_job_cancels rest],
          auto simp del: filter.simps filter_append intro: join)
  next
    case False
    have "does (do { (js', ers) \<leftarrow> cancel_loop r req js; ret (j # js', ers) }) (\<lambda>(js', ers) es. ?T js ers es)"
      by (rule does_bind_prod [OF Cons.IH, where U = "\<lambda>x y z es. z = (j # x, y) \<and> es = []"])
        (auto intro: does_return)
    with False show ?thesis by auto
  qed
qed

lemma open_job_of_iff: "open_job_of req = (\<lambda>j. from_source req j \<and> cancellable (rjPhase j))"
  unfolding open_job_of_def cancellable_def from_source_def by (rule ext) (auto simp: ResultRef.equality)

lemma autoClose_writes: "does (autoCloseSucceededSinks closer req js) (\<lambda>u es. filter is_write es = [])"
  using autoClose_emits [of "\<lambda>ef. \<not> is_write ef" closer req js] unfolding emits_def
  by (auto elim!: does_mono simp: list_all_iff filter_empty_conv)

text \<open>
  C8. When the source object is gone, the reconcile lists the jobs and cancels exactly those of that
  source that are still pending, dispatched, running, suppressed or without a phase, one after the
  other in the order of the list. For each of them it sends the patch that sets the phase to Cancelled
  and changes nothing else, and then, unless that failed, the deletion of the same object (as the
  server returned it); no other job is written. The errors of all of them are reported together, and a
  failed list ends the reconcile before any write.
\<close>

theorem source_gone_cancels:
  "\<exists>es. trace (snd (run_state (on_source_gone r m req) s)) = trace s @ es \<and>
    (case fst (list_rjobs (spEnv r) (AgentNamespace (spCfg r)) [] (snd (now (spEnv r) (world s)))) of
       Inl er \<Rightarrow> es = [] \<and> fst (run_state (on_source_gone r m req) s) = fail (Api er)
     | Inr items \<Rightarrow> (\<exists>segs. list_all2 (cancels (spEnv r)) (filter (open_job_of req) items) segs
         \<and> filter is_write es = concat (map fst segs)
         \<and> fst (run_state (on_source_gone r m req) s) =
             (if errors_of segs = [] then finish
              else fail (Wrapped ''cancelling RemediationJobs'' (Joined (map Api (errors_of segs)))))))"
proof -
  let ?l = "list_rjobs (spEnv r) (AgentNamespace (spCfg r)) [] (snd (now (spEnv r) (world s)))"
  define s0 where "s0 = s\<lparr>firstSeen := Some (BoundedMap_Clear m (fst (now (spEnv r) (world s)))), world := snd ?l\<rparr>"
  define rest where "rest items = do {
         (items', ers) \<leftarrow> cancel_loop r req items;
         if ers \<noteq> [] then ret (fail (Wrapped ''cancelling RemediationJobs'' (Joined (map Api ers))))
         else do {
           (case (PRAutoClose (spCfg r), SinkCloser r) of
              (True, Some closer) \<Rightarrow> autoCloseSucceededSinks closer req items'
            | _ \<Rightarrow> ret ());
           ret finish } }" for items
  have run: "run_state (on_source_gone r m req) s =
      (case fst ?l of Inl er \<Rightarrow> (fail (Api er), s0) | Inr items \<Rightarrow> run_state (rest items) s0)"
    unfolding on_source_gone_def clear_firstSeen_def s0_def rest_def
    by (simp add: run_bind [of "outside _"] run_bind [of "State_Monad.bind _ _"] run_bind [of "Now _"] Now_def run_outside_fst run_firstSeen
        split: sum.splits)
  have closing: "does (do { (case (PRAutoClose (spCfg r), SinkCloser r) of
        (True, Some closer) \<Rightarrow> autoCloseSucceededSinks closer req items' | _ \<Rightarrow> ret ()); ret finish })
      (\<lambda>out es. out = finish \<and> filter is_write es = [])" for items'
    by (rule does_bind [where T = "\<lambda>u es. filter is_write es = []" and U = "\<lambda>x out es. out = finish \<and> es = []"])
      (auto intro: does_return autoClose_writes split: option.splits bool.splits)
  have "does (rest items) (\<lambda>out es. \<exists>segs. list_all2 (cancels (spEnv r)) (filter (open_job_of req) items) segs
      \<and> filter is_write es = concat (map fst segs)
      \<and> out = (if errors_of segs = [] then finish
               else fail (Wrapped ''cancelling RemediationJobs'' (Joined (map Api (errors_of segs))))))" for items
    unfolding rest_def open_job_of_iff
    by (rule does_bind_prod [OF cancel_loop_cancels, where U = "\<lambda>x ers out es. filter is_write es = []
          \<and> out = (if ers = [] then finish else fail (Wrapped ''cancelling RemediationJobs'' (Joined (map Api ers))))"])
      (rule does_if, rule does_return, simp, rule does_mono [OF closing], auto)
  note does_rest = this [unfolded does_def, rule_format, of _ s0]
  have "trace s0 = trace s" by (simp add: s0_def)
  then show ?thesis
    unfolding run using does_rest by (cases "fst ?l") (simp_all del: if_split)
qed

text \<open>
  A job left in phase Cancelled (its status was patched but its deletion failed) is never
  picked up again: the retried reconcile passes over it without any effect, and from then on it
  counts as a duplicate that suppresses every new finding with its fingerprint.
\<close>

theorem cancelled_job_leaks:
  assumes "rjPhase j = PhaseCancelled" and "rjFingerprint j = fp"
  shows "run_state (cancel_loop r req [j]) s = (([j], []), s)
    \<and> fst (run_state (dedup_loop r fp (j # js)) s) = Some finish"
  using assms by (auto simp: cancellable_def duplicate_def suppressed_def run_simps)

theorem cancelled_job_leaks_witness:
  "fst (run_state (dedup_loop sample_reconciler ''0123456789abcdef'' [cancelled failed_job])
      (start (empty_cluster\<lparr>clRJobs := [cancelled failed_job]\<rparr>))) = Some finish"
proof -
  have "rjPhase (cancelled failed_job) = PhaseCancelled"
    and "rjFingerprint (cancelled failed_job) = ''0123456789abcdef''"
    by (simp_all add: cancelled_def failed_job_def sample_rjob_def sample_spec_def)
  then show ?thesis by (rule cancelled_job_leaks [THEN conjunct2])
qed

section \<open>The stabilisation window\<close>

definition unsettled :: "BoundedMap \<Rightarrow> string \<Rightarrow> duration \<Rightarrow> gotime \<Rightarrow> bool" where
  "unsettled m fp window T \<longleftrightarrow> (\<forall>first. map_of (bmData m) fp = Some first \<longrightarrow> T < first + window)"

definition creates_fp :: "string \<Rightarrow> effect \<Rightarrow> bool" where
  "creates_fp fp ef \<longleftrightarrow> (\<exists>j x. ef = CreateRJob j x \<and> rjFingerprint j = fp)"

lemma creates_fp_simps [simp]:
  "creates_fp fp (CreateRJob j x) \<longleftrightarrow> rjFingerprint j = fp"
  "\<not> creates_fp fp (PatchStatus b j x)" "\<not> creates_fp fp (DeleteRJob j x)"
  "\<not> creates_fp fp (CloseSink j ms y)" "\<not> creates_fp fp (Event su ty re ms)" "\<not> creates_fp fp (Metric mt)"
  by (auto simp: creates_fp_def)

lemma new_rjob_fp [simp]: "rjFingerprint (new_rjob r req f fp) = fp"
  by (simp add: new_rjob_def Let_def)

lemma Get_lookup: "BoundedMap_Get m k n1 n2 = Some v \<Longrightarrow> map_of (bmData m) k = Some v"
  by (auto simp: BoundedMap_Get_def split: if_splits option.splits)

lemma unsettled_held:
  assumes "\<And>w. fst (now (spEnv r) w) \<le> T" and "unsettled m fp (StabilisationWindow (spCfg r)) T"
    and "0 < StabilisationWindow (spCfg r)" and "StabilisationWindow (spCfg r) < 2 ^ 63"
    and "map_get an AnnotationPriority \<noteq> ''critical''"
  shows "passes (stabilisation_gate r m an fp) False"
proof -
  let ?w = "StabilisationWindow (spCfg r)"
  have early: "time_Sub t first < ?w" if "now (spEnv r) w = (t, w')" "BoundedMap_Get m fp n1 n2 = Some first"
    for t w w' first n1 n2
  proof -
    from assms(1) [of w] that(1) have "t \<le> T" by simp
    moreover have "T < first + ?w" using assms(2) Get_lookup [OF that(2)] by (simp add: unsettled_def)
    ultimately show ?thesis using assms(3,4) by (simp add: time_Sub_less_iff)
  qed
  show ?thesis
    using assms(3,5)
    by (auto simp: passes_def stabilisation_gate_def Let_def run_bind run_Now suppressed_def run_emit run_firstSeen
        split: prod.splits option.splits if_splits dest: early)
qed

text \<open>
  C9. Until the stabilisation window has passed for a fingerprint (no clock reading up to the end
  of the reconcile reaches its first-seen time plus the window, or it was not seen yet), no
  reconcile creates a job for it, unless the object carries the critical-priority annotation.
\<close>

theorem window_holds_creation:
  assumes "firstSeen s = Some m" and "\<And>w. fst (now (spEnv r) w) \<le> T"
    and "unsettled m fp (StabilisationWindow (spCfg r)) T"
    and "0 < StabilisationWindow (spCfg r)" and "StabilisationWindow (spCfg r) < 2 ^ 63"
    and "\<And>obj. map_get (GetAnnotations r obj) AnnotationPriority \<noteq> ''critical''"
  shows "\<exists>es. trace (snd (run_state (Provider_Reconcile r req) s)) = trace s @ es
    \<and> list_all (\<lambda>ef. \<not> creates_fp fp ef) es"
proof -
  let ?A = "\<lambda>ef. \<not> creates_fp fp ef"
  have fps: "emits ?A (handle_fingerprint r m req obj f fp')" for obj f fp'
  proof (cases "fp' = fp")
    case True
    show ?thesis
      unfolding handle_fingerprint_def True
      by (rule emits_gate [OF _ unsettled_held [OF assms(2-6)]]) (auto intro: stage_emits)
  next
    case False
    then show ?thesis by (intro handle_fingerprint_emits) simp_all
  qed
  have "emits ?A (handle_finding r m req obj f)" for obj f
    unfolding handle_finding_def
    by (intro emits_gate [OF _ passes_trivial] stage_emits emits_rules fps) simp_all
  then have "emits ?A (do { o' \<leftarrow> outside (get_source r req);
     case o' of
       Inl er \<Rightarrow> if \<not> IsNotFound er then ret (fail (Api er)) else on_source_gone r m req
     | Inr obj \<Rightarrow> do {
         x \<leftarrow> outside (ExtractFinding r obj);
         case x of
           Inl er \<Rightarrow> ret (fail er)
         | Inr None \<Rightarrow> on_finding_cleared r m req
         | Inr (Some f) \<Rightarrow> handle_finding r m req obj f } })"
    by (intro emits_rules gone_or_cleared_emits) simp_all
  moreover have "run_state (initFirstSeen r) s = (m, s)"
    using assms(1) by (simp add: initFirstSeen_def run_simps)
  ultimately show ?thesis
    by (simp add: Provider_Reconcile_def run_bind [of "initFirstSeen r"] emits_def does_def)
qed

definition at_rest :: "cluster sys" where
  "at_rest = (start empty_cluster)\<lparr>firstSeen := Some \<lparr>bmData = [(''fp'', 1000 * Hour - Minute)], bmMaxSize = 1000,
     bmTtl = 4 * Minute, bmLastCleanup = 1000 * Hour - Minute, bmCleanupInterval = 2 * Minute\<rparr>\<rparr>"

definition settled_env :: "cluster env" where
  "settled_env = cluster_env\<lparr>now := (\<lambda>c. (1000 * Hour, c))\<rparr>"

theorem window_holds_creation_witness:
  "\<exists>es. trace (snd (run_state (Provider_Reconcile (sample_reconciler\<lparr>spEnv := settled_env, GetAnnotations := (\<lambda>_. Map.empty)\<rparr>)
      \<lparr>nnNamespace = ''prod'', nnName = ''api-1''\<rparr>) at_rest)) = es
    \<and> list_all (\<lambda>ef. \<not> creates_fp ''fp'' ef) es"
proof -
  let ?r = "sample_reconciler\<lparr>spEnv := settled_env, GetAnnotations := (\<lambda>_. Map.empty)\<rparr>"
  have "firstSeen at_rest = Some \<lparr>bmData = [(''fp'', 1000 * Hour - Minute)], bmMaxSize = 1000,
     bmTtl = 4 * Minute, bmLastCleanup = 1000 * Hour - Minute, bmCleanupInterval = 2 * Minute\<rparr>"
    by (simp add: at_rest_def)
  from window_holds_creation [OF this, of ?r "1000 * Hour" "''fp''"] show ?thesis
    by (simp add: settled_env_def sample_reconciler_def default_Config_def unsettled_def go_defs map_get_def
        at_rest_def start_def)
qed

section \<open>An admissible finding is investigated\<close>

text \<open>
  Nothing stands in the way of the finding: the object is there and has it, no job carries its
  fingerprint, no job of a higher kind of the same parent is known, its namespace is absent or not
  annotated to be skipped, the readiness check (if there is one) passes, and creations succeed.
\<close>

definition unobstructed ::
    "('w, 'o) SourceProviderReconciler \<Rightarrow> NamespacedName \<Rightarrow> 'o \<Rightarrow> Finding \<Rightarrow> string \<Rightarrow> bool" where
  "unobstructed r req obj f fp \<longleftrightarrow>
     (\<forall>w. fst (get_source r req w) = Inr obj) \<and> (\<forall>w. fst (ExtractFinding r obj w) = Inr (Some f))
     \<and> (\<forall>w. \<exists>items. fst (list_rjobs (spEnv r) (AgentNamespace (spCfg r))
            [(''remediation.mechanic.io/fingerprint'', take 12 fp)] w) = Inr items
          \<and> list_all (\<lambda>j. rjFingerprint j \<noteq> fp) items)
     \<and> (\<forall>w. \<exists>items. fst (list_rjobs (spEnv r) (AgentNamespace (spCfg r)) managed w) = Inr items
          \<and> \<not> list_ex (outranked_by f) items)
     \<and> (\<forall>w. case fst (get_namespace (spEnv r) (fNamespace f) w) of
            Inl er \<Rightarrow> IsNotFound er
          | Inr annotations \<Rightarrow> \<forall>v. \<not> ShouldSkip annotations (fst (now (spEnv r) v)))
     \<and> (\<forall>j w. \<exists>k. fst (create_rjob (spEnv r) j w) = Inr k)
     \<and> (case ReadinessChecker r of None \<Rightarrow> True | Some check \<Rightarrow> \<forall>w. fst (check w) = None)"

text \<open>
  The window does not hold the finding back: it is off, the object is marked critical, or the
  fingerprint was first seen at least a window ago and is still remembered.
\<close>

definition stable ::
    "('w, 'o) SourceProviderReconciler \<Rightarrow> BoundedMap option \<Rightarrow> (string \<rightharpoonup> string) \<Rightarrow> string \<Rightarrow> bool" where
  "stable r seen annotations fp \<longleftrightarrow>
     StabilisationWindow (spCfg r) = 0 \<or> map_get annotations AnnotationPriority = ''critical''
     \<or> (\<exists>m first. seen = Some m
          \<and> (\<forall>v v'. BoundedMap_Get m fp (fst (now (spEnv r) v)) (fst (now (spEnv r) v')) = Some first)
          \<and> (\<forall>v. StabilisationWindow (spCfg r) \<le> time_Sub (fst (now (spEnv r) v)) first))"

text \<open>\<open>opens m\<close>: the stage lets the reconcile continue and leaves no effect.\<close>

definition opens :: "('w, 'b option) prog \<Rightarrow> bool" where
  "opens m \<longleftrightarrow> (\<forall>s. \<exists>s'. run_state m s = (None, s') \<and> trace s' = trace s)"

definition ends_with :: "effect list \<Rightarrow> ('w, outcome) prog \<Rightarrow> bool" where
  "ends_with es m \<longleftrightarrow> (\<forall>s. fst (run_state m s) = finish \<and> trace (snd (run_state m s)) = trace s @ es)"

lemma ends_with_gate: "opens m \<Longrightarrow> ends_with es k \<Longrightarrow> ends_with es (gate m k)"
  unfolding opens_def ends_with_def gate_def by (metis option.simps(4) prod.case run_bind)

lemma opens_static:
  assumes "admissible (spCfg r) f" and "fChainDepth f \<le> 0"
  shows "opens (injection_gate r (fErrors f))" "opens (injection_gate r (fDetails f))" "opens (severity_gate r f)"
    "opens (self_remediation_gate r f)"
  using assms by (auto simp: opens_def stage_defs admissible_def)

lemma dedup_loop_none: "list_all (\<lambda>j. rjFingerprint j \<noteq> fp) js \<Longrightarrow> dedup_loop r fp js = ret None"
  by (induction js) simp_all

lemma opens_outside:
  assumes "\<And>w. \<exists>s'. run_state (g (fst (f w))) (s\<lparr>world := snd (f w)\<rparr>) = (None, s') \<and> trace s' = trace s"
  shows "\<exists>s'. run_state (State_Monad.bind (outside f) g) s = (None, s') \<and> trace s' = trace s"
  using assms by (simp add: run_bind run_outside_fst)

lemma opens_dynamic:
  assumes "unobstructed r req obj f fp"
  shows "opens (dedup_gate r fp)" "opens (parent_gate r f)" "opens (readiness_gate r)"
proof -
  show "opens (dedup_gate r fp)"
    unfolding opens_def dedup_gate_def
  proof (intro allI opens_outside)
    fix s :: "'a sys" and w
    obtain items where "fst (list_rjobs (spEnv r) (AgentNamespace (spCfg r))
        [(''remediation.mechanic.io/fingerprint'', take 12 fp)] w) = Inr items" "list_all (\<lambda>j. rjFingerprint j \<noteq> fp) items"
      using assms unfolding unobstructed_def by blast
    then show "\<exists>s'. run_state (case fst (list_rjobs (spEnv r) (AgentNamespace (spCfg r))
          [(''remediation.mechanic.io/fingerprint'', take 12 fp)] w) of
            Inl er \<Rightarrow> ret (Some (fail (Api er))) | Inr items \<Rightarrow> dedup_loop r fp items)
          (s\<lparr>world := snd (list_rjobs (spEnv r) (AgentNamespace (spCfg r))
            [(''remediation.mechanic.io/fingerprint'', take 12 fp)] w)\<rparr>) = (None, s') \<and> trace s' = trace s"
      by (simp add: dedup_loop_none)
  qed
  show "opens (parent_gate r f)"
  proof (cases "fParentObject f = ''''")
    case False
    have "\<exists>s'. run_state (parent_gate r f) s = (None, s') \<and> trace s' = trace s" for s
    proof -
      obtain items where "fst (list_rjobs (spEnv r) (AgentNamespace (spCfg r)) managed (world s)) = Inr items"
        "\<not> list_ex (outranked_by f) items"
        using assms unfolding unobstructed_def by blast
      with False show ?thesis by (simp add: parent_gate_def run_bind run_outside_fst)
    qed
    then show ?thesis unfolding opens_def by blast
  qed (simp add: opens_def parent_gate_def)
  show "opens (readiness_gate r)"
    using assms by (auto simp: opens_def readiness_gate_def unobstructed_def run_bind run_outside_fst split: option.splits)
qed

lemma opens_namespace:
  assumes "unobstructed r req obj f fp" and "admissible (spCfg r) f"
  shows "opens (namespace_gate r f)"
proof (cases "fNamespace f = ''''")
  case False
  then have allowed: "\<not> (WatchNamespaces (spCfg r) \<noteq> [] \<and> fNamespace f \<notin> set (WatchNamespaces (spCfg r)))"
    "fNamespace f \<notin> set (ExcludeNamespaces (spCfg r))"
    using assms(2) by (auto simp: admissible_def namespace_allowed_def)
  have "case fst (get_namespace (spEnv r) (fNamespace f) w) of Inl er \<Rightarrow> IsNotFound er
      | Inr annotations \<Rightarrow> \<forall>v. \<not> ShouldSkip annotations (fst (now (spEnv r) v))" for w
    using assms(1) unfolding unobstructed_def by blast
  note ns = this
  have "\<exists>s'. run_state (namespace_gate r f) s = (None, s') \<and> trace s' = trace s" for s
  proof (cases "fst (get_namespace (spEnv r) (fNamespace f) (world s))")
    case (Inl er)
    then have "IsNotFound er" using ns [of "world s"] by simp
    with Inl False allowed show ?thesis by (simp add: namespace_gate_def run_bind run_outside_fst)
  next
    case (Inr an)
    then have "\<not> ShouldSkip an (fst (now (spEnv r) v))" for v using ns [of "world s"] by simp
    with Inr False allowed show ?thesis by (simp add: namespace_gate_def run_bind run_outside_fst Now_def)
  qed
  then show ?thesis unfolding opens_def by blast
qed (simp add: opens_def namespace_gate_def)

lemma opens_window:
  assumes "stable r (Some m) an fp"
  shows "opens (stabilisation_gate r m an fp)"
proof (cases "StabilisationWindow (spCfg r) = 0 \<or> map_get an AnnotationPriority = ''critical''")
  case False
  with assms obtain first where
    get: "BoundedMap_Get m fp (fst (now (spEnv r) v)) (fst (now (spEnv r) v')) = Some first"
    and late: "\<not> time_Sub (fst (now (spEnv r) v)) first < StabilisationWindow (spCfg r)" for v v'
    unfolding stable_def by (metis not_less option.inject)
  show ?thesis
    using False by (simp add: opens_def stabilisation_gate_def Let_def run_bind Now_def run_outside_fst get late)
qed (auto simp: opens_def stabilisation_gate_def Let_def)

lemma create_stage_ends:
  assumes "unobstructed r req obj f fp'"
  shows "ends_with ([CreateRJob (new_rjob r req f fp) None, Metric (RecordDispatched (fKind f) (fSeverity f))]
    @ (if hasRecorder r then [Event OnSource ''Normal'' ''FindingDetected''
         (''Provider '' @ ProviderName r @ '' detected '' @ fKind f @ ''/'' @ fName f @
          '' in namespace '' @ fNamespace f)] else [])) (create_stage r req f fp)"
  unfolding ends_with_def
proof
  fix s :: "'a sys"
  obtain k where "fst (create_rjob (spEnv r) (new_rjob r req f fp) (world s)) = Inr k"
    using assms unfolding unobstructed_def by blast
  then show "fst (run_state (create_stage r req f fp) s) = finish \<and>
      trace (snd (run_state (create_stage r req f fp) s)) = trace s @
        ([CreateRJob (new_rjob r req f fp) None, Metric (RecordDispatched (fKind f) (fSeverity f))]
          @ (if hasRecorder r then [Event OnSource ''Normal'' ''FindingDetected''
         (''Provider '' @ ProviderName r @ '' detected '' @ fKind f @ ''/'' @ fName f @
          '' in namespace '' @ fNamespace f)] else []))"
    by (simp add: create_stage_def Create_rjob_def record_event_def run_bind run_outside_fst run_emit run_if)
qed

lemma admissible_finding_creates:
  assumes "unobstructed r req obj f fp" and "admissible (spCfg r) f" and "fChainDepth f \<le> 0"
    and "stable r (firstSeen s) (GetAnnotations r obj) fp"
    and "FindingFingerprint f = Inr fp" and "run_state (Provider_Reconcile r req) s = (out, s')"
  shows "out = finish \<and> filter is_create (drop (length (trace s)) (trace s'))
    = [CreateRJob (new_rjob r req f fp) None]"
proof -
  let ?es = "[CreateRJob (new_rjob r req f fp) None, Metric (RecordDispatched (fKind f) (fSeverity f))]
    @ (if hasRecorder r then [Event OnSource ''Normal'' ''FindingDetected''
         (''Provider '' @ ProviderName r @ '' detected '' @ fKind f @ ''/'' @ fName f @
          '' in namespace '' @ fNamespace f)] else [])"
  have body: "ends_with ?es (handle_finding r m req obj f)" if "stable r (Some m) (GetAnnotations r obj) fp" for m
    unfolding handle_finding_def handle_fingerprint_def
    using fingerprint_of_iff [THEN iffD2, OF assms(5)]
    by (simp only: sum.case)
      (intro ends_with_gate opens_static [OF assms(2,3)] opens_dynamic [OF assms(1)] opens_namespace [OF assms(1,2)]
        opens_window [OF that] create_stage_ends [OF assms(1)])
  obtain m t where init: "run_state (initFirstSeen r) s = (m, t)" "trace t = trace s"
    using initFirstSeen_silent by (metis surj_pair)
  have "stable r (Some m) (GetAnnotations r obj) fp"
    using assms(4) init(1) by (auto simp: stable_def initFirstSeen_def run_simps)
  note body = body [OF this]
  let ?w = "snd (ExtractFinding r obj (snd (get_source r req (world t))))"
  have "run_state (handle_finding r m req obj f) (t\<lparr>world := ?w\<rparr>) = (out, s')"
    using assms(1,6) by (simp add: Provider_Reconcile_def run_bind init run_outside_fst unobstructed_def)
  moreover note body [unfolded ends_with_def, rule_format, of "t\<lparr>world := ?w\<rparr>"]
  ultimately have "out = finish" "trace s' = trace s @ ?es" using init(2) by simp_all
  then show ?thesis by simp
qed

text \<open>
  C12. Conversely, an admissible finding that is not a self-remediation is investigated: if no job
  carries its fingerprint and none of a higher kind suppresses it, the readiness check passes, the
  namespace is not to be skipped and the API accepts creations, then a reconcile creates exactly the job
  \<open>new_rjob\<close> describes and returns without error, as soon as the window has passed since the first
  sight (or the window is off, or the object is marked critical).
\<close>

theorem admissible_finding_investigated:
  assumes "unobstructed r req obj f fp" and "admissible (spCfg r) f" and "fChainDepth f \<le> 0"
    and "stable r (firstSeen s) (GetAnnotations r obj) fp"
    and "FindingFingerprint f = Inr fp" and "run_state (Provider_Reconcile r req) s = (out, s')"
  shows "out = finish \<and> filter is_create (drop (length (trace s)) (trace s'))
    = [CreateRJob (new_rjob r req f fp) None]"
  using assms by (rule admissible_finding_creates)

definition fresh_reconciler :: "(cluster, (string \<rightharpoonup> string) \<times> Finding option) SourceProviderReconciler" where
  "fresh_reconciler = sample_reconciler\<lparr>
     spEnv := cluster_env\<lparr>now := (\<lambda>c. (1000 * Hour, c)), list_rjobs := (\<lambda>ns sel c. (Inr [failed_job], c)),
       get_namespace := (\<lambda>n c. (Inr Map.empty, c)), create_rjob := (\<lambda>j c. (Inr j, c))\<rparr>,
     get_source := (\<lambda>n c. (Inr (Map.empty, Some (pod_finding ''api-1'' '''')), c)),
     ReadinessChecker := Some (\<lambda>c. (None, c))\<rparr>"

abbreviation fresh_request :: NamespacedName where
  "fresh_request \<equiv> \<lparr>nnNamespace = ''prod'', nnName = ''api-1''\<rparr>"

abbreviation fresh_object :: "(string \<rightharpoonup> string) \<times> Finding option" where
  "fresh_object \<equiv> (Map.empty, Some (pod_finding ''api-1'' ''''))"

text \<open>The fingerprint was first seen three minutes ago, a minute more than the default window.\<close>

definition seen_before :: "string \<Rightarrow> cluster sys" where
  "seen_before fp = (start empty_cluster)\<lparr>firstSeen := Some \<lparr>bmData = [(fp, 1000 * Hour - 3 * Minute)], bmMaxSize = 1000,
     bmTtl = 4 * Minute, bmLastCleanup = 1000 * Hour - 3 * Minute, bmCleanupInterval = 2 * Minute\<rparr>\<rparr>"

lemma ShouldSkip_empty: "\<not> ShouldSkip Map.empty t"
  by (simp add: ShouldSkip_def map_get_def)

lemma fresh_admitted:
  "admissible (spCfg fresh_reconciler) (pod_finding ''api-1'' '''')"
  "fChainDepth (pod_finding ''api-1'' '''') \<le> 0"
  "\<exists>fp. FindingFingerprint (pod_finding ''api-1'' '''') = Inr fp"
  by (simp_all add: admissible_def fresh_reconciler_def sample_reconciler_def default_Config_def pod_finding_def
      namespace_allowed_def min_severity_def MeetsSeverityThreshold_def SeverityLevel_def severityOrder_def
      FindingFingerprint_def Let_def)

lemma fresh_unobstructed:
  assumes "FindingFingerprint (pod_finding ''api-1'' '''') = Inr fp"
  shows "unobstructed fresh_reconciler fresh_request fresh_object (pod_finding ''api-1'' '''') fp"
proof -
  have "length fp = 64" using FindingFingerprint_length [OF assms] .
  then have fp: "fp \<noteq> ''0123456789abcdef''" by auto
  have job: "rjFingerprint failed_job = ''0123456789abcdef''" "\<not> outranked_by (pod_finding ''api-1'' '''') failed_job"
    by (simp_all add: failed_job_def sample_rjob_def sample_spec_def sample_finding_def outranked_by_def pod_finding_def)
  show ?thesis
    using fp by (simp add: unobstructed_def fresh_reconciler_def sample_reconciler_def job ShouldSkip_empty)
qed

lemma fresh_stable:
  "stable fresh_reconciler (firstSeen (seen_before fp)) (GetAnnotations fresh_reconciler fresh_object) fp"
  by (simp add: stable_def fresh_reconciler_def sample_reconciler_def seen_before_def BoundedMap_Get_def
      BoundedMap_needsCleanup_def default_Config_def time_Sub_def go_defs)

theorem admissible_finding_investigated_witness:
  "\<exists>fp out s'. FindingFingerprint (pod_finding ''api-1'' '''') = Inr fp
    \<and> run_state (Provider_Reconcile fresh_reconciler fresh_request) (seen_before fp) = (out, s')
    \<and> filter is_create (trace s') = [CreateRJob (new_rjob fresh_reconciler
         fresh_request (pod_finding ''api-1'' '''') fp) None]"
proof -
  obtain fp where fp: "FindingFingerprint (pod_finding ''api-1'' '''') = Inr fp" using fresh_admitted(3) ..
  obtain out s' where run: "run_state (Provider_Reconcile fresh_reconciler fresh_request) (seen_before fp) = (out, s')"
    by (cases "run_state (Provider_Reconcile fresh_reconciler fresh_request) (seen_before fp)")
  have "filter is_create (drop (length (trace (seen_before fp))) (trace s'))
      = [CreateRJob (new_rjob fresh_reconciler fresh_request (pod_finding ''api-1'' '''') fp) None]"
    using admissible_finding_investigated [OF fresh_unobstructed [OF fp] fresh_admitted(1,2) fresh_stable fp run] by blast
  then show ?thesis using fp run by (simp add: seen_before_def start_def)
qed

end
