(* ===== verification/Controller.thy ===== *)
theory Controller
  imports Correlator Injection
begin

text \<open>
  The controller of the custom resource (\<open>src/internal/controller/remediationjob_controller.go\<close>):
  it drives a \<open>RemediationJob\<close> through its phases, groups pending jobs through the correlator,
  limits the number of concurrent agent jobs and creates the \<open>batch/v1\<close> Job. The method
  \<open>Reconcile\<close> is the composition of its stages in source order; a stage either returns an
  outcome, which ends the reconcile, or lets it continue. The job builder is an interface the
  controller is given.
\<close>

section \<open>The reconciler\<close>

record 'w RemediationJobReconciler =
  rcEnv :: "'w env"
  rcCfg :: Config
  rcBuild :: "RemediationJob \<Rightarrow> FindingSpec list \<Rightarrow> goerr + Job"
  rcRecorder :: bool
  rcCorrelator :: "'w CorrelationRule list option"

text \<open>The object in memory after a patch: the server's answer, or what was sent.\<close>

definition after_patch :: "RemediationJob \<Rightarrow> api_error + RemediationJob \<Rightarrow> RemediationJob" where
  "after_patch sent' r = (case r of Inr server \<Rightarrow> server | Inl _ \<Rightarrow> sent')"

definition add_condition ::
    "'w env \<Rightarrow> string \<Rightarrow> string \<Rightarrow> string \<Rightarrow> gotime \<Rightarrow> RemediationJob \<Rightarrow> RemediationJob" where
  "add_condition e ty reason msg t j =
     upd_status (\<lambda>st. st\<lparr>stConditions := SetStatusCondition e (stConditions st)
       \<lparr>cType = ty, cStatus = ''True'', cReason = reason, cMessage = msg, cLastTransitionTime = t\<rparr>\<rparr>) j"

subsection \<open>State of the agent's job\<close>

definition backoff_limit :: "Job \<Rightarrow> int" where
  "backoff_limit job = (case jbBackoffLimit job of None \<Rightarrow> 6 | Some n \<Rightarrow> n)"

definition syncPhaseFromJob :: "Job \<Rightarrow> RemediationJobPhase" where
  "syncPhaseFromJob job =
     (if jbSucceeded job > 0 then PhaseSucceeded
      else if jbFailed job \<ge> int32 (backoff_limit job + 1) then PhaseFailed
      else if jbActive job > 0 then PhaseRunning
      else PhaseDispatched)"

definition jobStalenessTimeout :: duration where
  "jobStalenessTimeout = 30 * Minute"

definition isJobActive :: "'w env \<Rightarrow> Job \<Rightarrow> ('w, bool) prog" where
  "isJobActive e j =
     (if jbSucceeded j > 0 then ret False
      else if jbFailed j \<ge> int32 (backoff_limit j + 1) then ret False
      else if jbActive j = 0 \<and> jbFailed j = 0 then do {
        t \<leftarrow> Now e;
        ret (\<not> time_Sub t (jbCreationTimestamp j) > jobStalenessTimeout) }
      else ret True)"

fun count_active :: "'w env \<Rightarrow> Job list \<Rightarrow> ('w, int) prog" where
  "count_active e [] = ret 0"
| "count_active e (j # js) = do {
     a \<leftarrow> isJobActive e j;
     n \<leftarrow> count_active e js;
     ret (if a then n + 1 else n) }"

text \<open>\<open>Inr (Some res)\<close>: limited, to be retried as \<open>res\<close> says; \<open>Inr None\<close>: the gate is open.\<close>

definition concurrencyGate :: "'w RemediationJobReconciler \<Rightarrow> ('w, api_error + Result option) prog" where
  "concurrencyGate r =
     (if MaxConcurrentJobs (rcCfg r) = 0 then ret (Inr None)
      else do {
        l \<leftarrow> outside (list_jobs (rcEnv r) (AgentNamespace (rcCfg r)) managed);
        case l of
          Inl er \<Rightarrow> ret (Inl er)
        | Inr jobs \<Rightarrow> do {
            activeCount \<leftarrow> count_active (rcEnv r) jobs;
            emit (Metric (SetActiveJobs activeCount));
            p \<leftarrow> outside (list_rjobs (rcEnv r) (AgentNamespace (rcCfg r)) managed);
            (case p of
               Inl _ \<Rightarrow> ret ()
             | Inr items \<Rightarrow>
                 emit (Metric (SetPendingJobs (int (length (filter (\<lambda>j. rjPhase j = PhasePending) items))))));
            ret (Inr (if activeCount \<ge> MaxConcurrentJobs (rcCfg r)
                      then Some (requeue_after (30 * Second)) else None)) } })"

subsection \<open>The report of a dry run\<close>

definition DryRunCMName :: "string \<Rightarrow> string" where
  "DryRunCMName fingerprint =
     ''mechanic-dryrun-'' @ (if length fingerprint > 12 then take 12 fingerprint else fingerprint)"

definition newline :: string where
  "newline = [byte_of 10]"

definition fetchDryRunReport :: "'w RemediationJobReconciler \<Rightarrow> RemediationJob \<Rightarrow> ('w, string) prog" where
  "fetchDryRunReport r j =
     (let name = DryRunCMName (rjFingerprint j); ns = AgentNamespace (rcCfg r) in do {
        c \<leftarrow> outside (get_configmap (rcEnv r) \<lparr>nnNamespace = ns, nnName = name\<rparr>);
        case c of
          Inl er \<Rightarrow>
            if IsNotFound er
            then ret (''dry-run report unavailable: ConfigMap '' @ ns @ ''/'' @ name @
                   '' not found (agent may have crashed before writing it)'')
            else ret (''dry-run report unavailable: get ConfigMap: '' @ api_error_string (rcEnv r) er)
        | Inr cm \<Rightarrow>
            (let report = map_get (cmData cm) ''report''; patch = map_get (cmData cm) ''patch'';
                 sb = report @ (if patch \<noteq> '''' then newline @ newline @ ''=== PROPOSED PATCH ==='' @ newline
                        @ patch @ newline @ ''=== END PATCH ==='' else '''')
             in do {
                  _ \<leftarrow> Delete_configmap (rcEnv r) cm;
                  ret (strings_TrimSpace sb) }) })"

subsection \<open>Correlated peers\<close>

definition pendingPeers ::
    "'w RemediationJobReconciler \<Rightarrow> RemediationJob \<Rightarrow> ('w, api_error + RemediationJob list) prog" where
  "pendingPeers r candidate = do {
     l \<leftarrow> outside (list_rjobs (rcEnv r) (AgentNamespace (rcCfg r)) managed);
     ret (case l of
            Inl er \<Rightarrow> Inl er
          | Inr items \<Rightarrow> Inr (filter (\<lambda>p. rjUID p \<noteq> rjUID candidate \<and> rjPhase p = PhasePending) items)) }"

definition set_group_labels :: "string \<Rightarrow> string \<Rightarrow> RemediationJob \<Rightarrow> RemediationJob" where
  "set_group_labels groupID role j =
     j\<lparr>rjLabels := (rjLabels j)(CorrelationGroupIDLabel \<mapsto> groupID, CorrelationGroupRoleLabel \<mapsto> role)\<rparr>"

definition transitionSuppressed ::
    "'w RemediationJobReconciler \<Rightarrow> RemediationJob \<Rightarrow> string \<Rightarrow> string \<Rightarrow> ('w, api_error option) prog" where
  "transitionSuppressed r j groupID primaryUID =
     (if rjPhase j = PhaseSuppressed then ret None
      else if rjPhase j \<noteq> PhasePending then ret None
      else do {
        t \<leftarrow> Now (rcEnv r);
        let j1 = upd_status (\<lambda>st. st\<lparr>stPhase := PhaseSuppressed, stCorrelationGroupID := groupID\<rparr>) j;
        let j1 = add_condition (rcEnv r) ConditionCorrelationSuppressed ''CorrelatedGroupFound''
             (''suppressed: primary job UID '' @ primaryUID @ '' handles investigation'') t j1;
        emit (Metric (RecordSuppressed ''correlation_suppressed''));
        p \<leftarrow> Patch_status (rcEnv r) j1 (RemediationJob_DeepCopyInto j);
        case p of
          Inl er \<Rightarrow> ret (Some er)
        | Inr j2 \<Rightarrow> do {
            q \<leftarrow> Patch_rjob (rcEnv r) (set_group_labels groupID CorrelationRoleCorrelated j2)
                  (RemediationJob_DeepCopyInto j2);
            ret (err_of q) } })"

fun suppressCorrelatedPeers ::
    "'w RemediationJobReconciler \<Rightarrow> RemediationJob list \<Rightarrow> CorrelationGroup \<Rightarrow> ('w, api_error option) prog" where
  "suppressCorrelatedPeers r [] g = ret None"
| "suppressCorrelatedPeers r (peer # peers) g =
     (if rjUID peer \<notin> set (cgCorrelatedUIDs g) then suppressCorrelatedPeers r peers g
      else do {
        er \<leftarrow> transitionSuppressed r peer (cgGroupID g) (cgPrimaryUID g);
        case er of Some x \<Rightarrow> ret (Some x) | None \<Rightarrow> suppressCorrelatedPeers r peers g })"

subsection \<open>Dispatch\<close>

definition job_dispatched_event :: "'w RemediationJobReconciler \<Rightarrow> RemediationJob \<Rightarrow> Job \<Rightarrow> ('w, unit) prog" where
  "job_dispatched_event r j job =
     record_event (rcRecorder r) (OnRJob (rjName j)) ''Normal'' ''JobDispatched'' (''Created agent Job '' @ jbName job)"

text \<open>The agent's job exists already: the phase is taken from it.\<close>

definition adopt_existing ::
    "'w RemediationJobReconciler \<Rightarrow> RemediationJob \<Rightarrow> Job \<Rightarrow> ('w, goerr option) prog" where
  "adopt_existing r j job = do {
     g \<leftarrow> outside (get_job (rcEnv r) \<lparr>nnNamespace = jbNamespace job, nnName = jbName job\<rparr>);
     case g of
       Inl er \<Rightarrow> ret (Some (Api er))
     | Inr existing \<Rightarrow> do {
         let j1 = upd_status (\<lambda>st. st\<lparr>stPhase := syncPhaseFromJob existing,
                    stJobRef := (if stJobRef st = '''' then jbName existing else stJobRef st)\<rparr>) j;
         p \<leftarrow> Patch_status (rcEnv r) j1 (RemediationJob_DeepCopyInto j);
         case p of
           Inl er \<Rightarrow> ret (Some (Api er))
         | Inr j2 \<Rightarrow> do { job_dispatched_event r j2 job; ret None } } }"

definition dispatch ::
    "'w RemediationJobReconciler \<Rightarrow> RemediationJob \<Rightarrow> FindingSpec list \<Rightarrow> ('w, goerr option) prog" where
  "dispatch r j correlatedFindings =
     (if (DetectInjection (fsErrors (rjFinding j)) \<or> DetectInjection (fsDetails (rjFinding j)))
         \<and> InjectionDetectionAction (rcCfg r) = ''suppress''
      then do {
        t \<leftarrow> Now (rcEnv r);
        let j1 = upd_status (\<lambda>st. st\<lparr>stPhase := PhasePermanentlyFailed\<rparr>) j;
        let j1 = add_condition (rcEnv r) ConditionPermanentlyFailed ''InjectionDetected''
                   ''injection pattern detected in finding; dispatch suppressed'' t j1;
        p \<leftarrow> Patch_status (rcEnv r) j1 (RemediationJob_DeepCopyInto j);
        ret (map_option Api (err_of p)) }
      else case rcBuild r j correlatedFindings of
          Inl er \<Rightarrow> ret (Some (Wrapped ''building Job'' er))
        | Inr job \<Rightarrow> do {
            c \<leftarrow> Create_job (rcEnv r) job;
            case c of
              Some er \<Rightarrow>
                if IsAlreadyExists er then adopt_existing r j job
                else ret (Some (Wrapped ''creating Job'' (Api er)))
            | None \<Rightarrow> do {
                t \<leftarrow> Now (rcEnv r);
                let j1 = upd_status (\<lambda>st. st\<lparr>stPhase := PhaseDispatched, stJobRef := jbName job,
                           stDispatchedAt := Some t\<rparr>) j;
                let j1 = add_condition (rcEnv r) ConditionJobDispatched ''JobCreated'' '''' t j1;
                p \<leftarrow> Patch_status (rcEnv r) j1 (RemediationJob_DeepCopyInto j);
                case p of
                  Inl er \<Rightarrow> ret (Some (Api er))
                | Inr j2 \<Rightarrow> do { job_dispatched_event r j2 job; ret None } } })"

definition dispatch_outcome ::
    "'w RemediationJobReconciler \<Rightarrow> RemediationJob \<Rightarrow> FindingSpec list \<Rightarrow> ('w, outcome) prog" where
  "dispatch_outcome r j fs = do { er \<leftarrow> dispatch r j fs; ret (done_Result, er) }"

text \<open>\<open>if limited, result, err := r.concurrencyGate(ctx); ...\<close> in front of a dispatch.\<close>

definition gated_dispatch ::
    "'w RemediationJobReconciler \<Rightarrow> RemediationJob \<Rightarrow> FindingSpec list \<Rightarrow> ('w, outcome) prog" where
  "gated_dispatch r j fs = do {
     g \<leftarrow> concurrencyGate r;
     case g of
       Inl er \<Rightarrow> ret (fail (Api er))
     | Inr (Some res) \<Rightarrow> ret (res, None)
     | Inr None \<Rightarrow> dispatch_outcome r j fs }"

section \<open>Stages of Reconcile\<close>

subsection \<open>First sight of a pull request\<close>

definition record_pr :: "'w RemediationJobReconciler \<Rightarrow> RemediationJob \<Rightarrow> ('w, RemediationJob) prog" where
  "record_pr r j =
     (if rjSinkURL j \<noteq> '''' \<and> \<not> IsStatusConditionTrue (rcEnv r) (stConditions (rjStatus j)) ConditionPRRecorded
      then do {
        emit (Metric RecordPROpened);
        t \<leftarrow> Now (rcEnv r);
        let j1 = add_condition (rcEnv r) ConditionPRRecorded ''SinkRefObserved''
                   ''SinkRef.URL observed; prs_opened_total incremented'' t j;
        p \<leftarrow> Patch_status (rcEnv r) j1 (RemediationJob_DeepCopyInto j);
        ret (after_patch j1 p) }
      else ret j)"

subsection \<open>Initial and final phases\<close>

definition init_phase :: "'w RemediationJobReconciler \<Rightarrow> RemediationJob \<Rightarrow> ('w, outcome option) prog" where
  "init_phase r j =
     (if rjPhase j = PhaseBlank then do {
        let j1 = upd_status (\<lambda>st. st\<lparr>stPhase := PhasePending\<rparr>) j;
        p \<leftarrow> Patch_status (rcEnv r) j1 (RemediationJob_DeepCopyInto j);
        ret (Some (case p of Inl er \<Rightarrow> fail (Api er) | Inr _ \<Rightarrow> (requeue_now, None))) }
      else ret None)"

definition deadline :: "Config \<Rightarrow> RemediationJobStatus \<Rightarrow> gotime \<Rightarrow> gotime" where
  "deadline cfg st completed =
     (if stPRMerged st
      then time_Add (case stPRMergedAt st of None \<Rightarrow> completed | Some t \<Rightarrow> t) (seconds (RemediationJobTTLSeconds cfg))
      else time_Add completed (short_ttl cfg))"

definition on_succeeded :: "'w RemediationJobReconciler \<Rightarrow> RemediationJob \<Rightarrow> ('w, outcome) prog" where
  "on_succeeded r j =
     (case stCompletedAt (rjStatus j) of
        None \<Rightarrow> do {
          t \<leftarrow> Now (rcEnv r);
          p \<leftarrow> Patch_status (rcEnv r)
                (upd_status (\<lambda>st. st\<lparr>stCompletedAt := Some t\<rparr>) (RemediationJob_DeepCopyInto j)) j;
          if failed (err_of p) then ret (done_Result, map_option Api (err_of p))
          else ret (requeue_after Second, None) }
      | Some completed \<Rightarrow>
          (let dl = deadline (rcCfg r) (rjStatus j) completed in do {
             t1 \<leftarrow> Now (rcEnv r);
             if time_Before t1 dl then do {
               t2 \<leftarrow> Now (rcEnv r);
               ret (requeue_after (time_Sub dl t2), None) }
             else do {
               d \<leftarrow> Delete_rjob (rcEnv r) j;
               if failed d then ret (done_Result, map_option Api d)
               else do {
                 t3 \<leftarrow> Now (rcEnv r);
                 p \<leftarrow> Patch_status (rcEnv r) (upd_status (\<lambda>st. st\<lparr>stCompletedAt := Some t3\<rparr>) j)
                       (RemediationJob_DeepCopyInto j);
                 ret (case p of Inl er \<Rightarrow> fail (Api er) | Inr _ \<Rightarrow> (requeue_now, None)) } } }))"

definition phase_switch :: "'w RemediationJobReconciler \<Rightarrow> RemediationJob \<Rightarrow> ('w, outcome option) prog" where
  "phase_switch r j =
     (case rjPhase j of
        PhaseSucceeded \<Rightarrow> do { out \<leftarrow> on_succeeded r j; ret (Some out) }
      | PhaseFailed \<Rightarrow> ret (Some finish)
      | PhasePermanentlyFailed \<Rightarrow> ret (Some finish)
      | PhaseCancelled \<Rightarrow> ret (Some finish)
      | PhaseSuppressed \<Rightarrow> ret (Some finish)
      | _ \<Rightarrow> ret None)"

subsection \<open>The owned job\<close>

definition effective_max_retries :: "RemediationJob \<Rightarrow> int" where
  "effective_max_retries j = (let m = spMaxRetries (rjSpec j) in if m \<le> 0 then 3 else m)"

text \<open>The phase of the job carried over, with the conditions; \<open>b\<close> is the object before.\<close>

definition enter_phase ::
    "'w env \<Rightarrow> RemediationJob \<Rightarrow> RemediationJobPhase \<Rightarrow> ('w, RemediationJob) prog" where
  "enter_phase e b newPhase =
     (let j = upd_status (\<lambda>st. st\<lparr>stPhase := newPhase\<rparr>) b in
      if newPhase = PhaseFailed then
        (let j = (if rjPhase b \<noteq> PhaseFailed
                  then upd_status (\<lambda>st. st\<lparr>stRetryCount := int32 (stRetryCount st + 1)\<rparr>) j else j);
             maxRetries = effective_max_retries j in
         if stRetryCount (rjStatus j) \<ge> maxRetries then do {
           t \<leftarrow> Now e;
           ret (add_condition e ConditionPermanentlyFailed ''RetryCapReached''
                  (''RetryCount '' @ int_to_dec (stRetryCount (rjStatus j)) @ '' reached MaxRetries '' @
                   int_to_dec maxRetries) t
                  (upd_status (\<lambda>st. st\<lparr>stPhase := PhasePermanentlyFailed\<rparr>) j)) }
         else do {
           t \<leftarrow> Now e;
           ret (add_condition e ConditionJobFailed (phase_string newPhase) '''' t j) })
      else if newPhase = PhaseSucceeded then do {
        t \<leftarrow> Now e;
        ret (add_condition e ConditionJobComplete (phase_string newPhase) '''' t j) }
      else ret j)"

definition stamp_completion ::
    "'w env \<Rightarrow> RemediationJob \<Rightarrow> RemediationJobPhase \<Rightarrow> RemediationJob \<Rightarrow> ('w, RemediationJob) prog" where
  "stamp_completion e b newPhase j =
     (if newPhase = PhaseSucceeded \<or> newPhase = PhaseFailed then
        (case stCompletedAt (rjStatus j) of
           Some _ \<Rightarrow> ret j
         | None \<Rightarrow> do {
             t \<leftarrow> Now e;
             (case stDispatchedAt (rjStatus j) of
                None \<Rightarrow> ret ()
              | Some d \<Rightarrow> emit (Metric (ObserveJobDuration
                  (if length (rjFingerprint j) \<ge> 12 then take 12 (rjFingerprint j) else '''')
                  (if rjPhase j = PhasePermanentlyFailed then ''permanently_failed''
                   else if newPhase = PhaseFailed then ''failed'' else ''succeeded'') d t)));
             ret (upd_status (\<lambda>st. st\<lparr>stCompletedAt := Some t\<rparr>) j) })
      else ret j)"

definition owned_job_event ::
    "'w RemediationJobReconciler \<Rightarrow> RemediationJob \<Rightarrow> Job \<Rightarrow> RemediationJobPhase \<Rightarrow> ('w, unit) prog" where
  "owned_job_event r j job newPhase =
     (if newPhase = PhaseSucceeded then
        record_event (rcRecorder r) (OnRJob (rjName j)) ''Normal'' ''JobSucceeded''
          (if stPRRef (rjStatus j) \<noteq> '''' then ''Agent Job completed; PR: '' @ stPRRef (rjStatus j)
           else ''Agent Job completed'')
      else if newPhase = PhaseFailed then
        (if rjPhase j = PhasePermanentlyFailed
         then record_event (rcRecorder r) (OnRJob (rjName j)) ''Warning'' ''JobPermanentlyFailed''
                (''Agent Job permanently failed after '' @ int_to_dec (stRetryCount (rjStatus j)) @
                 '' attempt(s); no further retries'')
         else record_event (rcRecorder r) (OnRJob (rjName j)) ''Warning'' ''JobFailed''
                (''Agent Job failed after '' @ int_to_dec (jbFailed job) @ '' attempt(s)''))
      else ret ())"

definition attach_report ::
    "'w RemediationJobReconciler \<Rightarrow> Job \<Rightarrow> RemediationJobPhase \<Rightarrow> RemediationJob \<Rightarrow> ('w, RemediationJob) prog" where
  "attach_report r job newPhase j =
     (let j = upd_status (\<lambda>st. st\<lparr>stJobRef := (if stJobRef st = '''' then jbName job else stJobRef st)\<rparr>) j in
      if newPhase = PhaseSucceeded \<and> map_get (jbAnnotations job) ''mechanic.io/dry-run'' = ''true''
         \<and> stMessage (rjStatus j) = ''''
      then do {
        rep \<leftarrow> fetchDryRunReport r j;
        ret (upd_status (\<lambda>st. st\<lparr>stMessage := rep\<rparr>) j) }
      else ret j)"

definition sync_owned ::
    "'w RemediationJobReconciler \<Rightarrow> RemediationJob \<Rightarrow> Job \<Rightarrow> ('w, outcome) prog" where
  "sync_owned r b job =
     (let newPhase = syncPhaseFromJob job in do {
        j \<leftarrow> enter_phase (rcEnv r) b newPhase;
        j \<leftarrow> stamp_completion (rcEnv r) b newPhase j;
        j \<leftarrow> attach_report r job newPhase j;
        p \<leftarrow> Patch_status (rcEnv r) j (RemediationJob_DeepCopyInto b);
        case p of
          Inl er \<Rightarrow> ret (fail (Api er))
        | Inr j' \<Rightarrow> do { owned_job_event r j' job newPhase; ret finish } })"

definition owned_jobs :: "'w RemediationJobReconciler \<Rightarrow> RemediationJob \<Rightarrow> ('w, outcome option) prog" where
  "owned_jobs r j = do {
     l \<leftarrow> outside (list_jobs (rcEnv r) (AgentNamespace (rcCfg r))
            [(''remediation.mechanic.io/remediation-job'', rjName j)]);
     case l of
       Inl er \<Rightarrow> ret (Some (fail (Api er)))
     | Inr [] \<Rightarrow> ret (if rjPhase j = PhaseDispatched \<or> rjPhase j = PhaseRunning then Some finish else None)
     | Inr (job # _) \<Rightarrow> do { out \<leftarrow> sync_owned r j job; ret (Some out) } }"

subsection \<open>Correlation\<close>

text \<open>The job is not the primary of its group: wait for it, unless it is gone for long.\<close>

definition await_primary ::
    "'w RemediationJobReconciler \<Rightarrow> RemediationJob \<Rightarrow> CorrelationGroup \<Rightarrow> duration \<Rightarrow> ('w, outcome option) prog" where
  "await_primary r j g window = do {
     l \<leftarrow> outside (list_rjobs (rcEnv r) (AgentNamespace (rcCfg r)) managed);
     case l of
       Inl er \<Rightarrow> ret (Some (fail (Wrapped ''listing all jobs to check primary liveness'' (Api er))))
     | Inr items \<Rightarrow> do {
         let primaryGone = \<not> list_ex (\<lambda>k. rjUID k = cgPrimaryUID g) items;
         let gracePeriod = int64 (3 * CorrelationWindowSeconds (rcCfg r) * Second);
         t \<leftarrow> Now (rcEnv r);
         let waitedLongEnough = time_Sub t (rjCreationTimestamp j) > int64 (gracePeriod + window);
         if primaryGone \<and> waitedLongEnough then ret None
         else ret (Some (requeue_after (5 * Second), None)) } }"

definition lead_group ::
    "'w RemediationJobReconciler \<Rightarrow> RemediationJob \<Rightarrow> RemediationJob list \<Rightarrow> CorrelationGroup \<Rightarrow> ('w, outcome) prog" where
  "lead_group r j peers g =
     (let label = map_get (rjLabels j) CorrelationGroupIDLabel;
          gid = (if stCorrelationGroupID (rjStatus j) \<noteq> '''' then stCorrelationGroupID (rjStatus j)
                 else if label \<noteq> '''' then label else cgGroupID g);
          g = g\<lparr>cgGroupID := gid\<rparr> in do {
        er \<leftarrow> suppressCorrelatedPeers r peers g;
        case er of
          Some x \<Rightarrow> ret (fail (Api x))
        | None \<Rightarrow> do {
            p \<leftarrow> Patch_status (rcEnv r) (upd_status (\<lambda>st. st\<lparr>stCorrelationGroupID := gid\<rparr>) j)
                  (RemediationJob_DeepCopyInto j);
            case p of
              Inl x \<Rightarrow> ret (fail (Api x))
            | Inr j1 \<Rightarrow> do {
                q \<leftarrow> Patch_rjob (rcEnv r) (set_group_labels gid CorrelationRolePrimary j1)
                      (RemediationJob_DeepCopyInto j1);
                case q of
                  Inl x \<Rightarrow> ret (fail (Api x))
                | Inr j2 \<Rightarrow> dispatch_outcome r j2 (cgAllFindings g) } } })"

definition correlate ::
    "'w RemediationJobReconciler \<Rightarrow> 'w CorrelationRule list \<Rightarrow> RemediationJob \<Rightarrow> duration \<Rightarrow> ('w, outcome option) prog" where
  "correlate r rules j window = do {
     ps \<leftarrow> pendingPeers r j;
     case ps of
       Inl er \<Rightarrow> ret (Some (fail (Wrapped ''listing pending peers'' (Api er))))
     | Inr peers \<Rightarrow> do {
         ev \<leftarrow> Correlator_Evaluate rules j peers;
         case ev of
           Inl er \<Rightarrow> ret (Some (fail (Wrapped ''correlator evaluate'' er)))
         | Inr None \<Rightarrow> ret None
         | Inr (Some g) \<Rightarrow>
             if cgPrimaryUID g \<noteq> rjUID j then await_primary r j g window
             else do { out \<leftarrow> lead_group r j peers g; ret (Some out) } } }"

text \<open>
  A primary whose dispatch failed after its peers were suppressed finds its group again through
  the group id in its status.
\<close>

definition recover_group :: "'w RemediationJobReconciler \<Rightarrow> RemediationJob \<Rightarrow> ('w, outcome option) prog" where
  "recover_group r j =
     (if stCorrelationGroupID (rjStatus j) \<noteq> '''' \<and> rjPhase j = PhasePending then do {
        l \<leftarrow> outside (list_rjobs (rcEnv r) (AgentNamespace (rcCfg r)) managed);
        case l of
          Inl er \<Rightarrow> ret (Some (fail (Wrapped ''listing peers for correlation recovery'' (Api er))))
        | Inr items \<Rightarrow> do {
            let recovered = map rjFinding (filter (\<lambda>p. rjUID p \<noteq> rjUID j
                 \<and> stCorrelationGroupID (rjStatus p) = stCorrelationGroupID (rjStatus j)
                 \<and> rjPhase p = PhaseSuppressed) items);
            if map_get (rjLabels j) CorrelationGroupIDLabel = '''' then do {
              q \<leftarrow> Patch_rjob (rcEnv r)
                    (set_group_labels (stCorrelationGroupID (rjStatus j)) CorrelationRolePrimary j)
                    (RemediationJob_DeepCopyInto j);
              case q of
                Inl x \<Rightarrow> ret (Some (fail (Api x)))
              | Inr j1 \<Rightarrow> do { out \<leftarrow> gated_dispatch r j1 recovered; ret (Some out) } }
            else do { out \<leftarrow> gated_dispatch r j recovered; ret (Some out) } } }
      else ret None)"

definition window_hold :: "'w RemediationJobReconciler \<Rightarrow> RemediationJob \<Rightarrow> duration \<Rightarrow> ('w, outcome option) prog" where
  "window_hold r j window =
     (if window > 0 then do {
        t \<leftarrow> Now (rcEnv r);
        let age = time_Sub t (rjCreationTimestamp j);
        ret (if age < window then Some (requeue_after (int64 (window - age)), None) else None) }
      else ret None)"

definition correlation_stage ::
    "'w RemediationJobReconciler \<Rightarrow> RemediationJob \<Rightarrow> ('w, outcome) prog \<Rightarrow> ('w, outcome) prog" where
  "correlation_stage r j k =
     (case rcCorrelator r of
        None \<Rightarrow> k
      | Some rules \<Rightarrow>
          (let window = seconds (CorrelationWindowSeconds (rcCfg r)) in
           gate (window_hold r j window)
             (gate (correlate r rules j window)
               (gate (recover_group r j) k))))"

section \<open>Reconcile\<close>

definition reconcile_rjob :: "'w RemediationJobReconciler \<Rightarrow> RemediationJob \<Rightarrow> ('w, outcome) prog" where
  "reconcile_rjob r j =
     gate (init_phase r j)
      (gate (phase_switch r j)
        (gate (owned_jobs r j)
          (correlation_stage r j (gated_dispatch r j []))))"

definition Controller_Reconcile ::
    "'w RemediationJobReconciler \<Rightarrow> NamespacedName \<Rightarrow> ('w, outcome) prog" where
  "Controller_Reconcile r req = do {
     g \<leftarrow> outside (get_rjob (rcEnv r) req);
     case g of
       Inl er \<Rightarrow> if IsNotFound er then ret finish else ret (fail (Api er))
     | Inr j0 \<Rightarrow> do {
         j \<leftarrow> record_pr r j0;
         reconcile_rjob r j } }"

end
