(* ===== verification/Lifecycle.thy ===== *)
theory Lifecycle
  imports Controller Provider
begin

text \<open>
  The life of a \<open>RemediationJob\<close> under the controller: the phases a status patch may connect, the
  retry count over the whole history of a job under both reconcilers, and the expiry of succeeded
  jobs. The stages of \<open>Reconcile\<close> are gone through once, in \<open>reconcile_rjob_emits\<close>: what holds of
  the effects of every stage, in the phases that reach it, holds of the effects of the reconcile.
\<close>

section \<open>The life cycle of a job\<close>

text \<open>
  The phases a status patch of the controller may connect. Every other step is excluded: in
  particular a failed, permanently failed, cancelled, suppressed or succeeded job stays what it is.
\<close>

inductive phase_step :: "RemediationJobPhase \<Rightarrow> RemediationJobPhase \<Rightarrow> bool" where
  stay: "phase_step p p"
| init: "phase_step PhaseBlank PhasePending"
| suppress: "phase_step PhasePending PhaseSuppressed"
| work: "p \<in> {PhasePending, PhaseDispatched, PhaseRunning} \<Longrightarrow>
    q \<in> {PhaseDispatched, PhaseRunning, PhaseSucceeded, PhaseFailed, PhasePermanentlyFailed} \<Longrightarrow> phase_step p q"

inductive_cases phase_step_terminalE:
  "phase_step PhaseSucceeded q" "phase_step PhaseFailed q" "phase_step PhaseCancelled q"
  "phase_step PhasePermanentlyFailed q" "phase_step PhaseSuppressed q"

text \<open>
  What a status patch from \<open>b\<close> to \<open>k\<close> may change: a legal phase step; the retry count is kept, or
  raised by one on the way from an active phase into Failed or PermanentlyFailed; a job becomes
  PermanentlyFailed only at its cap or because of an injection in its finding; the spec is kept.
\<close>

definition injected :: "RemediationJob \<Rightarrow> bool" where
  "injected j \<longleftrightarrow> DetectInjection (fsErrors (rjFinding j)) \<or> DetectInjection (fsDetails (rjFinding j))"

definition retries :: "RemediationJob \<Rightarrow> int" where
  "retries j = stRetryCount (rjStatus j)"

definition legal_patch :: "RemediationJob \<Rightarrow> RemediationJob \<Rightarrow> bool" where
  "legal_patch b k \<longleftrightarrow>
     rjSpec k = rjSpec b
     \<and> phase_step (rjPhase b) (rjPhase k)
     \<and> (retries k = retries b
        \<or> retries k = int32 (retries b + 1) \<and> rjPhase b \<in> {PhasePending, PhaseDispatched, PhaseRunning}
          \<and> rjPhase k \<in> {PhaseFailed, PhasePermanentlyFailed})
     \<and> (rjPhase k = PhasePermanentlyFailed \<longrightarrow> rjPhase b \<noteq> PhasePermanentlyFailed \<longrightarrow>
          effective_max_retries b \<le> retries k \<and> retries k = int32 (retries b + 1) \<or> injected b)"

text \<open>
  The one exception. Before it dispatches the primary of a group the controller patches the labels of
  the job and goes on with the object the server answers, without looking at its phase again. If some
  other writer has changed the phase in between, the job is dispatched from whatever phase the answer has.
\<close>

definition dispatch_patch :: "RemediationJob \<Rightarrow> RemediationJob \<Rightarrow> bool" where
  "dispatch_patch b k \<longleftrightarrow> rjSpec k = rjSpec b \<and> retries k = retries b
     \<and> rjPhase k \<in> {PhaseDispatched, PhaseRunning, PhaseSucceeded, PhaseFailed, PhasePermanentlyFailed}
     \<and> (rjPhase k = PhasePermanentlyFailed \<longrightarrow> injected b)"

definition overtaken :: "'w RemediationJobReconciler \<Rightarrow> RemediationJob \<Rightarrow> RemediationJob \<Rightarrow> bool" where
  "overtaken r b k \<longleftrightarrow> rcCorrelator r \<noteq> None \<and> dispatch_patch b k \<and> rjPhase b \<noteq> PhasePending
     \<and> (\<exists>j gid w. fst (patch_rjob (rcEnv r) (set_group_labels gid CorrelationRolePrimary j) j w) = Inr b)"

definition lawful :: "'w RemediationJobReconciler \<Rightarrow> effect \<Rightarrow> bool" where
  "lawful r ef \<longleftrightarrow> (\<forall>b k x. ef = PatchStatus b k x \<longrightarrow> legal_patch b k \<or> overtaken r b k)"

lemma lawful_simps [simp]:
  "lawful r (PatchStatus b k x) \<longleftrightarrow> legal_patch b k \<or> overtaken r b k"
  "lawful r (CreateRJob j x)" "lawful r (PatchMeta b j x)" "lawful r (DeleteRJob j x)" "lawful r (CreateJob jb x)"
  "lawful r (DeleteConfigMap n x)" "lawful r (CloseSink j ms y)" "lawful r (Event su ty re ms)" "lawful r (Metric mt)"
  by (auto simp: lawful_def)

lemma emits_bind_returns:
  assumes "emits A m" and "\<And>s. P (fst (run_state m s))" and "\<And>x. P x \<Longrightarrow> emits A (f x)"
  shows "emits A (State_Monad.bind m f)"
  unfolding emits_def
proof (rule does_bind [where T = "\<lambda>x es. P x \<and> list_all A es" and U = "\<lambda>x y es. list_all A es"])
  show "does m (\<lambda>x es. P x \<and> list_all A es)"
    using assms(1,2) unfolding emits_def does_def by blast
qed (use assms(3) in \<open>auto simp: emits_def\<close>)

lemma emits_patch_meta:
  assumes "\<And>x. A (PatchMeta b j x)"
    and "\<And>er. emits A (f (Inl er))" and "\<And>k w. fst (patch_rjob e j b w) = Inr k \<Longrightarrow> emits A (f (Inr k))"
  shows "emits A (State_Monad.bind (Patch_rjob e j b) f)"
proof (rule emits_bind_returns [where P = "\<lambda>r. case r of Inl _ \<Rightarrow> True | Inr k \<Rightarrow> \<exists>w. fst (patch_rjob e j b w) = Inr k"])
  show "emits A (Patch_rjob e j b)" using assms(1) by (intro emits_rules)
  show "case fst (run_state (Patch_rjob e j b) s) of Inl _ \<Rightarrow> True | Inr k \<Rightarrow> \<exists>w. fst (patch_rjob e j b w) = Inr k" for s
    by (auto simp: Patch_rjob_def run_bind run_outside_fst run_emit split: sum.splits)
qed (use assms(2,3) in \<open>auto split: sum.splits\<close>)

text \<open>The part of a job a legal patch speaks about.\<close>

definition core :: "RemediationJob \<Rightarrow> RemediationJobSpec \<times> RemediationJobPhase \<times> int" where
  "core j = (rjSpec j, rjPhase j, retries j)"

lemma legal_patch_core: "core k = core k' \<Longrightarrow> legal_patch b k = legal_patch b k'"
  by (simp add: core_def legal_patch_def)

lemma core_add_condition [simp]: "core (add_condition e ty re ms t j) = core j"
  by (simp add: core_def add_condition_def retries_def)

lemma legal_stay: "core k = core b \<Longrightarrow> legal_patch b k"
  by (auto simp: core_def legal_patch_def intro: phase_step.stay)

lemma run_enter_phase:
  assumes "rjPhase b \<in> {PhasePending, PhaseDispatched, PhaseRunning}"
  shows "legal_patch b (fst (run_state (enter_phase e b (syncPhaseFromJob job)) s))"
proof -
  let ?q = "syncPhaseFromJob job"
  have q: "?q \<in> {PhaseDispatched, PhaseRunning, PhaseSucceeded, PhaseFailed}"
    by (simp add: syncPhaseFromJob_def)
  have step: "phase_step (rjPhase b) p" if "p \<in> {PhaseDispatched, PhaseRunning, PhaseSucceeded, PhaseFailed, PhasePermanentlyFailed}" for p
    using assms that by (rule phase_step.work)
  show ?thesis
  proof (cases "?q = PhaseFailed")
    case True
    with assms show ?thesis
      by (auto simp: enter_phase_def Let_def run_bind run_Now legal_patch_def add_condition_def retries_def
          effective_max_retries_def intro!: step split: prod.splits)
  next
    case False
    with q show ?thesis
      by (auto simp: enter_phase_def Let_def run_bind run_Now legal_patch_def add_condition_def retries_def
          intro!: step split: prod.splits)
  qed
qed

lemma run_stamp_completion: "core (fst (run_state (stamp_completion e b q j) s)) = core j"
  by (auto simp: stamp_completion_def core_def retries_def run_bind run_Now run_emit
      split: option.splits prod.splits)

lemma enter_phase_emits: "emits A (enter_phase e b q)"
  unfolding enter_phase_def by (intro emits_rules)

lemma stamp_completion_emits: "(\<And>m. A (Metric m)) \<Longrightarrow> emits A (stamp_completion e b q j)"
  unfolding stamp_completion_def by (intro emits_rules; simp)

lemma fetchDryRunReport_emits: "(\<And>n x. A (DeleteConfigMap n x)) \<Longrightarrow> emits A (fetchDryRunReport r j)"
  unfolding fetchDryRunReport_def by (intro emits_rules; simp)

lemma run_attach_report: "core (fst (run_state (attach_report r job q j) s)) = core j"
  by (auto simp: attach_report_def Let_def core_def retries_def run_bind split: prod.splits)

lemma attach_report_emits: "(\<And>n x. A (DeleteConfigMap n x)) \<Longrightarrow> emits A (attach_report r job q j)"
  unfolding attach_report_def by (intro emits_rules fetchDryRunReport_emits; simp)

lemma owned_job_event_emits: "(\<And>su ty re ms. A (Event su ty re ms)) \<Longrightarrow> emits A (owned_job_event r j job q)"
  unfolding owned_job_event_def by (intro emits_rules; simp)

lemma sync_owned_emits:
  assumes "\<And>m. A (Metric m)" and "\<And>su ty re ms. A (Event su ty re ms)" and "\<And>n x. A (DeleteConfigMap n x)"
    and "\<And>k x. legal_patch b k \<Longrightarrow> A (PatchStatus b k x)"
    and "rjPhase b \<in> {PhasePending, PhaseDispatched, PhaseRunning}"
  shows "emits A (sync_owned r b job)"
proof -
  have tail: "emits A (do { p \<leftarrow> Patch_status (rcEnv r) j b;
        case p of Inl er \<Rightarrow> ret (fail (Api er))
        | Inr j' \<Rightarrow> do { owned_job_event r j' job q; ret finish } })" if "legal_patch b j" for j q
    using that assms(2,4) by (intro emits_rules owned_job_event_emits) simp_all
  have att: "emits A (State_Monad.bind (attach_report r job q j) (\<lambda>j. do {
        p \<leftarrow> Patch_status (rcEnv r) j b;
        case p of Inl er \<Rightarrow> ret (fail (Api er))
        | Inr j' \<Rightarrow> do { owned_job_event r j' job q; ret finish } }))" if "legal_patch b j" for j q
    by (rule emits_bind_returns [where P = "\<lambda>k. core k = core j"])
      (auto simp: run_attach_report attach_report_emits assms(3) intro!: tail legal_patch_core [THEN iffD1, OF _ that])
  have stamp: "emits A (State_Monad.bind (stamp_completion (rcEnv r) b q j) (\<lambda>j.
      State_Monad.bind (attach_report r job q j) (\<lambda>j. do {
        p \<leftarrow> Patch_status (rcEnv r) j b;
        case p of Inl er \<Rightarrow> ret (fail (Api er))
        | Inr j' \<Rightarrow> do { owned_job_event r j' job q; ret finish } })))" if "legal_patch b j" for j q
    by (rule emits_bind_returns [where P = "\<lambda>k. core k = core j"])
      (auto simp: run_stamp_completion stamp_completion_emits assms(1) intro!: att legal_patch_core [THEN iffD1, OF _ that])
  show ?thesis
    unfolding sync_owned_def Let_def
    by (rule emits_bind_returns [where P = "legal_patch b"])
      (auto intro: enter_phase_emits run_enter_phase [OF assms(5)] stamp)
qed

lemma init_phase_lawful: "emits (lawful r) (init_phase r j)"
  unfolding init_phase_def Let_def
  by (intro emits_rules; simp add: legal_patch_def retries_def) (metis phase_step.init)

lemma on_succeeded_lawful: "emits (lawful r) (on_succeeded r j)"
  unfolding on_succeeded_def Let_def by (intro emits_rules; simp add: legal_stay core_def retries_def)

lemma phase_switch_lawful: "emits (lawful r) (phase_switch r j)"
  unfolding phase_switch_def by (cases "rjPhase j"; simp; intro emits_rules on_succeeded_lawful)

lemma owned_jobs_lawful:
  assumes "rjPhase j \<in> {PhasePending, PhaseDispatched, PhaseRunning}"
  shows "emits (lawful r) (owned_jobs r j)"
  unfolding owned_jobs_def
  by (intro emits_rules) (auto split: list.splits intro!: emits_rules sync_owned_emits [OF _ _ _ _ assms])

lemma concurrencyGate_emits:
  assumes "\<And>m. A (Metric m)"
  shows "emits A (concurrencyGate r)"
proof -
  have act: "emits A (isJobActive e job)" for e job unfolding isJobActive_def by (intro emits_rules)
  have cnt: "emits A (count_active e jobs)" for e jobs by (induction jobs) (auto intro!: emits_rules act)
  show ?thesis unfolding concurrencyGate_def by (intro emits_rules cnt assms)
qed

lemma job_dispatched_event_emits:
  "(\<And>su ty re ms. A (Event su ty re ms)) \<Longrightarrow> emits A (job_dispatched_event r j jb)"
  unfolding job_dispatched_event_def by (intro emits_rules; simp)

lemma syncPhaseFromJob_range: "syncPhaseFromJob job \<in> {PhaseDispatched, PhaseRunning, PhaseSucceeded, PhaseFailed}"
  by (simp add: syncPhaseFromJob_def)

lemma syncPhaseFromJob_not_permanent [simp]: "syncPhaseFromJob job \<noteq> PhasePermanentlyFailed"
  by (simp add: syncPhaseFromJob_def)

lemma dispatch_emits:
  assumes "\<And>su ty re ms. A (Event su ty re ms)" and "\<And>jb x. A (CreateJob jb x)"
    and "\<And>k x. dispatch_patch j k \<Longrightarrow> A (PatchStatus j k x)"
  shows "emits A (dispatch r j fs)"
proof -
  have "emits A (adopt_existing r j job)" for job
    unfolding adopt_existing_def Let_def using syncPhaseFromJob_range assms(1)
    by (intro emits_rules job_dispatched_event_emits) (auto simp: dispatch_patch_def retries_def intro!: assms(3))
  then show ?thesis
    unfolding dispatch_def Let_def using assms(1,2)
    by (intro emits_rules job_dispatched_event_emits)
      (auto simp: dispatch_patch_def retries_def add_condition_def injected_def intro!: assms(3))
qed

lemma dispatch_patch_legal: "dispatch_patch b k \<Longrightarrow> rjPhase b = PhasePending \<Longrightarrow> legal_patch b k"
  by (auto simp: dispatch_patch_def legal_patch_def intro!: phase_step.work)

text \<open>A dispatch of a pending job is legal, and of an object the server answered at worst overtaken.\<close>

definition dispatchable :: "'w RemediationJobReconciler \<Rightarrow> RemediationJob \<Rightarrow> bool" where
  "dispatchable r j \<longleftrightarrow> rjPhase j = PhasePending \<or> rcCorrelator r \<noteq> None
     \<and> (\<exists>k gid w. fst (patch_rjob (rcEnv r) (set_group_labels gid CorrelationRolePrimary k) k w) = Inr j)"

lemma dispatch_lawful: "dispatchable r j \<Longrightarrow> emits (lawful r) (dispatch r j fs)"
  by (rule dispatch_emits) (auto simp: dispatchable_def overtaken_def dest: dispatch_patch_legal)

lemma gated_dispatch_lawful: "dispatchable r j \<Longrightarrow> emits (lawful r) (gated_dispatch r j fs)"
  unfolding gated_dispatch_def dispatch_outcome_def
  by (intro emits_rules concurrencyGate_emits dispatch_lawful) simp_all

lemma transitionSuppressed_lawful:
  "emits (lawful r) (transitionSuppressed r j gid uid)"
  unfolding transitionSuppressed_def Let_def
  by (intro emits_rules)
    (auto simp: legal_patch_def retries_def add_condition_def intro: phase_step.suppress)

lemma suppressCorrelatedPeers_emits:
  "(\<And>p. p \<in> set peers \<Longrightarrow> emits A (transitionSuppressed r p (cgGroupID g) (cgPrimaryUID g))) \<Longrightarrow>
     emits A (suppressCorrelatedPeers r peers g)"
  by (induction peers) (auto intro!: emits_rules)

lemma lead_group_lawful:
  assumes "rcCorrelator r \<noteq> None"
  shows "emits (lawful r) (lead_group r j peers g)"
  unfolding lead_group_def Let_def
proof (intro emits_bind [OF suppressCorrelatedPeers_emits [OF transitionSuppressed_lawful]] emits_cases emits_prim)
  fix gid :: string and fs
  have labels: "emits (lawful r) (do {
      q \<leftarrow> Patch_rjob (rcEnv r) (set_group_labels gid CorrelationRolePrimary j1) (RemediationJob_DeepCopyInto j1);
      case q of Inl x \<Rightarrow> ret (fail (Api x)) | Inr j2 \<Rightarrow> dispatch_outcome r j2 fs })" for j1
    unfolding DeepCopyInto_id dispatch_outcome_def
    by (rule emits_patch_meta) (auto simp: dispatchable_def assms intro!: emits_rules dispatch_lawful)
  show "emits (lawful r) (do {
      p \<leftarrow> Patch_status (rcEnv r) (upd_status (\<lambda>st. st\<lparr>stCorrelationGroupID := gid\<rparr>) j) (RemediationJob_DeepCopyInto j);
      case p of
        Inl x \<Rightarrow> ret (fail (Api x))
      | Inr j1 \<Rightarrow> do {
          q \<leftarrow> Patch_rjob (rcEnv r) (set_group_labels gid CorrelationRolePrimary j1) (RemediationJob_DeepCopyInto j1);
          case q of Inl x \<Rightarrow> ret (fail (Api x)) | Inr j2 \<Rightarrow> dispatch_outcome r j2 fs } })"
    by (intro emits_bind emits_calls emits_cases labels emits_prim) (simp add: legal_stay core_def retries_def)
qed

lemma recover_group_lawful:
  assumes "rcCorrelator r \<noteq> None"
  shows "emits (lawful r) (recover_group r j)"
proof -
  have lab: "emits (lawful r) (State_Monad.bind (Patch_rjob (rcEnv r) (set_group_labels gid CorrelationRolePrimary j) j)
      (\<lambda>q. case q of Inl x \<Rightarrow> ret (Some (fail (Api x)))
        | Inr j1 \<Rightarrow> State_Monad.bind (gated_dispatch r j1 fs) (\<lambda>out. ret (Some out))))" for gid fs
    by (rule emits_patch_meta) (auto simp: dispatchable_def assms intro!: emits_rules gated_dispatch_lawful)
  have one: "emits (lawful r) (State_Monad.bind (gated_dispatch r j fs) (\<lambda>out. ret (Some out)))"
    if "rjPhase j = PhasePending" for fs
    using that by (intro emits_rules gated_dispatch_lawful) (simp add: dispatchable_def)
  show ?thesis
    unfolding recover_group_def Let_def
    by (intro emits_bind [OF emits_prim(3)] emits_if emits_cases emits_prim) (simp_all add: lab one)
qed

lemma window_hold_emits: "emits A (window_hold r j w)"
  unfolding window_hold_def by (intro emits_rules)

lemma pendingPeers_emits: "emits A (pendingPeers r j)"
  unfolding pendingPeers_def by (intro emits_rules)

lemma await_primary_emits: "emits A (await_primary r j g w)"
  unfolding await_primary_def by (intro emits_rules)

text \<open>The correlator the watcher wires in is silent, and the stages are passed only as follows.\<close>

definition wired_by_watcher :: "'w RemediationJobReconciler \<Rightarrow> bool" where
  "wired_by_watcher r \<longleftrightarrow> buildCorrelator (rcEnv r) (rcCfg r) = Inr (rcCorrelator r)"

lemma wired_rules:
  "wired_by_watcher r \<Longrightarrow> rcCorrelator r = Some rules \<Longrightarrow> rules = builtin_rules (rcEnv r) (rcCfg r)"
  by (auto simp: wired_by_watcher_def buildCorrelator_def split: if_splits)

lemma wired_Evaluate_emits:
  "wired_by_watcher r \<Longrightarrow> rcCorrelator r = Some rules \<Longrightarrow> emits A (Correlator_Evaluate rules j peers)"
  using wired_rules by (blast intro: Correlator_Evaluate_emits builtin_rule_contract)

lemma passes_init_phase: "passes (init_phase r j) (rjPhase j \<noteq> PhaseBlank)"
  by (auto simp: passes_def init_phase_def run_bind split: prod.splits)

lemma passes_phase_switch:
  "passes (phase_switch r j) (rjPhase j \<in> {PhaseBlank, PhasePending, PhaseDispatched, PhaseRunning})"
  by (cases "rjPhase j") (auto simp: passes_def phase_switch_def run_bind split: prod.splits)

lemma passes_owned_jobs: "passes (owned_jobs r j) (rjPhase j \<notin> {PhaseDispatched, PhaseRunning})"
  by (auto simp: passes_def owned_jobs_def run_bind split: prod.splits sum.splits list.splits)

text \<open>What the stages emit, the reconcile emits; the phase each stage meets is known.\<close>

lemma correlation_stage_emits:
  assumes "wired_by_watcher r" and "\<And>peers g. rcCorrelator r \<noteq> None \<Longrightarrow> emits A (lead_group r j peers g)"
    and "rcCorrelator r \<noteq> None \<Longrightarrow> emits A (recover_group r j)" and "emits A k"
  shows "emits A (correlation_stage r j k)"
proof (cases "rcCorrelator r")
  case (Some rules)
  have "emits A (correlate r rules j w)" for w
    unfolding correlate_def
    by (intro emits_rules pendingPeers_emits wired_Evaluate_emits [OF assms(1) Some] await_primary_emits assms(2)) (simp add: Some)
  moreover have "emits A (recover_group r j)" using assms(3) by (simp add: Some)
  ultimately show ?thesis
    unfolding correlation_stage_def Let_def Some option.case
    by (intro emits_gate [OF _ passes_trivial] window_hold_emits assms(4)) simp_all
qed (simp add: correlation_stage_def assms(4))

lemma reconcile_rjob_emits:
  assumes "wired_by_watcher r"
    and "rjPhase j = PhaseBlank \<Longrightarrow> emits A (init_phase r j)"
    and "emits A (phase_switch r j)"
    and "rjPhase j \<in> {PhasePending, PhaseDispatched, PhaseRunning} \<Longrightarrow> emits A (owned_jobs r j)"
    and "\<And>peers g. rjPhase j = PhasePending \<Longrightarrow> rcCorrelator r \<noteq> None \<Longrightarrow> emits A (lead_group r j peers g)"
    and "rjPhase j = PhasePending \<Longrightarrow> rcCorrelator r \<noteq> None \<Longrightarrow> emits A (recover_group r j)"
    and "rjPhase j = PhasePending \<Longrightarrow> emits A (gated_dispatch r j [])"
  shows "emits A (reconcile_rjob r j)"
  unfolding reconcile_rjob_def
proof (intro emits_gate [OF _ passes_init_phase] emits_gate [OF _ passes_phase_switch]
    emits_gate [OF _ passes_owned_jobs])
  show "emits A (init_phase r j)"
    using assms(2) by (cases "rjPhase j = PhaseBlank") (auto simp: init_phase_def intro: emits_rules)
  assume p: "rjPhase j \<noteq> PhaseBlank" "rjPhase j \<in> {PhaseBlank, PhasePending, PhaseDispatched, PhaseRunning}"
  then show "emits A (owned_jobs r j)" by (intro assms(4)) auto
  assume "rjPhase j \<notin> {PhaseDispatched, PhaseRunning}"
  with p have "rjPhase j = PhasePending" by simp
  then show "emits A (correlation_stage r j (gated_dispatch r j []))"
    by (intro correlation_stage_emits assms(1,5-7))
qed (rule assms(3))

lemma reconcile_rjob_lawful: "wired_by_watcher r \<Longrightarrow> emits (lawful r) (reconcile_rjob r j)"
  by (intro reconcile_rjob_emits init_phase_lawful phase_switch_lawful owned_jobs_lawful lead_group_lawful
      recover_group_lawful gated_dispatch_lawful) (simp_all add: dispatchable_def)

lemma record_pr_lawful: "emits (lawful r) (record_pr r j)"
  unfolding record_pr_def Let_def by (intro emits_rules; simp add: legal_stay)

lemma Controller_Reconcile_lawful: "wired_by_watcher r \<Longrightarrow> emits (lawful r) (Controller_Reconcile r req)"
  unfolding Controller_Reconcile_def by (intro emits_rules record_pr_lawful reconcile_rjob_lawful)

text \<open>
  C1. The life cycle: whatever the cluster contains and whatever the API server answers, every status
  patch a reconcile of the controller sends connects two phases of the state machine \<open>phase_step\<close>, keeps
  the spec, raises the retry count by at most one and only on the way into a failure, and declares a job
  permanently failed only at its retry cap or for an injection. In particular a job that succeeded,
  failed, was cancelled or suppressed stays so. The only exception is the dispatch of the primary of a
  group (with correlation on) that another writer moved out of Pending while its labels were patched.
  There is no step from Failed back to Dispatched, which the README draws as the retry of a failed job.
\<close>

theorem phases_follow_the_life_cycle:
  assumes "wired_by_watcher r" and "run_state (Controller_Reconcile r req) s = (out, s')"
  shows "\<exists>es. trace s' = trace s @ es
    \<and> (\<forall>b k x. PatchStatus b k x \<in> set es \<longrightarrow> overtaken r b k \<or> legal_patch b k
         \<and> (rjPhase b \<in> {PhaseSucceeded, PhaseFailed, PhasePermanentlyFailed, PhaseCancelled, PhaseSuppressed}
            \<longrightarrow> rjPhase k = rjPhase b))"
proof -
  from Controller_Reconcile_lawful [OF assms(1)] assms(2) obtain es
    where es: "trace s' = trace s @ es" "\<forall>e \<in> set es. lawful r e" by (rule emitsD) blast
  have "legal_patch b k \<or> overtaken r b k" if "PatchStatus b k x \<in> set es" for b k x
    using bspec [OF es(2) that] by simp
  moreover have "q = p" if "phase_step p q"
    "p \<in> {PhaseSucceeded, PhaseFailed, PhasePermanentlyFailed, PhaseCancelled, PhaseSuppressed}" for p q
    using that by (auto elim: phase_step_terminalE)
  ultimately show ?thesis using es(1) unfolding legal_patch_def by blast
qed

definition sample_job :: Job where
  "sample_job = \<lparr>jbName = ''mechanic-agent-0123456789ab'', jbNamespace = ''mechanic'', jbLabels = Map.empty,
     jbAnnotations = Map.empty, jbCreationTimestamp = 0, jbOwnerUID = '''', jbBackoffLimit = Some 1,
     jbActive = 0, jbSucceeded = 0, jbFailed = 0\<rparr>"

definition sample_controller :: "'w env \<Rightarrow> 'w RemediationJobReconciler" where
  "sample_controller e = \<lparr>rcEnv = e, rcCfg = default_Config, rcBuild = (\<lambda>j fs. Inr sample_job),
     rcRecorder = True, rcCorrelator = Some (builtin_rules e default_Config)\<rparr>"

lemma sample_controller_wired: "wired_by_watcher (sample_controller e)"
  by (simp add: wired_by_watcher_def sample_controller_def buildCorrelator_def default_Config_def)

text \<open>A first reconcile on the sample cluster.\<close>

lemma run_fresh:
  assumes "rjPhase k = PhaseBlank" and "rjSinkURL k = ''''"
  shows "\<exists>s'. run_state (Controller_Reconcile (sample_controller cluster_env) \<lparr>nnNamespace = rjNamespace k, nnName = rjName k\<rparr>)
      (start (empty_cluster\<lparr>clRJobs := [k]\<rparr>)) = ((requeue_now, None), s')
    \<and> trace s' = [PatchStatus k (upd_status (\<lambda>st. st\<lparr>stPhase := PhasePending\<rparr>) k) None]"
  using assms
  by (simp add: Controller_Reconcile_def reconcile_rjob_def record_pr_def init_phase_def gate_def run_simps
      sample_controller_def cluster_simps Let_def)

abbreviation fresh_rjob :: RemediationJob where
  "fresh_rjob \<equiv> sample_rjob ''a'' 0 (sample_finding ''Pod'' ''web'' '''') PhaseBlank"

theorem phases_follow_the_life_cycle_witness:
  "\<exists>s' k. run_state (Controller_Reconcile (sample_controller cluster_env) \<lparr>nnNamespace = ''mechanic'', nnName = ''a''\<rparr>)
       (start (empty_cluster\<lparr>clRJobs := [fresh_rjob]\<rparr>)) = ((requeue_now, None), s')
     \<and> trace s' = [PatchStatus fresh_rjob k None] \<and> rjPhase k = PhasePending \<and> legal_patch fresh_rjob k"
proof -
  have fresh: "rjPhase fresh_rjob = PhaseBlank" "rjSinkURL fresh_rjob = ''''"
    "rjName fresh_rjob = ''a''" "rjNamespace fresh_rjob = ''mechanic''"
    by (simp_all add: sample_rjob_def zero_Status_def zero_SinkRef_def)
  let ?k = "upd_status (\<lambda>st. st\<lparr>stPhase := PhasePending\<rparr>) fresh_rjob"
  obtain s' where run: "run_state (Controller_Reconcile (sample_controller cluster_env) \<lparr>nnNamespace = ''mechanic'', nnName = ''a''\<rparr>)
       (start (empty_cluster\<lparr>clRJobs := [fresh_rjob]\<rparr>)) = ((requeue_now, None), s')"
    and tr: "trace s' = [PatchStatus fresh_rjob ?k None]"
    using run_fresh [OF fresh(1,2)] unfolding fresh(3,4) by blast
  have "\<not> overtaken (sample_controller cluster_env) fresh_rjob ?k"
    by (simp add: overtaken_def dispatch_patch_def)
  then have "legal_patch fresh_rjob ?k"
    using phases_follow_the_life_cycle [OF sample_controller_wired run] tr by (auto simp: start_def)
  with run tr show ?thesis by auto
qed

section \<open>The history of a job\<close>

definition effects :: "('w, 'a) prog \<Rightarrow> 'w sys \<Rightarrow> effect list" where
  "effects m s = drop (length (trace s)) (trace (snd (run_state m s)))"

text \<open>
  What a status patch makes of a stored object: the difference between the base \<open>b\<close> and the sent
  object \<open>k\<close> is applied to the object \<open>c\<close> the server holds, which need not be \<open>b\<close>; the spec is not part
  of the status. This is the JSON merge patch of the API, for the fields that matter here.
\<close>

definition merged :: "RemediationJob \<Rightarrow> RemediationJob \<Rightarrow> RemediationJob \<Rightarrow> RemediationJob \<Rightarrow> bool" where
  "merged b k c c' \<longleftrightarrow> rjSpec c' = rjSpec c
     \<and> rjPhase c' = (if rjPhase k = rjPhase b then rjPhase c else rjPhase k)
     \<and> retries c' = (if retries k = retries b then retries c else retries k)"

text \<open>
  The versions of one job under a controller \<open>r\<close> and provider reconcilers \<open>ps\<close>, newest first, with
  the number of races so far. A job is created by a provider, with an empty status, as the API server
  stores it. A reconciler may work on any version, however stale, and its accepted patch is merged into
  the newest one; the agent and users may write what is outside of spec, phase and retry count, for
  instance the reference to the pull request. A patch of the controller is a race if it was computed
  from another phase or retry count than the stored one, or from a phase it did not check.
\<close>

inductive history ::
    "'w RemediationJobReconciler \<Rightarrow> ('w, 'o) SourceProviderReconciler set \<Rightarrow> RemediationJob list \<Rightarrow> nat \<Rightarrow> bool"
  for r ps where
  created: "p \<in> ps \<Longrightarrow> CreateRJob j None \<in> set (effects (Provider_Reconcile p req) s) \<Longrightarrow>
    rjSpec k = rjSpec j \<Longrightarrow> rjStatus k = zero_Status \<Longrightarrow> history r ps [k] 0"
| controller: "history r ps (c # vs) n \<Longrightarrow> core b \<in> core ` set (c # vs) \<Longrightarrow>
    PatchStatus b k None \<in> set (effects (Controller_Reconcile r req) s) \<Longrightarrow> merged b k c c' \<Longrightarrow>
    n' = (if core b = core c \<and> legal_patch b k then n else Suc n) \<Longrightarrow> history r ps (c' # c # vs) n'"
| provider: "history r ps (c # vs) n \<Longrightarrow> core b \<in> core ` set (c # vs) \<Longrightarrow> p \<in> ps \<Longrightarrow>
    PatchStatus b k None \<in> set (effects (Provider_Reconcile p req) s) \<Longrightarrow> merged b k c c' \<Longrightarrow>
    history r ps (c' # c # vs) n"
| others: "history r ps (c # vs) n \<Longrightarrow> core c' = core c \<Longrightarrow> history r ps (c' # c # vs) n"

lemma emits_effects: "emits A m \<Longrightarrow> ef \<in> set (effects m s) \<Longrightarrow> A ef"
  unfolding emits_def does_def effects_def by (metis append_eq_conv_conj list_all_iff)

definition gentle :: "effect \<Rightarrow> bool" where
  "gentle ef \<longleftrightarrow> (\<forall>b k x. ef = PatchStatus b k x \<longrightarrow>
     rjSpec k = rjSpec b \<and> retries k = retries b \<and> rjPhase k \<in> {rjPhase b, PhaseCancelled})"

lemma gentle_simps [simp]:
  "gentle (PatchStatus b (upd_status (\<lambda>st. st\<lparr>stPhase := PhaseCancelled\<rparr>) b) x)"
  "gentle (PatchStatus b (upd_status (\<lambda>st. st\<lparr>stPRMerged := True, stPRMergedAt := t\<rparr>) b) x)"
  "gentle (CreateRJob j x)" "gentle (DeleteRJob j x)" "gentle (CloseSink j ms y)" "gentle (Event su ty re ms)"
  "gentle (Metric mt)"
  by (simp_all add: gentle_def retries_def)

lemma Provider_Reconcile_gentle: "emits gentle (Provider_Reconcile p req)"
proof -
  have fp: "emits gentle (handle_fingerprint p m req obj f fp)" for m obj f fp
    unfolding handle_fingerprint_def
    by (intro emits_gate [OF _ passes_trivial] stage_emits dedup_gate_emits create_stage_emits gentle_simps)
  have "emits gentle (handle_finding p m req obj f)" for m obj f
    unfolding handle_finding_def
    by (intro emits_gate [OF _ passes_trivial] stage_emits emits_rules fp gentle_simps)
  then show ?thesis
    unfolding Provider_Reconcile_def
    by (intro emits_rules initFirstSeen_emits gone_or_cleared_emits gentle_simps)
qed

text \<open>
  The invariant of a version after \<open>n\<close> races: it failed at most once more than there were races, the
  last time only if it is not active any more, and a permanently failed one reached its cap.
\<close>

definition retry_inv :: "nat \<Rightarrow> RemediationJob \<Rightarrow> bool" where
  "retry_inv n j \<longleftrightarrow> - (2 ^ 31) \<le> retries j
     \<and> (retries j \<le> int n \<or> retries j \<le> int n + 1 \<and> rjPhase j \<in> {PhaseFailed, PhasePermanentlyFailed, PhaseCancelled})
     \<and> (rjPhase j = PhasePermanentlyFailed \<longrightarrow> effective_max_retries j \<le> retries j \<or> injected j)"

lemma core_facts:
  assumes "core k = core b"
  shows "rjSpec k = rjSpec b" "rjPhase k = rjPhase b" "retries k = retries b"
    "injected k = injected b" "effective_max_retries k = effective_max_retries b"
  using assms by (auto simp: core_def injected_def effective_max_retries_def)

lemma spec_facts:
  "rjSpec k = rjSpec b \<Longrightarrow> injected k = injected b" "rjSpec k = rjSpec b \<Longrightarrow> effective_max_retries k = effective_max_retries b"
  by (auto simp: injected_def effective_max_retries_def)

lemma retry_inv_core:
  assumes "core k = core b" and "retry_inv n b"
  shows "retry_inv n k"
  using assms(2) unfolding retry_inv_def core_facts [OF assms(1)] .

lemma retry_inv_mono: "retry_inv n j \<Longrightarrow> n \<le> m \<Longrightarrow> retry_inv m j"
  by (auto simp: retry_inv_def)

lemma int32_succ:
  assumes "- (2 ^ 31) \<le> x"
  shows "int32 (x + 1) \<le> x + 1" "- (2 ^ 31) \<le> int32 (x + 1)" "int32 (x + 1) \<noteq> x"
proof -
  show "int32 (x + 1) \<le> x + 1" using assms zmod_le_nonneg_dividend [of "x + 1 + 2 ^ 31" "2 ^ 32"] by (simp add: int32_def)
  show "- (2 ^ 31) \<le> int32 (x + 1)" using int32_range by blast
  show "int32 (x + 1) \<noteq> x"
  proof (cases "x + 1 < 2 ^ 31")
    case True
    with assms have "int32 (x + 1) = x + 1" by (intro int32_id) simp_all
    then show ?thesis by simp
  next
    case False
    have "int32 (2 ^ 31) = - (2 ^ 31)" by (simp add: int32_def)
    with False int32_range [of "x + 1"] show ?thesis by (cases "x + 1 = 2 ^ 31") auto
  qed
qed

lemma legal_terminal:
  "legal_patch b k \<Longrightarrow> rjPhase b \<in> {PhaseSucceeded, PhaseFailed, PhasePermanentlyFailed, PhaseCancelled, PhaseSuppressed} \<Longrightarrow>
     rjPhase k = rjPhase b"
  by (auto simp: legal_patch_def elim: phase_step_terminalE)

lemma retry_inv_legal:
  assumes "legal_patch b k" and "retry_inv n b"
  shows "retry_inv n k"
proof -
  have spec: "rjSpec k = rjSpec b" using assms(1) by (simp add: legal_patch_def)
  note facts = spec_facts [OF spec]
  have perm: "rjPhase k = PhasePermanentlyFailed \<longrightarrow> effective_max_retries k \<le> retries k \<or> injected k"
  proof (cases "rjPhase b = PhasePermanentlyFailed")
    case True
    then have "rjPhase k = rjPhase b" using legal_terminal [OF assms(1)] by blast
    moreover have "retries k = retries b" using assms(1) True unfolding legal_patch_def by auto
    ultimately show ?thesis using assms(2) True by (simp add: retry_inv_def facts)
  qed (use assms(1) in \<open>auto simp: legal_patch_def facts\<close>)
  show ?thesis
  proof (cases "retries k = retries b")
    case True
    have "retries b \<le> int n \<or> retries b \<le> int n + 1 \<and> rjPhase b \<in> {PhaseFailed, PhasePermanentlyFailed, PhaseCancelled}"
      "- (2 ^ 31) \<le> retries b"
      using assms(2) by (simp_all add: retry_inv_def)
    moreover have "rjPhase b \<in> {PhaseFailed, PhasePermanentlyFailed, PhaseCancelled} \<Longrightarrow> rjPhase k = rjPhase b"
      using legal_terminal [OF assms(1)] by blast
    ultimately show ?thesis using perm unfolding retry_inv_def True by metis
  next
    case False
    then have r: "retries k = int32 (retries b + 1)" "rjPhase b \<in> {PhasePending, PhaseDispatched, PhaseRunning}"
      "rjPhase k \<in> {PhaseFailed, PhasePermanentlyFailed}"
      using assms(1) by (auto simp: legal_patch_def)
    with assms(2) have "- (2 ^ 31) \<le> retries b" "retries b \<le> int n" by (auto simp: retry_inv_def)
    with r perm int32_succ [of "retries b"] show ?thesis by (auto simp: retry_inv_def)
  qed
qed

text \<open>A racing patch may carry its retry count and its phase into any version, but raises neither twice.\<close>

lemma retry_inv_race:
  assumes "legal_patch b k \<or> overtaken r b k" and "retry_inv n b" and "retry_inv n c"
    and "rjSpec b = rjSpec c" and "merged b k c c'"
  shows "retry_inv (Suc n) c'"
proof -
  note m = assms(5) [unfolded merged_def]
  have spec: "rjSpec c' = rjSpec b" "rjSpec c = rjSpec b" using m assms(4) by simp_all
  note facts = spec_facts [OF spec(1)] spec_facts [OF spec(2)]
  have b32: "- (2 ^ 31) \<le> retries b" using assms(2) by (simp add: retry_inv_def)
  show ?thesis
  proof (cases "retries k = retries b")
    case True
    then have r: "retries c' = retries c" using m by simp
    have "injected b" if "rjPhase k = PhasePermanentlyFailed" "rjPhase b \<noteq> PhasePermanentlyFailed"
      using assms(1) that True int32_succ(3) [OF b32] by (auto simp: legal_patch_def overtaken_def dispatch_patch_def)
    then have "rjPhase c' = PhasePermanentlyFailed \<longrightarrow> effective_max_retries c' \<le> retries c' \<or> injected c'"
      using m assms(3) r unfolding retry_inv_def by (auto simp: facts split: if_splits)
    moreover have "- (2 ^ 31) \<le> retries c'" "retries c' \<le> int (Suc n)" using assms(3) r by (auto simp: retry_inv_def)
    ultimately show ?thesis by (simp add: retry_inv_def)
  next
    case False
    then have r: "retries c' = int32 (retries b + 1)" "rjPhase b \<in> {PhasePending, PhaseDispatched, PhaseRunning}"
      "rjPhase k \<in> {PhaseFailed, PhasePermanentlyFailed}" "legal_patch b k"
      using assms(1) m by (auto simp: legal_patch_def overtaken_def dispatch_patch_def)
    have "rjPhase c' = rjPhase k" using m r(2,3) by auto
    moreover have "retries c' = retries k" using m False by simp
    moreover have "retries b \<le> int n" using assms(2) r(2) by (auto simp: retry_inv_def)
    ultimately show ?thesis
      using r int32_succ [OF b32] by (auto simp: retry_inv_def legal_patch_def facts)
  qed
qed

lemma versions_extend:
  assumes "P c'" and "f c' = f c" and "\<forall>v \<in> set (c # vs). P v \<and> f v = f c"
  shows "c' # c # vs \<noteq> [] \<and> (\<forall>v \<in> set (c' # c # vs). P v \<and> f v = f (hd (c' # c # vs)))"
  using assms by (metis list.distinct(1) list.sel(1) set_ConsD)

lemma history_inv:
  assumes "wired_by_watcher r" and "history r ps vs n"
  shows "vs \<noteq> [] \<and> (\<forall>v \<in> set vs. retry_inv n v \<and> rjSpec v = rjSpec (hd vs))"
  using assms(2)
proof induction
  case (created p j req s k)
  then show ?case by (simp add: retry_inv_def retries_def zero_Status_def)
next
  case (controller c vs n b k req s c' n')
  from controller(2,6) obtain v where v: "v \<in> set (c # vs)" "core b = core v" by auto
  then have b: "retry_inv n b" "rjSpec b = rjSpec c" using controller(6) retry_inv_core core_facts(1) [OF v(2)] by auto
  have lawful: "legal_patch b k \<or> overtaken r b k"
    using emits_effects [OF Controller_Reconcile_lawful [OF assms(1)] controller(3)] by simp
  have "retry_inv n' c'"
  proof (cases "core b = core c \<and> legal_patch b k")
    case True
    then have "rjSpec b = rjSpec c" "rjPhase b = rjPhase c" "retries b = retries c" "rjSpec k = rjSpec b"
      using core_facts [of b c] by (simp_all add: legal_patch_def)
    then have "core c' = core k" using controller(4) by (simp add: merged_def core_def)
    then show ?thesis using True controller(5) b(1) by (auto intro: retry_inv_core retry_inv_legal)
  next
    case False
    then have "n' = Suc n" using controller(5) by argo
    then show ?thesis using controller(4,6) retry_inv_race [OF lawful b(1) _ b(2)] by simp
  qed
  moreover have "rjSpec c' = rjSpec c" using controller(4) by (simp add: merged_def)
  moreover have "\<forall>v \<in> set (c # vs). retry_inv n' v \<and> rjSpec v = rjSpec c"
  proof (intro ballI conjI)
    fix v
    assume v: "v \<in> set (c # vs)"
    have "n \<le> n'" using controller(5) by (cases "core b = core c \<and> legal_patch b k") auto
    with v controller(6) show "retry_inv n' v" by (blast intro: retry_inv_mono)
    from v controller(6) show "rjSpec v = rjSpec c" by (metis list.sel(1))
  qed
  ultimately show ?case by (rule versions_extend)
next
  case (provider c vs n b p k req s c')
  have "gentle (PatchStatus b k None)" using emits_effects [OF Provider_Reconcile_gentle provider(4)] .
  then have "rjSpec c' = rjSpec c" "retries c' = retries c" "rjPhase c' \<in> {rjPhase c, PhaseCancelled}"
    using provider(5) by (auto simp: gentle_def merged_def)
  moreover have "retry_inv n c'" if "retry_inv n c"
    using that calculation spec_facts [of c' c] by (auto simp: retry_inv_def)
  ultimately show ?case
    using provider(6) by (intro versions_extend) (auto simp only: list.set list.sel)
next
  case (others c vs n c')
  have "retry_inv n c'" if "retry_inv n c" using others(2) that by (rule retry_inv_core)
  then show ?case
    using others(3) core_facts(1) [OF others(2)] by (intro versions_extend) (auto simp only: list.set list.sel)
qed

text \<open>
  C7. The retry cap is out of reach. Over the whole history of a job, whatever the two reconcilers
  do to it from however stale a version and whatever others write, its retry count exceeds the number
  of races by at most one: a failed job is not dispatched again, the provider deletes it and creates a
  new one whose count starts at zero. So a job without an injection in its finding becomes permanently
  failed only when its cap is one or races made up for the rest, and with the default cap of three a finding
  whose investigation always fails is investigated without end.
\<close>

theorem retry_cap_unreachable:
  assumes "wired_by_watcher r" and "history r ps (j # vs) races"
  shows "retries j \<le> int races + 1
    \<and> (rjPhase j = PhasePermanentlyFailed \<and> \<not> injected j \<longrightarrow> effective_max_retries j \<le> int races + 1)"
  using history_inv [OF assms] by (auto simp: retry_inv_def)

text \<open>The job of an agent that failed both of its attempts, and the reconcile that finds it.\<close>

definition failed_agent_job :: "string \<Rightarrow> Job" where
  "failed_agent_job name = sample_job\<lparr>jbLabels := [''remediation.mechanic.io/remediation-job'' \<mapsto> name], jbFailed := 2\<rparr>"

lemma run_failing:
  assumes "rjStatus k = zero_Status\<lparr>stPhase := PhasePending\<rparr>" and "spMaxRetries (rjSpec k) = 3"
  shows "\<exists>f. PatchStatus k f None \<in> set (effects (Controller_Reconcile (sample_controller cluster_env)
        \<lparr>nnNamespace = rjNamespace k, nnName = rjName k\<rparr>)
          (start (empty_cluster\<lparr>clRJobs := [k], clJobs := [failed_agent_job (rjName k)]\<rparr>)))
     \<and> rjPhase f = PhaseFailed \<and> retries f = 1 \<and> rjSpec f = rjSpec k"
  using assms
  by (simp add: effects_def Controller_Reconcile_def reconcile_rjob_def record_pr_def init_phase_def phase_switch_def gate_def run_simps
      sample_controller_def cluster_simps Let_def owned_jobs_def sync_owned_def failed_agent_job_def sample_job_def
      syncPhaseFromJob_def backoff_limit_def default_Config_def enter_phase_def stamp_completion_def attach_report_def
      effective_max_retries_def retries_def add_condition_def owned_job_event_def zero_Status_def zero_SinkRef_def)

lemma failing_history:
  "\<exists>f vs. history (sample_controller cluster_env) {fresh_reconciler} (f # vs) 0 \<and> rjPhase f = PhaseFailed \<and> retries f = 1"
proof -
  let ?r = "sample_controller cluster_env"
  obtain fp where fp: "FindingFingerprint (pod_finding ''api-1'' '''') = Inr fp" using fresh_admitted(3) ..
  let ?j = "new_rjob fresh_reconciler fresh_request (pod_finding ''api-1'' '''') fp"
  let ?p = "Provider_Reconcile fresh_reconciler fresh_request"
  obtain out s' where run: "run_state ?p (seen_before fp) = (out, s')" by (cases "run_state ?p (seen_before fp)")
  have "filter is_create (drop (length (trace (seen_before fp))) (trace s')) = [CreateRJob ?j None]"
    using admissible_finding_creates [OF fresh_unobstructed [OF fp] fresh_admitted(1,2) fresh_stable fp run] by blast
  then have "CreateRJob ?j None \<in> set (filter is_create (effects ?p (seen_before fp)))"
    unfolding effects_def run by simp
  then have "CreateRJob ?j None \<in> set (effects ?p (seen_before fp))" by simp
  then have h0: "history ?r {fresh_reconciler} [?j\<lparr>rjStatus := zero_Status\<rparr>] 0" (is "history _ _ [?k] 0")
    by (rule history.created [rotated]) simp_all
  let ?q = "upd_status (\<lambda>st. st\<lparr>stPhase := PhasePending\<rparr>) ?k"
  have k: "rjPhase ?k = PhaseBlank" "rjSinkURL ?k = ''''" by (simp_all add: zero_Status_def zero_SinkRef_def)
  have "PatchStatus ?k ?q None \<in> set (effects (Controller_Reconcile ?r \<lparr>nnNamespace = rjNamespace ?k, nnName = rjName ?k\<rparr>)
      (start (empty_cluster\<lparr>clRJobs := [?k]\<rparr>)))"
    using run_fresh [OF k] unfolding effects_def by (auto simp: start_def)
  moreover have "legal_patch ?k ?q" using k(1) by (auto simp: legal_patch_def retries_def intro: phase_step.init)
  ultimately have h1: "history ?r {fresh_reconciler} [?q, ?k] 0"
    by (intro history.controller [OF h0, where b = ?k and k = ?q]) (simp_all add: merged_def retries_def)
  have q: "rjStatus ?q = zero_Status\<lparr>stPhase := PhasePending\<rparr>" "spMaxRetries (rjSpec ?q) = 3"
    by (simp_all add: new_rjob_def Let_def fresh_reconciler_def sample_reconciler_def default_Config_def)
  from run_failing [OF q] obtain f where f: "PatchStatus ?q f None \<in> set (effects (Controller_Reconcile ?r
        \<lparr>nnNamespace = rjNamespace ?q, nnName = rjName ?q\<rparr>)
          (start (empty_cluster\<lparr>clRJobs := [?q], clJobs := [failed_agent_job (rjName ?q)]\<rparr>)))"
    "rjPhase f = PhaseFailed" "retries f = 1" "rjSpec f = rjSpec ?q" by blast
  have "legal_patch ?q f"
    using f(2-4) by (auto simp: legal_patch_def retries_def zero_Status_def intro!: phase_step.work)
  moreover have "merged ?q f ?q f" using f by (auto simp: merged_def)
  ultimately have "history ?r {fresh_reconciler} [f, ?q, ?k] 0"
    by (intro history.controller [OF h1 _ f(1)]) simp_all
  with f(2,3) show ?thesis by blast
qed

theorem retry_cap_unreachable_witness:
  "\<exists>f vs. history (sample_controller cluster_env) {fresh_reconciler} (f # vs) 0 \<and> rjPhase f = PhaseFailed
     \<and> retries f = 1 \<and> retries f \<le> int 0 + 1"
proof -
  from failing_history obtain f vs where h: "history (sample_controller cluster_env) {fresh_reconciler} (f # vs) 0"
    "rjPhase f = PhaseFailed" "retries f = 1" by blast
  from retry_cap_unreachable [OF sample_controller_wired h(1)] h show ?thesis by blast
qed

section \<open>The end of a succeeded job\<close>







definition expiring :: RemediationJob where
  "expiring = upd_status (\<lambda>st. st\<lparr>stCompletedAt := Some (999 * Hour)\<rparr>)
     (sample_rjob ''a'' 0 (sample_finding ''Pod'' ''web'' '''') PhaseSucceeded)"

lemma expiring_deadline:
  "stCompletedAt (rjStatus expiring) = Some (999 * Hour)"
  "deadline default_Config (rjStatus expiring) (999 * Hour) = 1023 * Hour"
  by (simp_all add: expiring_def deadline_def short_ttl_def seconds_def default_Config_def int64_def go_defs
      sample_rjob_def zero_Status_def)

text \<open>
  The deletion of an expired job is reported as a failure. After the deletion the controller
  patches the status of the object it has just deleted; on a cluster where nothing else intervenes
  the patch is answered \<open>NotFound\<close>, and the reconcile returns that error although the job is gone.
\<close>

theorem ttl_deletion_reports_error:
  assumes "rcEnv r = cluster_env" and "j \<in> set (clRJobs (world s))"
    and "stCompletedAt (rjStatus j) = Some c"
    and "\<not> time_Before (clClock (world s)) (deadline (rcCfg r) (rjStatus j) c)"
    and "run_state (on_succeeded r j) s = (out, s')"
  shows "out = fail (Api NotFound) \<and> find (same_object j) (clRJobs (world s')) = None"
proof -
  have gone: "find (same_object j) (filter (\<lambda>k. \<not> same_object j k) js) = None" for js
    by (simp add: find_None_iff)
  have "find (same_object j) (clRJobs (world s)) \<noteq> None"
    using assms(2) by (auto simp: find_None_iff same_object_def)
  moreover have "same_object (upd_status f j) = same_object j" for f
    by (simp add: same_object_def fun_eq_iff)
  ultimately show ?thesis
    using assms(1,3-5) gone
    by (auto simp: on_succeeded_def Let_def run_bind Now_def run_outside_fst Delete_rjob_def Patch_status_def run_emit
        cluster_env_def cl_delete_def cl_update_def)
qed

theorem ttl_deletion_reports_error_witness:
  "fst (run_state (on_succeeded (sample_controller cluster_env) expiring)
     (start (empty_cluster\<lparr>clClock := 1023 * Hour, clRJobs := [expiring]\<rparr>))) = fail (Api NotFound)"
  using ttl_deletion_reports_error [of "sample_controller cluster_env" expiring
      "start (empty_cluster\<lparr>clClock := 1023 * Hour, clRJobs := [expiring]\<rparr>)" "999 * Hour", OF _ _ expiring_deadline(1) _
      surjective_pairing]
  by (simp add: sample_controller_def expiring_deadline(2) time_Before_def start_def)

end
