(* ===== verification/Dispatch.thy ===== *)
theory Dispatch
  imports Lifecycle
begin

text \<open>
  When the controller creates an agent job: at most once in a reconcile and only from phase
  Pending, within the limit on concurrent jobs (which the primary of a correlated group escapes),
  not inside the correlation window, and for a correlated primary only after its peers are
  suppressed.
\<close>

section \<open>Active jobs\<close>

text \<open>
  The concurrency limit and the phase of a job are computed from the same counters of the
  agent's job: a job counts against the limit exactly when its counters do not make it succeeded or
  failed and it is not stale, that is older than the staleness timeout without a single pod. The
  equivalence holds for all 32-bit counters, the wrap-around of the back-off limit included.
\<close>

theorem active_iff_not_terminal:
  "fst (run_state (isJobActive e job) s) \<longleftrightarrow>
     syncPhaseFromJob job \<notin> {PhaseSucceeded, PhaseFailed}
     \<and> \<not> (jbActive job = 0 \<and> jbFailed job = 0
          \<and> time_Sub (fst (now e (world s))) (jbCreationTimestamp job) > jobStalenessTimeout)"
  by (auto simp: isJobActive_def syncPhaseFromJob_def run_bind Now_def run_outside_fst)

text \<open>
  A job that counts at time \<open>t\<close>: not finished, and either it has pods or failed attempts, or it is
  at most half an hour old.
\<close>

definition active_at :: "gotime \<Rightarrow> Job \<Rightarrow> bool" where
  "active_at t job \<longleftrightarrow> syncPhaseFromJob job \<notin> {PhaseSucceeded, PhaseFailed}
     \<and> (jbActive job \<noteq> 0 \<or> jbFailed job \<noteq> 0 \<or> time_Sub t (jbCreationTimestamp job) \<le> 30 * Minute)"

lemma run_isJobActive: "fst (run_state (isJobActive e job) s) \<longleftrightarrow> active_at (fst (now e (world s))) job"
  unfolding active_iff_not_terminal active_at_def jobStalenessTimeout_def by auto

text \<open>\<open>n\<close> of the jobs were active, each at some reading of the clock.\<close>

definition counted :: "'w env \<Rightarrow> Job list \<Rightarrow> nat \<Rightarrow> bool" where
  "counted e jobs n \<longleftrightarrow> (\<exists>ts. length ts = length jobs \<and> set ts \<subseteq> range (\<lambda>w. fst (now e w))
     \<and> n = length (filter (\<lambda>(t, job). active_at t job) (zip ts jobs)))"

lemma count_active_counted: "\<exists>n. fst (run_state (count_active e jobs) s) = int n \<and> counted e jobs n"
proof (induction jobs arbitrary: s)
  case Nil
  then show ?case by (simp add: counted_def)
next
  case (Cons job jobs)
  obtain a u where a: "run_state (isJobActive e job) s = (a, u)" by (cases "run_state (isJobActive e job) s")
  obtain n ts where n: "fst (run_state (count_active e jobs) u) = int n" and ts: "length ts = length jobs"
    "set ts \<subseteq> range (\<lambda>w. fst (now e w))" "n = length (filter (\<lambda>(t, job). active_at t job) (zip ts jobs))"
    using Cons [of u] by (auto simp: counted_def)
  let ?t = "fst (now e (world s))"
  have "a \<longleftrightarrow> active_at ?t job" using run_isJobActive [of e job s] a by simp
  then have "fst (run_state (count_active e (job # jobs)) s)
      = int (length (filter (\<lambda>(t, job). active_at t job) (zip (?t # ts) (job # jobs))))"
    using a n ts(3) by (auto simp: run_bind split: prod.splits)
  moreover have "counted e (job # jobs) (length (filter (\<lambda>(t, job). active_at t job) (zip (?t # ts) (job # jobs))))"
    unfolding counted_def using ts(1,2) by (intro exI [of _ "?t # ts"]) auto
  ultimately show ?case by blast
qed

lemma counted_always:
  assumes "counted e jobs n" and "\<And>w. list_all (active_at (fst (now e w))) jobs"
  shows "n = length jobs"
proof -
  from assms(1) obtain ts where ts: "length ts = length jobs" "set ts \<subseteq> range (\<lambda>w. fst (now e w))"
    "n = length (filter (\<lambda>(t, job). active_at t job) (zip ts jobs))" by (auto simp: counted_def)
  have "active_at t job" if "(t, job) \<in> set (zip ts jobs)" for t job
    using set_zip_leftD [OF that] set_zip_rightD [OF that] ts(2) assms(2) by (auto simp: list_all_iff)
  then have "filter (\<lambda>(t, job). active_at t job) (zip ts jobs) = zip ts jobs" by (auto simp: filter_id_conv)
  with ts(1,3) show ?thesis by simp
qed

section \<open>At most one dispatch, from Pending\<close>

definition is_dispatch :: "effect \<Rightarrow> bool" where
  "is_dispatch ef \<longleftrightarrow> (\<exists>jb x. ef = CreateJob jb x)"

lemma is_dispatch_simps [simp]:
  "is_dispatch (CreateJob jb x)" "\<not> is_dispatch (CreateRJob j x)" "\<not> is_dispatch (PatchStatus b j x)"
  "\<not> is_dispatch (PatchMeta b j x)" "\<not> is_dispatch (DeleteRJob j x)" "\<not> is_dispatch (DeleteConfigMap n x)"
  "\<not> is_dispatch (CloseSink j ms y)" "\<not> is_dispatch (Event su ty re ms)" "\<not> is_dispatch (Metric mt)"
  by (simp_all add: is_dispatch_def)

abbreviation quiet :: "('w, 'a) prog \<Rightarrow> bool" where
  "quiet m \<equiv> emits (\<lambda>ef. \<not> is_dispatch ef) m"

lemma quiet_sync_owned: "quiet (sync_owned r b job)"
  unfolding sync_owned_def
  by (intro emits_rules enter_phase_emits stamp_completion_emits attach_report_emits owned_job_event_emits) simp_all

lemma quiet_stages:
  "quiet (record_pr r j)" "quiet (init_phase r j)" "quiet (phase_switch r j)" "quiet (owned_jobs r j)"
  "quiet (concurrencyGate r)" "quiet (transitionSuppressed r j gid uid)" "quiet (adopt_existing r j job)"
  "quiet (window_hold r j w)" "quiet (pendingPeers r j)" "quiet (await_primary r j g w)"
proof -
  show "quiet (phase_switch r j)"
    by (cases "rjPhase j"; simp add: phase_switch_def on_succeeded_def Let_def; intro emits_rules; simp)
  show "quiet (owned_jobs r j)"
    unfolding owned_jobs_def by (intro emits_rules) (auto split: list.splits intro!: emits_rules quiet_sync_owned)
  show "quiet (concurrencyGate r)" by (rule concurrencyGate_emits) simp
  show "quiet (adopt_existing r j job)"
    unfolding adopt_existing_def by (intro emits_rules job_dispatched_event_emits; simp)
qed (unfold record_pr_def init_phase_def transitionSuppressed_def window_hold_def pendingPeers_def await_primary_def,
    (intro emits_rules; simp)+)

lemma quiet_suppress: "quiet (suppressCorrelatedPeers r peers g)"
  by (intro suppressCorrelatedPeers_emits quiet_stages)

lemma dispatch_once: "at_most 1 is_dispatch (dispatch r j fs)"
proof -
  have "at_most 1 is_dispatch (Create_job e job)" for e :: "'a env" and job
    unfolding Create_job_def by (intro at_most_rules emits_rules at_most_once)
  note one = at_most_bind [OF this, where l = 0, unfolded at_most_0_iff add_0_right]
  show ?thesis
    unfolding dispatch_def
    by (intro at_most_rules one emits_rules quiet_stages job_dispatched_event_emits)
      (auto intro!: at_most_emits emits_rules)
qed

lemma at_most_then_ret: "at_most k A m \<Longrightarrow> at_most k A (State_Monad.bind m (\<lambda>x. ret (f x)))"
  by (rule at_most_bind [where l = 0, unfolded at_most_0_iff add_0_right]) (simp_all add: emits_prim)

lemma dispatch_outcome_once: "at_most 1 is_dispatch (dispatch_outcome r j fs)"
  unfolding dispatch_outcome_def by (intro at_most_then_ret dispatch_once)

lemma gated_dispatch_once: "at_most 1 is_dispatch (gated_dispatch r j fs)"
  unfolding gated_dispatch_def
  by (intro at_most_rules quiet_stages dispatch_outcome_once) (auto intro: at_most_emits emits_rules)

lemma lead_group_once: "at_most 1 is_dispatch (lead_group r j peers g)"
  unfolding lead_group_def
  by (intro at_most_rules quiet_suppress dispatch_outcome_once emits_rules; simp add: at_most_emits emits_prim)

text \<open>A stage that dispatches at most once, and only when it ends the reconcile.\<close>

definition settles :: "('w, outcome option) prog \<Rightarrow> bool" where
  "settles m \<longleftrightarrow> does m (\<lambda>x es. length (filter is_dispatch es) \<le> 1 \<and> (x = None \<longrightarrow> filter is_dispatch es = []))"

lemma settles_quiet: "quiet m \<Longrightarrow> settles m"
  unfolding settles_def emits_def by (erule does_mono) (auto simp: list_all_iff filter_empty_conv)

lemma settles_some: "at_most 1 is_dispatch m \<Longrightarrow> settles (State_Monad.bind m (\<lambda>out. ret (Some out)))"
  unfolding settles_def at_most_def
  by (erule does_bind [where U = "\<lambda>x y es. y \<noteq> None \<and> es = []"]) (auto intro: does_return)

lemma settles_bind: "quiet m \<Longrightarrow> (\<And>x. settles (f x)) \<Longrightarrow> settles (State_Monad.bind m f)"
  unfolding settles_def emits_def
  by (erule does_bind [where U = "\<lambda>x y es. length (filter is_dispatch es) \<le> 1 \<and> (y = None \<longrightarrow> filter is_dispatch es = [])"])
    (auto simp: list_all_iff filter_empty_conv)

lemma settles_cases:
  "(x = None \<Longrightarrow> settles m) \<Longrightarrow> (\<And>y. x = Some y \<Longrightarrow> settles (f y)) \<Longrightarrow> settles (case x of None \<Rightarrow> m | Some y \<Rightarrow> f y)"
  "(\<And>y. z = Inl y \<Longrightarrow> settles (g y)) \<Longrightarrow> (\<And>y. z = Inr y \<Longrightarrow> settles (h y)) \<Longrightarrow>
     settles (case z of Inl y \<Rightarrow> g y | Inr y \<Rightarrow> h y)"
  "(b \<Longrightarrow> settles m) \<Longrightarrow> (\<not> b \<Longrightarrow> settles m') \<Longrightarrow> settles (if b then m else m')"
  by (auto split: option.splits sum.splits)

lemma gate_once: "settles m \<Longrightarrow> at_most 1 is_dispatch k \<Longrightarrow> at_most 1 is_dispatch (gate m k)"
  unfolding settles_def at_most_def gate_def
  by (erule does_bind [where U = "\<lambda>x y es. if x = None then length (filter is_dispatch es) \<le> 1 else es = []"])
    (auto intro: does_return split: option.splits if_splits)

lemma correlation_stage_once:
  assumes "wired_by_watcher r" and "at_most 1 is_dispatch k"
  shows "at_most 1 is_dispatch (correlation_stage r j k)"
proof (cases "rcCorrelator r")
  case (Some rules)
  have "settles (correlate r rules j w)" for w
    unfolding correlate_def
    by (intro settles_bind settles_cases settles_some settles_quiet [OF emits_prim(1)] quiet_stages lead_group_once
        settles_quiet [OF quiet_stages(10)] wired_Evaluate_emits [OF assms(1) Some])
  moreover have "settles (recover_group r j)"
    unfolding recover_group_def Let_def
    by (intro settles_cases settles_bind [OF emits_prim(3)] settles_quiet [OF emits_prim(1)]
        settles_some gated_dispatch_once settles_bind [OF emits_calls(4)]) simp_all
  ultimately show ?thesis
    unfolding correlation_stage_def Let_def Some option.case
    by (intro gate_once settles_quiet [OF quiet_stages(8)] assms(2))
qed (simp add: correlation_stage_def assms(2) [simplified])

lemma reconcile_rjob_once: "wired_by_watcher r \<Longrightarrow> at_most 1 is_dispatch (reconcile_rjob r j)"
  unfolding reconcile_rjob_def
  by (intro gate_once settles_quiet quiet_stages correlation_stage_once gated_dispatch_once)

text \<open>The selector by which the controller finds the agent jobs of a \<open>RemediationJob\<close>.\<close>

abbreviation jobs_of :: "string \<Rightarrow> selector" where
  "jobs_of name \<equiv> [(''remediation.mechanic.io/remediation-job'', name)]"

lemma passes_owned_jobs_none:
  "passes (owned_jobs r j) (\<exists>w. fst (list_jobs (rcEnv r) (AgentNamespace (rcCfg r)) (jobs_of (rjName j)) w) = Inr [])"
  unfolding passes_def
proof (intro allI impI)
  fix s :: "'a sys"
  let ?l = "fst (list_jobs (rcEnv r) (AgentNamespace (rcCfg r)) (jobs_of (rjName j)) (world s))"
  assume none: "fst (run_state (owned_jobs r j) s) = None"
  show "\<exists>w. fst (list_jobs (rcEnv r) (AgentNamespace (rcCfg r)) (jobs_of (rjName j)) w) = Inr []"
  proof (cases ?l)
    case (Inr jobs)
    with none have "jobs = []" by (cases jobs) (auto simp: owned_jobs_def run_bind run_outside_fst split: prod.splits)
    with Inr show ?thesis by blast
  qed (use none in \<open>simp add: owned_jobs_def run_bind run_outside_fst\<close>)
qed

lemma reconcile_rjob_pending:
  assumes "wired_by_watcher r"
    and "\<not> (rjPhase j = PhasePending \<and> (\<exists>w. fst (list_jobs (rcEnv r) (AgentNamespace (rcCfg r)) (jobs_of (rjName j)) w) = Inr []))"
  shows "quiet (reconcile_rjob r j)"
proof (cases "rjPhase j = PhasePending")
  case True
  with assms(2) have "passes (owned_jobs r j) False" using passes_owned_jobs_none [of r j] by simp
  then have "quiet (gate (owned_jobs r j) k)" for k by (rule emits_gate [OF quiet_stages(4)]) simp
  then show ?thesis
    unfolding reconcile_rjob_def
    by (intro emits_gate [OF quiet_stages(2) passes_trivial] emits_gate [OF quiet_stages(3) passes_trivial])
next
  case False
  then show ?thesis by (intro reconcile_rjob_emits [OF assms(1)]) (simp_all add: quiet_stages)
qed

text \<open>
  The object a reconcile works on: the one it read, or the answer of the server to the patch that
  records the first sight of a pull request.
\<close>

definition reported :: "'w RemediationJobReconciler \<Rightarrow> RemediationJob \<Rightarrow> RemediationJob \<Rightarrow> bool" where
  "reported r j0 j \<longleftrightarrow> rjPhase j = rjPhase j0 \<and> rjName j = rjName j0
     \<or> rjSinkURL j0 \<noteq> '''' \<and> (\<exists>j1 w. fst (patch_status (rcEnv r) j1 j0 w) = Inr j)"

lemma record_pr_reported: "reported r j (fst (run_state (record_pr r j) s))"
  by (auto simp: reported_def record_pr_def Let_def run_bind Now_def Patch_status_def run_outside_fst run_emit
      after_patch_def add_condition_def split: sum.splits)

text \<open>
  C2. One reconcile of the controller creates at most one agent job, and only when the
  \<open>RemediationJob\<close> it reconciles is one that the API server reported as pending (when it was read, or in the answer to
  the patch that records its pull request) and for which a list of its agent jobs came back empty: a job that is
  dispatched or running whose agent job has been garbage-collected, or that reached a final phase, is
  never dispatched again. Nothing is assumed of the API.
\<close>

theorem dispatches_once_from_pending:
  assumes "wired_by_watcher r" and "run_state (Controller_Reconcile r req) s = (out, s')"
  shows "\<exists>es. trace s' = trace s @ es \<and> length (filter is_dispatch es) \<le> 1
    \<and> (filter is_dispatch es \<noteq> [] \<longrightarrow>
         (\<exists>j0 j w. fst (get_rjob (rcEnv r) req (world s)) = Inr j0 \<and> reported r j0 j \<and> rjPhase j = PhasePending
            \<and> fst (list_jobs (rcEnv r) (AgentNamespace (rcCfg r)) (jobs_of (rjName j)) w) = Inr []))"
proof (cases "fst (get_rjob (rcEnv r) req (world s))")
  case (Inl er)
  then have "trace s' = trace s"
    using assms(2) by (auto simp: Controller_Reconcile_def run_bind run_outside_fst split: if_splits)
  then show ?thesis by auto
next
  case (Inr j0)
  let ?m = "State_Monad.bind (record_pr r j0) (reconcile_rjob r)"
  let ?ok = "\<lambda>j. rjPhase j = PhasePending \<and> (\<exists>w. fst (list_jobs (rcEnv r) (AgentNamespace (rcCfg r)) (jobs_of (rjName j)) w) = Inr [])"
  let ?s = "s\<lparr>world := snd (get_rjob (rcEnv r) req (world s))\<rparr>"
  have run: "run_state ?m ?s = (out, s')"
    using assms(2) Inr by (simp add: Controller_Reconcile_def run_bind run_outside_fst)
  have "at_most 1 is_dispatch ?m"
    by (intro at_most_rules quiet_stages reconcile_rjob_once assms(1))
  then have "\<exists>es. trace (snd (run_state ?m ?s)) = trace ?s @ es \<and> length (filter is_dispatch es) \<le> 1"
    unfolding at_most_def does_def by blast
  then obtain es where es: "trace s' = trace s @ es" "length (filter is_dispatch es) \<le> 1"
    unfolding run by auto
  moreover have "filter is_dispatch es = []" if none: "\<nexists>j. reported r j0 j \<and> ?ok j"
  proof -
    have "quiet (reconcile_rjob r j)" if "reported r j0 j" for j
      by (rule reconcile_rjob_pending [OF assms(1)]) (use none that in blast)
    then have "quiet ?m"
      by (intro emits_bind_returns [where P = "reported r j0"] quiet_stages record_pr_reported)
    from this run show ?thesis by (rule emitsD) (use es(1) in \<open>auto simp: filter_empty_conv\<close>)
  qed
  ultimately show ?thesis using Inr by blast
qed

abbreviation pending_rjob :: RemediationJob where
  "pending_rjob \<equiv> sample_rjob ''a'' 0 (sample_finding ''Pod'' ''web'' '''') PhasePending"

text \<open>A controller without correlation, and a cluster with one other agent job, a minute old and still without pods.\<close>

definition solo_controller :: "cluster RemediationJobReconciler" where
  "solo_controller = (sample_controller cluster_env)\<lparr>rcCfg := default_Config\<lparr>DisableCorrelation := True\<rparr>, rcCorrelator := None\<rparr>"

definition recent_job :: Job where
  "recent_job = sample_job\<lparr>jbName := ''mechanic-agent-other'', jbCreationTimestamp := 1000 * Hour - Minute,
     jbLabels := [''app.kubernetes.io/managed-by'' \<mapsto> ''mechanic-watcher'', ''remediation.mechanic.io/remediation-job'' \<mapsto> ''other'']\<rparr>"

abbreviation one_pending :: "cluster sys" where
  "one_pending \<equiv> start (empty_cluster\<lparr>clRJobs := [pending_rjob], clJobs := [recent_job]\<rparr>)"

abbreviation request_a :: NamespacedName where
  "request_a \<equiv> \<lparr>nnNamespace = ''mechanic'', nnName = ''a''\<rparr>"

lemma solo_wired: "wired_by_watcher solo_controller"
  by (simp add: wired_by_watcher_def solo_controller_def sample_controller_def buildCorrelator_def)

lemma run_dispatching:
  "\<exists>s'. run_state (Controller_Reconcile solo_controller request_a) one_pending = (finish, s')
    \<and> filter is_dispatch (trace s') = [CreateJob sample_job None]"
  by (simp add: Controller_Reconcile_def reconcile_rjob_def record_pr_def init_phase_def phase_switch_def gate_def run_simps
      solo_controller_def sample_controller_def cluster_simps Let_def owned_jobs_def correlation_stage_def gated_dispatch_def
      concurrencyGate_def isJobActive_def backoff_limit_def int32_def jobStalenessTimeout_def time_Sub_def go_defs
      dispatch_outcome_def dispatch_def job_dispatched_event_def default_Config_def add_condition_def
      recent_job_def sample_job_def sample_rjob_def zero_Status_def zero_SinkRef_def)

theorem dispatches_once_from_pending_witness:
  "\<exists>s'. run_state (Controller_Reconcile solo_controller request_a) one_pending = (finish, s')
    \<and> filter is_dispatch (trace s') = [CreateJob sample_job None]
    \<and> (\<exists>j0 j. fst (get_rjob (rcEnv solo_controller) request_a (world one_pending)) = Inr j0
         \<and> reported solo_controller j0 j \<and> rjPhase j = PhasePending)"
proof -
  obtain s' where run: "run_state (Controller_Reconcile solo_controller request_a) one_pending = (finish, s')"
    and one: "filter is_dispatch (trace s') = [CreateJob sample_job None]"
    using run_dispatching by blast
  from dispatches_once_from_pending [OF solo_wired run] one run show ?thesis by (fastforce simp: start_def)
qed

section \<open>The concurrency limit\<close>

text \<open>The jobs listed in world \<open>w\<close>, of which \<open>n\<close> are active.\<close>

definition observed_active :: "'w RemediationJobReconciler \<Rightarrow> 'w \<Rightarrow> nat \<Rightarrow> bool" where
  "observed_active r w n \<longleftrightarrow> (\<exists>jobs. fst (list_jobs (rcEnv r) (AgentNamespace (rcCfg r)) managed w) = Inr jobs
     \<and> counted (rcEnv r) jobs n)"

lemma gate_observes:
  assumes "MaxConcurrentJobs (rcCfg r) > 0"
  shows "case fst (run_state (concurrencyGate r) s) of
      Inl er \<Rightarrow> fst (list_jobs (rcEnv r) (AgentNamespace (rcCfg r)) managed (world s)) = Inl er
    | Inr g \<Rightarrow> \<exists>n. observed_active r (world s) n
        \<and> g = (if MaxConcurrentJobs (rcCfg r) \<le> int n then Some (requeue_after (30 * Second)) else None)"
proof -
  let ?l = "list_jobs (rcEnv r) (AgentNamespace (rcCfg r)) managed (world s)"
  show ?thesis
  proof (cases "fst ?l")
    case (Inr jobs)
    obtain n where n: "fst (run_state (count_active (rcEnv r) jobs) (s\<lparr>world := snd ?l\<rparr>)) = int n" "counted (rcEnv r) jobs n"
      using count_active_counted by blast
    obtain t where t: "run_state (count_active (rcEnv r) jobs) (s\<lparr>world := snd ?l\<rparr>) = (int n, t)"
      using n(1) by (metis prod.collapse)
    have "observed_active r (world s) n" using Inr n(2) unfolding observed_active_def by blast
    moreover have "fst (run_state (concurrencyGate r) s)
        = Inr (if MaxConcurrentJobs (rcCfg r) \<le> int n then Some (requeue_after (30 * Second)) else None)"
      using assms Inr t by (simp add: concurrencyGate_def run_bind run_outside_fst run_emit split: sum.splits)
    ultimately show ?thesis by auto
  qed (use assms in \<open>simp add: concurrencyGate_def run_bind run_outside_fst\<close>)
qed

text \<open>
  From state \<open>s\<close> the program \<open>m\<close> comes, without a dispatch, to state \<open>s1\<close> and continues there as \<open>k\<close>. \<open>ends_in K m\<close>: it
  dispatches only if it so comes to one of the programs in \<open>K\<close>.
\<close>

definition reaches :: "('w, 'a) prog \<Rightarrow> 'w sys \<Rightarrow> ('w, 'a) prog \<Rightarrow> 'w sys \<Rightarrow> bool" where
  "reaches m s k s1 \<longleftrightarrow> (\<exists>es. trace s1 = trace s @ es \<and> filter is_dispatch es = []) \<and> run_state m s = run_state k s1"

definition silent :: "('w, 'a) prog \<Rightarrow> 'w sys \<Rightarrow> bool" where
  "silent m s \<longleftrightarrow> (\<exists>es. trace (snd (run_state m s)) = trace s @ es \<and> filter is_dispatch es = [])"

definition ends_in :: "('w, 'a) prog set \<Rightarrow> ('w, 'a) prog \<Rightarrow> bool" where
  "ends_in K m \<longleftrightarrow> (\<forall>s. silent m s \<or> (\<exists>k \<in> K. \<exists>s1. reaches m s k s1))"

lemma ends_in_self: "k \<in> K \<Longrightarrow> ends_in K k"
  unfolding ends_in_def reaches_def by (metis append_Nil2 filter.simps(1))

lemma quiet_silent: "quiet m \<Longrightarrow> silent m s"
  unfolding emits_def does_def silent_def by (metis filter_False list_all_iff)

lemma ends_in_ret: "ends_in K (ret x)"
  unfolding ends_in_def by (simp add: quiet_silent emits_prim)

lemma ends_in_bind:
  assumes "quiet m" and "\<And>x. ends_in K (f x)"
  shows "ends_in K (State_Monad.bind m f)"
  unfolding ends_in_def
proof
  fix s
  obtain x u where u: "run_state m s = (x, u)" by (cases "run_state m s")
  with quiet_silent [OF assms(1), of s] obtain es where es: "trace u = trace s @ es" "filter is_dispatch es = []"
    by (auto simp: silent_def)
  have run: "run_state (State_Monad.bind m f) s = run_state (f x) u" using u by (simp add: run_bind)
  from assms(2) [of x] consider "silent (f x) u" | k s1 where "k \<in> K" "reaches (f x) u k s1"
    unfolding ends_in_def by blast
  then show "silent (State_Monad.bind m f) s \<or> (\<exists>k \<in> K. \<exists>s1. reaches (State_Monad.bind m f) s k s1)"
  proof cases
    case 1
    with es run show ?thesis by (auto simp: silent_def)
  next
    case 2
    with es run have "reaches (State_Monad.bind m f) s k s1" by (auto simp: reaches_def)
    with 2(1) show ?thesis by blast
  qed
qed

lemma ends_in_gate: "quiet m \<Longrightarrow> ends_in K k \<Longrightarrow> ends_in K (gate m k)"
  unfolding gate_def by (rule ends_in_bind) (auto split: option.split intro: ends_in_ret)

lemma gated_dispatch_silent:
  assumes "fst (run_state (concurrencyGate r) s) \<noteq> Inr None"
  shows "silent (gated_dispatch r j fs) s"
proof -
  obtain g u where u: "run_state (concurrencyGate r) s = (g, u)" by (cases "run_state (concurrencyGate r) s")
  have "silent (concurrencyGate r) s" by (intro quiet_silent quiet_stages)
  moreover have "snd (run_state (gated_dispatch r j fs) s) = u"
    using assms u by (auto simp: gated_dispatch_def run_bind split: sum.splits option.splits)
  ultimately show ?thesis using u by (simp add: silent_def)
qed

lemma silent_effects: "silent m s \<Longrightarrow> filter is_dispatch (effects m s) = []"
  by (auto simp: silent_def effects_def)

lemma silent_no_create: "silent m s \<Longrightarrow> CreateJob jb x \<notin> set (effects m s)"
  using silent_effects [of m s] by (fastforce simp: filter_empty_conv)

lemma reaches_silent: "reaches m s k s1 \<Longrightarrow> silent k s1 \<Longrightarrow> silent m s"
  by (auto simp: reaches_def silent_def)

lemma lone_reconcile_ends:
  assumes "rcCorrelator r = None"
  shows "ends_in (range (\<lambda>j. gated_dispatch r j [])) (Controller_Reconcile r req)"
proof -
  have "ends_in (range (\<lambda>j. gated_dispatch r j [])) (reconcile_rjob r j)" for j
    unfolding reconcile_rjob_def correlation_stage_def assms option.case
    by (intro ends_in_gate quiet_stages ends_in_self rangeI)
  then show ?thesis
    unfolding Controller_Reconcile_def
    by (intro ends_in_bind emits_prim quiet_stages) (auto split: sum.split intro: ends_in_ret ends_in_bind quiet_stages)
qed

text \<open>
  C6. Without correlation the limit holds. A reconcile that creates an agent job comes, without having
  created one before, to a state in which it lists the managed jobs and counts fewer than
  \<open>MaxConcurrentJobs\<close> active ones among them, and goes on from there; a job is active if it is not finished and
  has pods or failed attempts or is at most half an hour old, so a job without pods counts and cannot be
  overtaken before its first pod is up. The gate itself is exact: it fails as the list fails, it turns
  a reconcile away for thirty seconds if it counts that many in the list, and opens otherwise.
\<close>

theorem dispatch_within_limit:
  assumes "MaxConcurrentJobs (rcCfg r) > 0" and "rcCorrelator r = None"
  shows "(CreateJob jb x \<in> set (effects (Controller_Reconcile r req) s) \<longrightarrow>
      (\<exists>j s1 n. reaches (Controller_Reconcile r req) s (gated_dispatch r j []) s1
        \<and> observed_active r (world s1) n \<and> int n < MaxConcurrentJobs (rcCfg r)))
    \<and> (case fst (run_state (concurrencyGate r) s) of
         Inl er \<Rightarrow> fst (list_jobs (rcEnv r) (AgentNamespace (rcCfg r)) managed (world s)) = Inl er
       | Inr g \<Rightarrow> \<exists>n. observed_active r (world s) n
           \<and> g = (if MaxConcurrentJobs (rcCfg r) \<le> int n then Some (requeue_after (30 * Second)) else None))"
proof (intro conjI impI)
  assume dispatched: "CreateJob jb x \<in> set (effects (Controller_Reconcile r req) s)"
  with lone_reconcile_ends [OF assms(2), of req] obtain j s1
    where s1: "reaches (Controller_Reconcile r req) s (gated_dispatch r j []) s1"
    unfolding ends_in_def using silent_no_create by blast
  with dispatched have "fst (run_state (concurrencyGate r) s1) = Inr None"
    using gated_dispatch_silent reaches_silent silent_no_create by blast
  with gate_observes [OF assms(1), of s1] obtain n where "observed_active r (world s1) n" "int n < MaxConcurrentJobs (rcCfg r)"
    by (auto split: if_splits)
  with s1 show "\<exists>j s1 n. reaches (Controller_Reconcile r req) s (gated_dispatch r j []) s1
      \<and> observed_active r (world s1) n \<and> int n < MaxConcurrentJobs (rcCfg r)" by blast
qed (rule gate_observes [OF assms(1)])

theorem dispatch_within_limit_witness:
  "CreateJob sample_job None \<in> set (effects (Controller_Reconcile solo_controller request_a) one_pending)
    \<and> (\<exists>j s1 n. reaches (Controller_Reconcile solo_controller request_a) one_pending (gated_dispatch solo_controller j []) s1
      \<and> observed_active solo_controller (world s1) n \<and> int n < 3)"
proof -
  have limit: "MaxConcurrentJobs (rcCfg solo_controller) = 3" "rcCorrelator solo_controller = None"
    by (simp_all add: solo_controller_def default_Config_def)
  obtain s' where "run_state (Controller_Reconcile solo_controller request_a) one_pending = (finish, s')"
    and "filter is_dispatch (trace s') = [CreateJob sample_job None]"
    using run_dispatching by blast
  then have "CreateJob sample_job None \<in> set (filter is_dispatch (effects (Controller_Reconcile solo_controller request_a) one_pending))"
    by (simp add: effects_def start_def)
  then have d: "CreateJob sample_job None \<in> set (effects (Controller_Reconcile solo_controller request_a) one_pending)" by simp
  with dispatch_within_limit [of solo_controller sample_job None request_a one_pending, unfolded limit]
  show ?thesis by simp
qed

text \<open>The agent jobs that are active at every reading of the clock fill the limit.\<close>

definition full :: "'w RemediationJobReconciler \<Rightarrow> bool" where
  "full r \<longleftrightarrow> MaxConcurrentJobs (rcCfg r) > 0 \<and>
     (\<forall>w. \<exists>jobs. fst (list_jobs (rcEnv r) (AgentNamespace (rcCfg r)) managed w) = Inr jobs
        \<and> MaxConcurrentJobs (rcCfg r) \<le> int (length jobs) \<and> (\<forall>v. list_all (active_at (fst (now (rcEnv r) v))) jobs))"

lemma full_observed: "full r \<Longrightarrow> observed_active r w n \<Longrightarrow> MaxConcurrentJobs (rcCfg r) \<le> int n"
proof -
  assume "full r" and "observed_active r w n"
  then obtain jobs where "fst (list_jobs (rcEnv r) (AgentNamespace (rcCfg r)) managed w) = Inr jobs"
    "counted (rcEnv r) jobs n" "MaxConcurrentJobs (rcCfg r) \<le> int (length jobs)"
    "\<And>v. list_all (active_at (fst (now (rcEnv r) v))) jobs"
    unfolding full_def observed_active_def by (metis sum.inject(2))
  with counted_always show ?thesis by metis
qed

text \<open>The API accepts the patches and creations of the controller, and the builder builds.\<close>

definition accepted :: "'w RemediationJobReconciler \<Rightarrow> bool" where
  "accepted r \<longleftrightarrow> (\<forall>j b w. \<exists>k. fst (patch_status (rcEnv r) j b w) = Inr k) \<and> (\<forall>j b w. \<exists>k. fst (patch_rjob (rcEnv r) j b w) = Inr k)
     \<and> (\<forall>job w. fst (create_job (rcEnv r) job w) = None) \<and> (\<forall>j fs. \<exists>job. rcBuild r j fs = Inr job)"

lemma does_step:
  assumes "does m (\<lambda>x es. P x)" and "\<And>x. P x \<Longrightarrow> does (f x) (\<lambda>y es. Q y (set es))"
    and "\<And>y A B. Q y A \<Longrightarrow> Q y (B \<union> A)"
  shows "does (State_Monad.bind m f) (\<lambda>y es. Q y (set es))"
  by (rule does_bind [OF assms(1), where U = "\<lambda>x y es. Q y (set es)"]) (use assms(2,3) in auto)

lemma accepted_calls:
  assumes "accepted r"
  shows "does (Patch_status (rcEnv r) j b) (\<lambda>p es. \<exists>k. p = Inr k)" "does (Patch_rjob (rcEnv r) j b) (\<lambda>p es. \<exists>k. p = Inr k)"
    "does (Now (rcEnv r)) (\<lambda>_ es. True)" "does (emit ef) (\<lambda>_ es. True)"
  using assms unfolding accepted_def does_def
  by (simp_all add: Patch_status_def Patch_rjob_def run_bind run_outside_fst run_emit Now_def)

lemma accepted_suppression:
  assumes "accepted r"
  shows "does (suppressCorrelatedPeers r peers g) (\<lambda>er es. er = None)"
proof -
  note step = does_step [where Q = "\<lambda>er _. er = None"]
  have "does (transitionSuppressed r p gid uid) (\<lambda>er es. er = None)" for p gid uid
    unfolding transitionSuppressed_def Let_def
    by (intro does_if does_return step [OF accepted_calls(3) [OF assms]] step [OF accepted_calls(4) [OF assms]]
        step [OF accepted_calls(1) [OF assms]]) (auto intro!: does_return step [OF accepted_calls(2) [OF assms]])
  then show ?thesis
    by (induction peers) (auto intro!: does_return step [where P = "\<lambda>er. er = None"])
qed

lemma accepted_dispatch:
  assumes "accepted r" and "InjectionDetectionAction (rcCfg r) \<noteq> ''suppress''"
  shows "does (dispatch_outcome r j fs) (\<lambda>out es. \<exists>job. CreateJob job None \<in> set es)"
proof -
  obtain job where job: "rcBuild r j fs = Inr job" using assms(1) unfolding accepted_def by blast
  have create: "does (Create_job (rcEnv r) job) (\<lambda>c es. c = None \<and> es = [CreateJob job None])"
    using assms(1) unfolding accepted_def does_def by (simp add: Create_job_def run_bind run_outside_fst run_emit)
  have any: "does m (\<lambda>_ _. True)" if "emits (\<lambda>_. True) m" for m :: "('a, goerr option) prog"
    using that by (auto simp: emits_def elim: does_mono)
  have "does (dispatch r j fs) (\<lambda>out es. \<exists>job. CreateJob job None \<in> set es)"
    unfolding dispatch_def Let_def using assms(2) job
    by (simp, intro does_bind [OF create, where U = "\<lambda>_ _ _. True"])
      (auto intro!: any emits_rules job_dispatched_event_emits emits_mono [OF quiet_stages(7)])
  then show ?thesis
    unfolding dispatch_outcome_def by (rule does_bind [where U = "\<lambda>_ _ _. True"]) (auto intro: does_return)
qed

text \<open>
  C38. The primary of a correlated group is not subject to the limit. On a cluster that is full, where
  a lone job is turned away, the controller dispatches the primary of a group all the same, whatever its
  peers, as long as the API accepts its patches and the creation: one more agent job than the limit allows.
\<close>

theorem group_dispatch_exceeds_limit:
  assumes "full r" and "accepted r" and "InjectionDetectionAction (rcCfg r) \<noteq> ''suppress''"
  shows "(\<exists>job. CreateJob job None \<in> set (effects (lead_group r j peers g) s))
    \<and> filter is_dispatch (effects (gated_dispatch r j fs) s) = []"
proof
  note step = does_step [where Q = "\<lambda>_ A. \<exists>job. CreateJob job None \<in> A"]
  have "does (lead_group r j peers g) (\<lambda>out es. \<exists>job. CreateJob job None \<in> set es)"
    unfolding lead_group_def Let_def
    by (rule step [OF accepted_suppression [OF assms(2)]])
      (auto intro!: step [OF accepted_calls(1) [OF assms(2)]] step [OF accepted_calls(2) [OF assms(2)]] accepted_dispatch assms(2,3))
  then show "\<exists>job. CreateJob job None \<in> set (effects (lead_group r j peers g) s)"
    unfolding does_def effects_def by (metis append_eq_conv_conj)
  have "fst (run_state (concurrencyGate r) s) \<noteq> Inr None"
    using gate_observes [of r s] full_observed [OF assms(1)] assms(1) by (auto simp: full_def split: if_splits)
  then show "filter is_dispatch (effects (gated_dispatch r j fs) s) = []"
    by (intro silent_effects gated_dispatch_silent)
qed

definition busy_job :: Job where
  "busy_job = recent_job\<lparr>jbActive := 1\<rparr>"

definition full_controller :: "cluster RemediationJobReconciler" where
  "full_controller = sample_controller (cluster_env\<lparr>patch_status := (\<lambda>j b c. (Inr j, c)), patch_rjob := (\<lambda>j b c. (Inr j, c)),
     create_job := (\<lambda>job c. (None, c)), list_jobs := (\<lambda>ns sel c. (Inr [busy_job, busy_job, busy_job], c))\<rparr>)"

theorem group_dispatch_exceeds_limit_witness:
  "\<exists>job. CreateJob job None \<in> set (effects (lead_group full_controller pending_rjob []
     \<lparr>cgGroupID = ''group-0'', cgPrimaryUID = ''uid-a'', cgCorrelatedUIDs = [], cgRule = ''rule'', cgAllFindings = []\<rparr>) one_pending)"
proof -
  have "active_at t busy_job" for t
    by (simp add: active_at_def busy_job_def recent_job_def sample_job_def syncPhaseFromJob_def backoff_limit_def int32_def)
  then have "full full_controller" "accepted full_controller" "InjectionDetectionAction (rcCfg full_controller) \<noteq> ''suppress''"
    by (simp_all add: full_def accepted_def full_controller_def sample_controller_def default_Config_def)
  then show ?thesis by (rule group_dispatch_exceeds_limit [THEN conjunct1])
qed

section \<open>Correlated peers are suppressed first\<close>

text \<open>The peer has been patched into phase Suppressed, as a member of the group.\<close>

definition suppressed_in :: "effect list \<Rightarrow> string \<Rightarrow> RemediationJob \<Rightarrow> bool" where
  "suppressed_in es gid p \<longleftrightarrow> (\<exists>k. PatchStatus p k None \<in> set es \<and> rjPhase k = PhaseSuppressed
     \<and> stCorrelationGroupID (rjStatus k) = gid)"

lemma suppressed_in_append: "suppressed_in es gid p \<Longrightarrow> suppressed_in (es @ fs) gid p"
  "suppressed_in fs gid p \<Longrightarrow> suppressed_in (es @ fs) gid p"
  by (auto simp: suppressed_in_def)

lemma transition_does:
  "does (transitionSuppressed r p gid uid) (\<lambda>er es. filter is_dispatch es = []
     \<and> (er = None \<and> rjPhase p = PhasePending \<longrightarrow> suppressed_in es gid p))"
  unfolding does_def
  by (auto simp: transitionSuppressed_def Let_def run_bind Now_def Patch_status_def Patch_rjob_def run_outside_fst
      run_emit suppressed_in_def add_condition_def split: sum.splits)

lemma suppress_does:
  "does (suppressCorrelatedPeers r peers g) (\<lambda>er es. filter is_dispatch es = [] \<and>
     (er = None \<longrightarrow> (\<forall>p \<in> set peers. rjUID p \<in> set (cgCorrelatedUIDs g) \<and> rjPhase p = PhasePending \<longrightarrow>
        suppressed_in es (cgGroupID g) p)))" (is "does _ (?T peers)")
proof (induction peers)
  case (Cons p peers)
  show ?case
  proof (cases "rjUID p \<in> set (cgCorrelatedUIDs g)")
    case True
    have "does (case er of None \<Rightarrow> suppressCorrelatedPeers r peers g | Some x \<Rightarrow> ret (Some x))
        (\<lambda>er' fs. if er = None then ?T peers er' fs else er' \<noteq> None \<and> fs = [])" for er
      using Cons by (cases er) (auto intro: does_return)
    then have "does (State_Monad.bind (transitionSuppressed r p (cgGroupID g) (cgPrimaryUID g))
        (\<lambda>er. case er of None \<Rightarrow> suppressCorrelatedPeers r peers g | Some x \<Rightarrow> ret (Some x))) (?T (p # peers))"
      by (rule does_bind [OF transition_does]) (auto intro: suppressed_in_append split: if_splits)
    with True show ?thesis by simp
  next
    case False
    have "does (suppressCorrelatedPeers r peers g) (?T (p # peers))"
      by (rule does_mono [OF Cons]) (use False in auto)
    with False show ?thesis by simp
  qed
qed (simp add: does_return)

lemma before_dispatch:
  assumes "filter is_dispatch es = []" and "es @ fs = pre @ ef # post" and "is_dispatch ef"
  obtains us where "pre = es @ us"
proof -
  have "length es \<le> length pre"
  proof (rule ccontr)
    assume "\<not> ?thesis"
    then have "ef \<in> set es" using assms(2)
      by (metis append_eq_append_conv_if hd_drop_conv_nth in_set_conv_nth linorder_not_le list.sel(1) nth_append_length nth_append)
    with assms(1,3) show False by (simp add: filter_empty_conv)
  qed
  with assms(2) that show thesis by (metis append_eq_append_conv_if append_take_drop_id)
qed

lemma dispatch_outcome_extends: "emits (\<lambda>_. True) (dispatch_outcome r j fs)"
  unfolding dispatch_outcome_def dispatch_def
  by (intro emits_rules emits_mono [OF quiet_stages(7)] job_dispatched_event_emits; simp)

text \<open>Before every dispatch in \<open>es\<close>, the pending ones of \<open>peers\<close> that \<open>g\<close> correlates are suppressed.\<close>

definition suppressed_first :: "RemediationJob list \<Rightarrow> CorrelationGroup \<Rightarrow> effect list \<Rightarrow> bool" where
  "suppressed_first peers g es \<longleftrightarrow> (\<forall>pre ef post. es = pre @ ef # post \<longrightarrow> is_dispatch ef \<longrightarrow>
     (\<exists>gid. \<forall>p \<in> set peers. rjUID p \<in> set (cgCorrelatedUIDs g) \<and> rjPhase p = PhasePending \<longrightarrow>
        suppressed_in pre gid p))"

lemma suppress_then:
  assumes "emits (\<lambda>_. True) (f None)" and "\<And>x. \<exists>y. f (Some x) = ret y"
  shows "does (State_Monad.bind (suppressCorrelatedPeers r peers g) f) (\<lambda>out es. suppressed_first peers g es)"
proof (rule does_bind [OF suppress_does])
  show "does (f er) (\<lambda>out fs. er = None \<or> fs = [])" for er
  proof (cases er)
    case None
    with assms(1) show ?thesis by (auto simp: emits_def elim: does_mono)
  next
    case (Some x)
    with assms(2) [of x] show ?thesis by (auto intro: does_return)
  qed
next
  fix er out and es fs :: "effect list"
  assume es: "filter is_dispatch es = [] \<and> (er = None \<longrightarrow> (\<forall>p \<in> set peers.
      rjUID p \<in> set (cgCorrelatedUIDs g) \<and> rjPhase p = PhasePending \<longrightarrow> suppressed_in es (cgGroupID g) p))"
    and fs: "er = None \<or> fs = []"
  show "suppressed_first peers g (es @ fs)"
    unfolding suppressed_first_def
  proof (intro allI impI exI ballI)
    fix pre ef post p
    assume eq: "es @ fs = pre @ ef # post" and ef: "is_dispatch ef" and "p \<in> set peers"
      and p: "rjUID p \<in> set (cgCorrelatedUIDs g) \<and> rjPhase p = PhasePending"
    from es eq ef obtain us where us: "pre = es @ us" by (blast elim: before_dispatch)
    with eq fs have "er = None" by auto
    with es p \<open>p \<in> set peers\<close> us show "suppressed_in pre (cgGroupID g) p" by (auto intro: suppressed_in_append)
  qed
qed

lemma lead_group_orders: "does (lead_group r j peers g) (\<lambda>out es. suppressed_first peers g es)"
proof -
  have tail: "emits (\<lambda>_. True) (do {
            p \<leftarrow> Patch_status (rcEnv r) k b;
            case p of Inl x \<Rightarrow> ret (fail (Api x))
            | Inr j1 \<Rightarrow> do {
                q \<leftarrow> Patch_rjob (rcEnv r) (set_group_labels gid CorrelationRolePrimary j1) (RemediationJob_DeepCopyInto j1);
                case q of Inl x \<Rightarrow> ret (fail (Api x)) | Inr j2 \<Rightarrow> dispatch_outcome r j2 fs } })" for k b gid fs
    by (intro emits_rules dispatch_outcome_extends; simp)
  have same: "suppressed_first peers (g\<lparr>cgGroupID := gid\<rparr>) = suppressed_first peers g" for gid
    by (simp add: suppressed_first_def fun_eq_iff)
  show ?thesis
    unfolding lead_group_def Let_def
    by (rule suppress_then [where peers = peers and g = "g\<lparr>cgGroupID := gid\<rparr>" for gid, unfolded same]) (simp_all only: option.case tail, blast)
qed

text \<open>
  C5. When a correlated primary is dispatched, its group has been settled first: before the agent
  job is created, every pending peer of the group has been patched, successfully, into phase
  Suppressed under the group's id, so that none of them can be dispatched on its own.
\<close>

theorem peers_suppressed_before_dispatch:
  "\<exists>es. trace (snd (run_state (lead_group r j peers g) s)) = trace s @ es \<and> suppressed_first peers g es"
  using lead_group_orders [of r j peers g] unfolding does_def by blast

section \<open>The correlation window\<close>

lemma passes_window:
  assumes "0 < w" and "\<forall>v. time_Sub (fst (now (rcEnv r) v)) (rjCreationTimestamp j) < w"
  shows "passes (window_hold r j w) False"
  using assms by (auto simp: passes_def window_hold_def run_bind Now_def run_outside_fst)

text \<open>
  With correlation on, a pending job is not dispatched while it is younger than the correlation
  window, whatever else the cluster contains; the controller asks to see it again.
\<close>

theorem young_jobs_wait:
  assumes "rcCorrelator r = Some rules" and "0 < seconds (CorrelationWindowSeconds (rcCfg r))"
    and "\<forall>w. time_Sub (fst (now (rcEnv r) w)) (rjCreationTimestamp j) < seconds (CorrelationWindowSeconds (rcCfg r))"
  shows "filter is_dispatch (effects (reconcile_rjob r j) s) = []"
proof -
  have "quiet (correlation_stage r j k)" for k
    unfolding correlation_stage_def Let_def assms(1) option.case
    by (rule emits_gate [OF quiet_stages(8) passes_window [OF assms(2,3)]]) simp
  then have "quiet (reconcile_rjob r j)"
    unfolding reconcile_rjob_def by (intro emits_gate [OF _ passes_trivial] quiet_stages)
  then show ?thesis by (auto simp: filter_empty_conv dest: emits_effects)
qed

theorem young_jobs_wait_witness:
  "filter is_dispatch (effects (reconcile_rjob (sample_controller (cluster_env\<lparr>now := \<lambda>c. (20 * Second, c)\<rparr>)) pending_rjob)
     (start empty_cluster)) = []"
proof -
  let ?r = "sample_controller (cluster_env\<lparr>now := \<lambda>c. (20 * Second, c)\<rparr>)"
  have win: "seconds (CorrelationWindowSeconds (rcCfg ?r)) = 30 * Second"
    by (simp add: sample_controller_def default_Config_def seconds_exact)
  show ?thesis
    by (rule young_jobs_wait [where rules = "builtin_rules (rcEnv ?r) default_Config"])
      (simp_all add: win, simp_all add: sample_controller_def sample_rjob_def time_Sub_def Second_def)
qed

end
