(* ===== verification/Redact.thy ===== *)
theory Redact
  imports Regex Json
begin

text \<open>
  The redaction of secrets (\<open>src/internal/domain/redact.go\<close>) and the command-line filter the
  agent pipes its tool output through (\<open>src/cmd/redact/main.go\<close>). The sixteen built-in patterns
  are the source's, as expressions of \<open>Regex\<close>; \<open>ReplaceAllString\<close> follows Go's replacement
  loop. The compiler for the operator's extra patterns is a parameter \<open>compile\<close> that
  returns an error or an expression.
\<close>

section \<open>Replacement\<close>

datatype part = Group1 | Text string

record redactRule =
  ruGroup :: rx \<comment> \<open>the leading capture group, \<open>Eps\<close> if the pattern has none\<close>
  ruRest :: rx
  ruReplacement :: "part list"

fun expand :: "part list \<Rightarrow> string \<Rightarrow> string" where
  "expand [] g = []"
| "expand (Group1 # ps) g = g @ expand ps g"
| "expand (Text t # ps) g = t @ expand ps g"

text \<open>The preferred match at the start of the input: the text of the group and what is left.\<close>

definition match_at :: "redactRule \<Rightarrow> string \<Rightarrow> (string \<times> string) option" where
  "match_at r s =
     (case concat (map (\<lambda>t. map (Pair (take (length s - length t) s)) (alternatives (ruRest r) t))
        (alternatives (ruGroup r) s)) of
        [] \<Rightarrow> None
      | m # _ \<Rightarrow> Some m)"

definition rune_width :: "string \<Rightarrow> nat" where
  "rune_width s = (case rune_len s of None \<Rightarrow> 1 | Some n \<Rightarrow> n)"

lemma rune_width_pos: "0 < rune_width s"
  using rune_len_bounds [of s] by (cases "rune_len s") (auto simp: rune_width_def)

text \<open>
  The loop of \<open>ReplaceAllString\<close> from a position on; \<open>after\<close> tells that the position is the end
  of a match, where an empty match is not replaced once more.
\<close>

function replace_from :: "redactRule \<Rightarrow> bool \<Rightarrow> string \<Rightarrow> string" where
  "replace_from r after s =
     (case match_at r s of
        None \<Rightarrow> (case s of [] \<Rightarrow> [] | c # cs \<Rightarrow> c # replace_from r False cs)
      | Some (g, t) \<Rightarrow>
          if length t < length s then expand (ruReplacement r) g @ replace_from r True t
          else (if after then [] else expand (ruReplacement r) g) @
               (if s = [] then []
                else take (rune_width s) s @ replace_from r False (drop (rune_width s) s)))"
  by pat_completeness auto
termination
  by (relation "measure (\<lambda>(r, a, s). length s)") (auto simp: rune_width_pos)

declare replace_from.simps [simp del]

definition ReplaceAllString :: "redactRule \<Rightarrow> string \<Rightarrow> string" where
  "ReplaceAllString r s = replace_from r False s"

section \<open>The built-in patterns\<close>

fun Exactly :: "nat \<Rightarrow> rx \<Rightarrow> rx" where
  "Exactly 0 r = Eps"
| "Exactly (Suc n) r = Seq r (Exactly n r)"

definition AtLeast :: "nat \<Rightarrow> rx \<Rightarrow> rx" where
  "AtLeast n r = Seq (Exactly n r) (Star r)"

definition chars_between :: "char \<Rightarrow> char \<Rightarrow> char list" where
  "chars_between a b = map byte_of [byte_val a..byte_val b]"

definition lowers :: "char list" where "lowers = chars_between (CHR ''a'') (CHR ''z'')"
definition uppers :: "char list" where "uppers = chars_between (CHR ''A'') (CHR ''Z'')"
definition digits :: "char list" where "digits = chars_between (CHR ''0'') (CHR ''9'')"

definition One :: "char list \<Rightarrow> rx" where
  "One cs = Cls False cs"

definition Lit :: "string \<Rightarrow> rx" where
  "Lit w = Seqs (map (\<lambda>c. One [c]) w)"

definition blanks :: "char list" where
  "blanks = [byte_of 9, byte_of 10, byte_of 12, byte_of 13, CHR '' '']"

definition NonSpace :: rx where
  "NonSpace = Cls True blanks"

definition quote :: char where
  "quote = byte_of 34"

text \<open>\<open>[A-Z0-9]\<close> under \<open>(?i)\<close>: with the two letters outside ASCII that fold to K and S.\<close>

definition Alnum_ci :: rx where
  "Alnum_ci = Alts [One (uppers @ lowers @ digits), Seqs [byte 226, byte 132, byte 170], Seqs [byte 197, byte 191]]"

text \<open>\<open>(key\s*[=:]\s*)\S+\<close>\<close>

definition key_value :: "rx \<Rightarrow> redactRule" where
  "key_value key = \<lparr>ruGroup = Seqs [key, Star Space, One [CHR ''='', CHR '':''], Star Space],
     ruRest = Plus NonSpace, ruReplacement = [Group1, Text ''[REDACTED]'']\<rparr>"

definition plain_rule :: "rx \<Rightarrow> string \<Rightarrow> redactRule" where
  "plain_rule r w = \<lparr>ruGroup = Eps, ruRest = r, ruReplacement = [Text w]\<rparr>"

definition KeyKind :: rx where
  "KeyKind = Opt (Alts [Word_ci ''RSA '', Word_ci ''EC '', Word_ci ''DSA '', Word_ci ''OPENSSH ''])"

definition base64_chars :: "char list" where
  "base64_chars = uppers @ lowers @ digits @ [CHR ''+'', CHR ''/'']"

definition base64_rx :: rx where
  "base64_rx = Seq (AtLeast 40 (One base64_chars)) (UpTo 2 (One [CHR ''='']))"

definition base64_rule :: redactRule where
  "base64_rule = plain_rule base64_rx ''[REDACTED-BASE64]''"

definition builtinRules :: "redactRule list" where
  "builtinRules =
     [plain_rule (Seqs [Word_ci ''://'', Star (Cls True ([CHR '':'', CHR ''@''] @ blanks)), One [CHR '':''],
                  Plus (Cls True (CHR ''@'' # blanks)), One [CHR ''@'']]) ''://[REDACTED]@'',
      \<lparr>ruGroup = Word_ci ''bearer '', ruRest = Plus NonSpace, ruReplacement = [Group1, Text ''[REDACTED]'']\<rparr>,
      plain_rule (Seqs [Lit ''gh'', One lowers, Lit ''_'', AtLeast 36 (One (uppers @ lowers @ digits))])
        ''[REDACTED-GH-TOKEN]'',
      \<lparr>ruGroup = Seqs [One [quote], Word_ci ''password'', One [quote], Star Space, One [CHR '':''], Star Space],
       ruRest = Seqs [One [quote], Star (Cls True [quote]), One [quote]],
       ruReplacement = [Group1, Text (quote # ''[REDACTED]'' @ [quote])]\<rparr>,
      key_value (Word_ci ''password''),
      key_value (Word_ci ''token''),
      key_value (Word_ci ''secret''),
      key_value (Seqs [Word_ci ''api'', Opt (One [CHR ''_'', CHR ''-'']), Word_ci ''key'']),
      key_value (Word_ci ''x-api-key''),
      plain_rule (Seqs [Word_ci ''-----BEGIN '', KeyKind, Word_ci ''PRIVATE KEY-----'', LazyStar (Cls True []),
                  Word_ci ''-----END '', KeyKind, Word_ci ''PRIVATE KEY-----'']) ''[REDACTED-PEM-KEY]'',
      plain_rule (Seq (Word_ci ''AGE-SECRET-KEY-1'') (AtLeast 40 Alnum_ci)) ''[REDACTED-AGE-KEY]'',
      plain_rule (Seqs [Lit ''sk-'', AtLeast 4 (One (lowers @ uppers @ digits @ [CHR ''_'', CHR ''-''])),
                  AtLeast 16 (One (uppers @ lowers @ digits))]) ''[REDACTED-SK-KEY]'',
      plain_rule (Seq (Lit ''AKIA'') (Exactly 16 (One (uppers @ digits)))) ''[REDACTED-AWS-KEY]'',
      plain_rule (Seqs [Lit ''ey'', AtLeast 10 (One (uppers @ lowers @ digits @ [CHR ''_'', CHR ''-''])), Lit ''.ey'',
                  AtLeast 10 (One (uppers @ lowers @ digits @ [CHR ''_'', CHR ''-'']))]) ''[REDACTED-JWT]'',
      \<lparr>ruGroup = Seqs [Word_ci ''authorization'', Star Space, One [CHR '':''], Star Space],
       ruRest = Seqs [Alts (map Word_ci [''token'', ''basic'', ''digest'', ''apikey'', ''aws4-hmac-sha256'', ''ntlm'']),
                  Plus Space, Plus NonSpace],
       ruReplacement = [Group1, Text ''[REDACTED]'']\<rparr>,
      base64_rule]"

section \<open>The redactor\<close>

text \<open>
  Extra patterns are compiled by \<open>regexp.Compile\<close>, a parameter; what it returns is an expression of theory Regex, so extra
  patterns with anchors or word boundaries are outside the model.
\<close>

fun compile_extras :: "(string \<Rightarrow> goerr + rx) \<Rightarrow> string list \<Rightarrow> goerr + redactRule list" where
  "compile_extras compile [] = Inr []"
| "compile_extras compile (p # ps) =
     (let p = strings_TrimSpace p in
      if p = '''' then compile_extras compile ps
      else case compile p of
          Inl er \<Rightarrow> Inl (Wrapped (''domain.New: invalid extra redact pattern '' @ quote # p @ [quote]) er)
        | Inr r \<Rightarrow>
            (case compile_extras compile ps of
               Inl er \<Rightarrow> Inl er
             | Inr rs \<Rightarrow> Inr (plain_rule r ''[REDACTED-CUSTOM]'' # rs)))"

definition NewRedactor :: "(string \<Rightarrow> goerr + rx) \<Rightarrow> string list \<Rightarrow> goerr + redactRule list" where
  "NewRedactor compile extras =
     (case compile_extras compile extras of Inl er \<Rightarrow> Inl er | Inr rs \<Rightarrow> Inr (builtinRules @ rs))"

fun Redact :: "redactRule list \<Rightarrow> string \<Rightarrow> string" where
  "Redact [] t = t"
| "Redact (r # rs) t = Redact rs (ReplaceAllString r t)"

definition RedactSecrets :: "string \<Rightarrow> string" where
  "RedactSecrets t = Redact builtinRules t"

section \<open>The filter of the agent\<close>

fun split_at :: "char \<Rightarrow> string \<Rightarrow> string list" where
  "split_at d [] = [[]]"
| "split_at d (c # cs) =
     (if c = d then [] # split_at d cs
      else case split_at d cs of [] \<Rightarrow> [[c]] | w # ws \<Rightarrow> (c # w) # ws)"

text \<open>\<open>strings.Split(raw, ",")\<close>, trimmed, without the empty parts.\<close>

definition comma_list :: "string \<Rightarrow> string list" where
  "comma_list raw = filter (\<lambda>p. p \<noteq> '''') (map strings_TrimSpace (split_at (CHR '','') raw))"

definition redact_run :: "(string \<Rightarrow> goerr + rx) \<Rightarrow> string \<Rightarrow> goerr + string \<Rightarrow> goerr + string" where
  "redact_run compile raw input =
     (let extras = (if raw \<noteq> '''' then comma_list raw else []);
          validExtras = filter (\<lambda>p. case compile p of Inl _ \<Rightarrow> False | Inr _ \<Rightarrow> True) extras in
      case NewRedactor compile validExtras of
        Inl er \<Rightarrow> Inl (Wrapped ''[redact] failed to build redactor'' er)
      | Inr redactor \<Rightarrow>
          (case input of
             Inl er \<Rightarrow> Inl er
           | Inr t \<Rightarrow> Inr (Redact redactor t)))"

section \<open>No long run survives\<close>

abbreviation run :: "string \<Rightarrow> nat" where
  "run s \<equiv> length (takeWhile (\<lambda>c. c \<in> set base64_chars) s)"

lemma matches_Exactly: "length u = n \<Longrightarrow> set u \<subseteq> set cs \<Longrightarrow> matches (Exactly n (One cs)) u"
proof (induction n arbitrary: u)
  case (Suc n)
  then obtain c v where u: "u = [c] @ v" "length v = n" "c \<in> set cs" "set v \<subseteq> set cs" by (cases u) auto
  have "matches (One cs) [c]" using u(3) by (auto simp: One_def cls_ok_def intro: m_Cls)
  with Suc.IH [OF u(2,4)] show ?case unfolding u(1) by (simp only: Exactly.simps) (rule m_Seq)
qed (auto intro: m_Eps)

lemma Exactly_length: "matches (Exactly n (One cs)) u \<Longrightarrow> length u = n"
  by (induction n arbitrary: u) (auto simp: One_def elim!: matches_EpsE matches_SeqE matches_ClsE)

lemma match_plain:
  "match_at (plain_rule r w) s = (case alternatives r s of [] \<Rightarrow> None | t # _ \<Rightarrow> Some ([], t))"
  by (simp add: match_at_def plain_rule_def split: list.splits)

lemma base64_matches:
  assumes "40 \<le> run s"
  shows "match_at base64_rule s \<noteq> None"
proof -
  let ?u = "take 40 (takeWhile (\<lambda>c. c \<in> set base64_chars) s)"
  have "matches (AtLeast 40 (One base64_chars)) (?u @ [])"
    unfolding AtLeast_def
    using assms by (intro m_Seq matches_Exactly m_StarNil) (auto dest!: in_set_takeD set_takeWhileD)
  moreover have "matches (UpTo 2 (One [CHR ''='']) ) []"
    by (simp add: numeral_2_eq_2 Opt_def m_Alt2 m_Eps)
  ultimately have "matches base64_rx ((?u @ []) @ [])"
    unfolding base64_rx_def by (rule m_Seq)
  moreover have "?u @ drop 40 s = s"
    using assms by (metis append_take_drop_id takeWhile_eq_take take_take min_def)
  ultimately have "alternatives base64_rx s \<noteq> []"
    using alternatives_complete [of base64_rx ?u "drop 40 s"] by auto
  then show ?thesis by (simp add: base64_rule_def match_plain split: list.splits)
qed

lemma base64_match_shorter:
  assumes "match_at base64_rule s = Some (g, t)"
  shows "length t < length s"
proof -
  have "t \<in> set (alternatives base64_rx s)"
    using assms by (auto simp: base64_rule_def match_plain split: list.splits)
  then obtain u where u: "s = u @ t" "matches base64_rx u" using alternatives_sound by blast
  then show ?thesis by (auto simp: base64_rx_def AtLeast_def dest!: Exactly_length elim!: matches_SeqE)
qed

lemma base64_replacement: "expand (ruReplacement base64_rule) g = ''[REDACTED-BASE64]''"
  by (simp add: base64_rule_def plain_rule_def)

lemma base64_open: "CHR ''['' \<notin> set base64_chars" "CHR '']'' \<notin> set base64_chars"
  by code_simp+

lemma base64_last: "last ''[REDACTED-BASE64]'' \<notin> set base64_chars" "length ''[REDACTED-BASE64]'' < 40"
  using base64_open(2) by simp_all

lemma run_replaced: "run (''[REDACTED-BASE64]'' @ s) = 0"
  using base64_open by simp

lemma replaced_run:
  assumes "match_at base64_rule s = None"
  shows "run (replace_from base64_rule a s) \<le> run s"
  using assms
proof (induction s arbitrary: a)
  case Nil
  then show ?case by (subst replace_from.simps) simp
next
  case (Cons c cs)
  have out: "replace_from base64_rule a (c # cs) = c # replace_from base64_rule False cs"
    using Cons.prems by (subst replace_from.simps) simp
  show ?case
  proof (cases "match_at base64_rule cs")
    case None
    with Cons.IH [of False] show ?thesis by (simp add: out)
  next
    case (Some m)
    then obtain g t where "match_at base64_rule cs = Some (g, t)" "length t < length cs"
      using base64_match_shorter by (cases m) blast
    then have "replace_from base64_rule False cs = ''[REDACTED-BASE64]'' @ replace_from base64_rule True t"
      by (subst replace_from.simps) (simp add: base64_replacement)
    then show ?thesis using run_replaced by (simp add: out)
  qed
qed

lemma suffix_runs:
  assumes "\<And>v. suffix v x \<Longrightarrow> run v < 40" and "suffix v (p @ x)"
    and "last p \<notin> set base64_chars" and "length p < 40"
  shows "run v < 40"
proof (cases "suffix v x")
  case False
  from assms(2) have "suffix v x \<or> (\<exists>w. v = w @ x \<and> suffix w p)" by (simp add: suffix_append)
  with False obtain w where w: "v = w @ x" "suffix w p" "w \<noteq> []" by (metis append_Nil suffix_order.refl)
  obtain z where "p = z @ w" using w(2) by (auto simp: suffix_def)
  with w(3) have lw: "last w = last p" "length w \<le> length p" by simp_all
  have "takeWhile (\<lambda>c. c \<in> set base64_chars) v = takeWhile (\<lambda>c. c \<in> set base64_chars) w"
    unfolding w(1) using last_in_set [OF w(3)] assms(3) unfolding lw(1) by (rule takeWhile_append1)
  moreover have "run w \<le> length w" by (rule length_takeWhile_le)
  ultimately show ?thesis using assms(4) lw(2) by simp
qed (rule assms(1))

lemma replace_runs: "suffix v (replace_from base64_rule a s) \<Longrightarrow> run v < 40"
proof (induction "length s" arbitrary: s a v rule: less_induct)
  case less
  show ?case
  proof (cases "match_at base64_rule s")
    case None
    have lead: "run (replace_from base64_rule a s) < 40"
      using replaced_run [OF None, of a] base64_matches [of s] None by fastforce
    show ?thesis
    proof (cases s)
      case Nil
      with less.prems None show ?thesis by (subst (asm) replace_from.simps) simp
    next
      case (Cons c cs)
      then have out: "replace_from base64_rule a s = c # replace_from base64_rule False cs"
        using None by (subst replace_from.simps) simp
      from less.prems consider "v = replace_from base64_rule a s" | "suffix v (replace_from base64_rule False cs)"
        unfolding out by (auto simp: suffix_Cons)
      then show ?thesis using lead less.hyps [of cs] Cons by cases auto
    qed
  next
    case (Some m)
    then obtain g t where gt: "match_at base64_rule s = Some (g, t)" "length t < length s"
      using base64_match_shorter by (cases m) blast
    then have eq: "replace_from base64_rule a s = ''[REDACTED-BASE64]'' @ replace_from base64_rule True t"
      by (subst replace_from.simps) (simp add: base64_replacement)
    show ?thesis by (rule suffix_runs [OF less.hyps [OF gt(2)] less.prems [unfolded eq] base64_last])
  qed
qed

lemma Redact_append: "Redact (xs @ ys) t = Redact ys (Redact xs t)"
  by (induction xs arbitrary: t) auto

text \<open>
  C34. Whatever text is redacted, the result holds no run of forty or more characters of the base64
  alphabet: long encoded secrets, private keys and Kubernetes secret values do not get through.
\<close>

theorem no_long_base64_survives:
  "\<not> (\<exists>u. sublist u (RedactSecrets t) \<and> 40 \<le> length u \<and> set u \<subseteq> set base64_chars)"
proof
  assume "\<exists>u. sublist u (RedactSecrets t) \<and> 40 \<le> length u \<and> set u \<subseteq> set base64_chars"
  then obtain a u b where u: "RedactSecrets t = a @ u @ b" "40 \<le> length u" "set u \<subseteq> set base64_chars"
    by (auto simp: sublist_def)
  have "builtinRules = butlast builtinRules @ [base64_rule]" by (simp add: builtinRules_def)
  then have "RedactSecrets t = replace_from base64_rule False (Redact (butlast builtinRules) t)"
    unfolding RedactSecrets_def by (metis Redact.simps Redact_append ReplaceAllString_def)
  then have "suffix (u @ b) (replace_from base64_rule False (Redact (butlast builtinRules) t))"
    using u(1) by (metis suffix_def)
  then have "run (u @ b) < 40" by (rule replace_runs)
  moreover have "length u \<le> run (u @ b)"
    using u(3) by (subst takeWhile_append2) auto
  ultimately show False using u(2) by simp
qed

section \<open>The filter and the watcher\<close>

lemma hd_dropWhile_last: "dropWhile P (rev (dropWhile P (rev (dropWhile P s)))) = rev (dropWhile P (rev (dropWhile P s)))"
proof (cases "dropWhile P s")
  case Nil
  then show ?thesis unfolding Nil by simp
next
  case (Cons c cs)
  then have "\<not> P c" by (metis dropWhile_eq_Cons_conv)
  then have "\<exists>ws. rev (dropWhile P (rev (c # cs))) = c # ws"
    by (auto simp: dropWhile_append split: if_splits) (metis rev_rev_ident)
  with Cons \<open>\<not> P c\<close> show ?thesis by auto
qed

lemma TrimSpace_idem [simp]: "strings_TrimSpace (strings_TrimSpace s) = strings_TrimSpace s"
  by (simp add: strings_TrimSpace_def hd_dropWhile_last)

lemma comma_list_trimmed: "p \<in> set (comma_list raw) \<Longrightarrow> strings_TrimSpace p = p \<and> p \<noteq> ''''"
  by (auto simp: comma_list_def)

lemma comma_list_Nil [simp]: "comma_list '''' = []"
  by (simp add: comma_list_def strings_TrimSpace_def)

definition valid_pattern :: "(string \<Rightarrow> goerr + rx) \<Rightarrow> string \<Rightarrow> bool" where
  "valid_pattern compile p \<longleftrightarrow> (case compile p of Inl _ \<Rightarrow> False | Inr _ \<Rightarrow> True)"

lemma compile_extras_valid:
  assumes "\<And>p. p \<in> set ps \<Longrightarrow> strings_TrimSpace p = p \<and> p \<noteq> ''''"
  shows "(\<exists>rs. compile_extras compile ps = Inr rs) \<longleftrightarrow> (\<forall>p \<in> set ps. valid_pattern compile p)"
  using assms
proof (induction ps)
  case (Cons p ps)
  then have "strings_TrimSpace p = p" "p \<noteq> ''''" by auto
  moreover have "(\<exists>rs. compile_extras compile ps = Inr rs) \<longleftrightarrow> (\<forall>p \<in> set ps. valid_pattern compile p)"
    using Cons by simp
  ultimately show ?case
    by (cases "compile p"; cases "compile_extras compile ps") (auto simp: valid_pattern_def)
qed simp

text \<open>
  C35. The agent's filter and the watcher redact alike: when the operator's extra patterns are all
  valid, the filter returns exactly what the watcher's redactor makes of the text; and it never
  fails because of a pattern, an invalid one is left out.
\<close>

theorem filter_redacts_like_watcher:
  "\<exists>rules. redact_run compile raw (Inr t) = Inr (Redact rules t)
     \<and> (\<forall>rules'. NewRedactor compile (comma_list raw) = Inr rules' \<longrightarrow> rules' = rules)"
proof -
  let ?valid = "filter (valid_pattern compile) (comma_list raw)"
  have "\<exists>rs. compile_extras compile ?valid = Inr rs"
    using compile_extras_valid [of ?valid compile] comma_list_trimmed by auto
  then obtain rules where new: "NewRedactor compile ?valid = Inr rules" by (auto simp: NewRedactor_def)
  have "redact_run compile raw (Inr t) = Inr (Redact rules t)"
    using new unfolding redact_run_def Let_def by (cases "raw = ''''") (simp_all add: valid_pattern_def [abs_def])
  moreover have "rules' = rules" if "NewRedactor compile (comma_list raw) = Inr rules'" for rules'
  proof -
    have "\<exists>rs. compile_extras compile (comma_list raw) = Inr rs"
      using that by (auto simp: NewRedactor_def split: sum.splits)
    then have "?valid = comma_list raw"
      using compile_extras_valid [of "comma_list raw" compile] comma_list_trimmed by (simp add: filter_id_conv)
    with new that show ?thesis by simp
  qed
  ultimately show ?thesis by blast
qed

theorem filter_redacts_like_watcher_witness:
  "redact_run (\<lambda>p. if p = ''ab'' then Inr (Lit ''ab'') else Inl (Msg p)) ''ab'' (Inr ''tab'')
     = Inr (Redact (builtinRules @ [plain_rule (Lit ''ab'') ''[REDACTED-CUSTOM]'']) ''tab'')"
  (is "redact_run ?c _ _ = _")
proof -
  have "comma_list ''ab'' = [''ab'']"
    by (simp add: comma_list_def strings_TrimSpace_def is_space_def byte_val_def)
  then have "NewRedactor ?c (comma_list ''ab'') = Inr (builtinRules @ [plain_rule (Lit ''ab'') ''[REDACTED-CUSTOM]''])"
    by (simp add: NewRedactor_def strings_TrimSpace_def is_space_def byte_val_def)
  with filter_redacts_like_watcher [of ?c "''ab''" "''tab''"] show ?thesis by auto
qed

end
