(* ===== verification/Strconv.thy ===== *)
theory Strconv
  imports Json
begin

text \<open>
  \<open>strconv.Atoi\<close> and \<open>strconv.ParseInt(s, 10, 64)\<close>: an optional sign and decimal digits, read
  as a 64-bit number. As in Go an overflow is noticed at the digit that causes it, before the rest
  of the text is looked at.
\<close>

datatype num_error = ErrSyntax | ErrRange

fun parse_digits :: "int \<Rightarrow> string \<Rightarrow> num_error + int" where
  "parse_digits n [] = Inr n"
| "parse_digits n (c # cs) =
     (if \<not> is_digit c then Inl ErrSyntax
      else if n \<ge> 2 ^ 64 div 10 + 1 then Inl ErrRange
      else
        (let n1 = n * 10 + (byte_val c - 48) in
         if n1 \<ge> 2 ^ 64 then Inl ErrRange else parse_digits n1 cs))"

definition strconv_Atoi :: "string \<Rightarrow> num_error + int" where
  "strconv_Atoi s =
     (case s of
        [] \<Rightarrow> Inl ErrSyntax
      | c # cs \<Rightarrow>
          (let neg = (c = CHR ''-''); body = (if c = CHR ''-'' \<or> c = CHR ''+'' then cs else s) in
           if body = [] then Inl ErrSyntax
           else case parse_digits 0 body of
               Inl er \<Rightarrow> Inl er
             | Inr un \<Rightarrow>
                 if \<not> neg \<and> un \<ge> 2 ^ 63 then Inl ErrRange
                 else if neg \<and> un > 2 ^ 63 then Inl ErrRange
                 else Inr (if neg then - un else un)))"

section \<open>Bounds and round trip\<close>

lemma parse_digits_range: "parse_digits n s = Inr v \<Longrightarrow> 0 \<le> n \<Longrightarrow> 0 \<le> v"
proof (induction s arbitrary: n)
  case (Cons c cs)
  then show ?case by (auto simp: Let_def is_digit_def in_range_def split: if_splits)
qed simp

lemma Atoi_bounds: "strconv_Atoi s = Inr n \<Longrightarrow> - (2 ^ 63) \<le> n \<and> n < 2 ^ 63"
  by (auto simp: strconv_Atoi_def Let_def is_digit_def in_range_def dest!: parse_digits_range split: list.splits sum.splits if_splits)

lemma parse_digits_append:
  "parse_digits n (xs @ ys) = (case parse_digits n xs of Inl er \<Rightarrow> Inl er | Inr m \<Rightarrow> parse_digits m ys)"
  by (induction xs arbitrary: n) (auto simp: Let_def)

lemma digit_char: "0 \<le> d \<Longrightarrow> d < 10 \<Longrightarrow> is_digit (digit_char d) \<and> byte_val (digit_char d) = 48 + d"
  by (simp add: is_digit_def in_range_def digit_char_def)

lemma parse_dec_digits: "0 \<le> n \<Longrightarrow> n < 2 ^ 64 \<Longrightarrow> parse_digits 0 (dec_digits n) = Inr n"
proof (induction n rule: dec_digits.induct)
  case (1 n)
  show ?case
  proof (cases "n < 10")
    case True
    with 1 digit_char [of n] show ?thesis by (subst dec_digits.simps) (simp add: Let_def)
  next
    case False
    have "parse_digits 0 (dec_digits (n div 10)) = Inr (n div 10)"
      using False 1 by (intro "1.IH") auto
    with False 1(2,3) digit_char [of "n mod 10"] show ?thesis
      by (subst dec_digits.simps) (simp add: parse_digits_append Let_def)
  qed
qed

lemma dec_digits_first: "0 \<le> n \<Longrightarrow> \<exists>c cs. dec_digits n = c # cs \<and> is_digit c"
proof (induction n rule: dec_digits.induct)
  case (1 n)
  show ?case
  proof (cases "n < 10")
    case True
    with 1 digit_char [of n] show ?thesis by (subst dec_digits.simps) simp
  next
    case False
    then have "0 \<le> n div 10" by simp
    with 1(1) False obtain c cs where "dec_digits (n div 10) = c # cs" "is_digit c" by blast
    with False show ?thesis by (subst dec_digits.simps) simp
  qed
qed

lemma sign_no_digit: "\<not> is_digit (CHR ''-'')" "\<not> is_digit (CHR ''+'')"
  by code_simp+

lemma Atoi_int_to_dec:
  assumes "- (2 ^ 63) \<le> n" and "n < 2 ^ 63"
  shows "strconv_Atoi (int_to_dec n) = Inr n"
proof -
  obtain c cs where d: "dec_digits \<bar>n\<bar> = c # cs" "is_digit c" using dec_digits_first [of "\<bar>n\<bar>"] by auto
  have p: "parse_digits 0 (c # cs) = Inr \<bar>n\<bar>"
    using parse_dec_digits [of "\<bar>n\<bar>"] assms unfolding d(1) by simp
  have "c \<noteq> CHR ''-''" "c \<noteq> CHR ''+''" using d(2) sign_no_digit by auto
  with assms d(1) p show ?thesis
    by (cases "n < 0") (auto simp: int_to_dec_def strconv_Atoi_def Let_def simp del: parse_digits.simps)
qed

end
