(* ===== verification/Settings.thy ===== *)
theory Settings
  imports Config Redact Strconv
begin

text \<open>
  \<open>FromEnv\<close> (\<open>src/internal/config/config.go\<close>): the configuration is read from the environment
  in blocks, one per variable or group of variables; each block assigns a field of the
  \<open>Config\<close> or returns an error, which ends the reading. The error values carry the arguments of
  the message. \<open>resource.ParseQuantity\<close> and the compiler of regular expressions are parameters.
\<close>

section \<open>Reading the environment\<close>

type_synonym environment = "string \<Rightarrow> string"

datatype config_error =
    NotSet string
  | Unsupported string string
  | NotAnInteger string num_error
  | TooSmall string int
  | TooLarge string int
  | EmptyAfterParsing string
  | BadPatterns goerr
  | BadQuantity string string goerr

type_synonym block = "environment \<Rightarrow> Config \<Rightarrow> config_error + Config"

fun run_blocks :: "block list \<Rightarrow> block" where
  "run_blocks [] env cfg = Inr cfg"
| "run_blocks (b # bs) env cfg = (case b env cfg of Inl er \<Rightarrow> Inl er | Inr cfg' \<Rightarrow> run_blocks bs env cfg')"

definition zero_Config :: Config where
  "zero_Config = \<lparr>GitOpsRepo = '''', GitOpsManifestRoot = '''', AgentImage = '''', AgentNamespace = '''',
     AgentSA = '''', cfgAgentType = '''', SinkType = '''', LogLevel = '''', MaxConcurrentJobs = 0,
     RemediationJobTTLSeconds = 0, StabilisationWindow = 0, DisableCascadeCheck = False,
     CascadeNamespaceThreshold = 0, CascadeNodeCacheTTL = 0, InjectionDetectionAction = '''',
     AgentRBACScope = '''', AgentWatchNamespaces = [], WatchNamespaces = [], ExcludeNamespaces = [],
     MaxInvestigationRetries = 0, MinSeverity = '''', SelfRemediationMaxDepth = 0,
     SelfRemediationCooldown = 0, DryRun = False, HardenAgentKubectl = False,
     ExtraRedactPatterns = [], CorrelationWindowSeconds = 0, DisableCorrelation = False,
     MultiPodThreshold = 0, PRAutoClose = False, RemediationJobShortTTLSeconds = 0,
     AgentCPURequest = None, AgentMemRequest = None, AgentCPULimit = None, AgentMemLimit = None,
     AgentActiveDeadlineSeconds = 0\<rparr>"

text \<open>One required variable.\<close>

definition required :: "string \<Rightarrow> (string \<Rightarrow> Config \<Rightarrow> Config) \<Rightarrow> block" where
  "required name dest env cfg =
     (let val = env name in if val = '''' then Inl (NotSet name) else Inr (dest val cfg))"

definition required_vars :: "block list" where
  "required_vars =
     [required ''GITOPS_REPO'' (\<lambda>v c. c\<lparr>GitOpsRepo := v\<rparr>),
      required ''GITOPS_MANIFEST_ROOT'' (\<lambda>v c. c\<lparr>GitOpsManifestRoot := v\<rparr>),
      required ''AGENT_IMAGE'' (\<lambda>v c. c\<lparr>AgentImage := v\<rparr>),
      required ''AGENT_NAMESPACE'' (\<lambda>v c. c\<lparr>AgentNamespace := v\<rparr>),
      required ''AGENT_SA'' (\<lambda>v c. c\<lparr>AgentSA := v\<rparr>)]"

text \<open>A variable with a default and a set of accepted values.\<close>

definition choice_setting :: "string \<Rightarrow> string \<Rightarrow> (string \<Rightarrow> bool) \<Rightarrow> (string \<Rightarrow> Config \<Rightarrow> Config) \<Rightarrow> block" where
  "choice_setting name dflt accepted dest env cfg =
     (let s = (if env name = '''' then dflt else env name) in
      if accepted s then Inr (dest s cfg) else Inl (Unsupported name s))"

definition agent_type :: block where
  "agent_type = choice_setting ''AGENT_TYPE'' AgentTypeOpenCode (\<lambda>s. s = AgentTypeOpenCode \<or> s = AgentTypeClaude)
     (\<lambda>s c. c\<lparr>cfgAgentType := s\<rparr>)"

definition log_level :: block where
  "log_level = choice_setting ''LOG_LEVEL'' ''info'' (\<lambda>s. True) (\<lambda>s c. c\<lparr>LogLevel := s\<rparr>)"

definition sink_type :: block where
  "sink_type = choice_setting ''SINK_TYPE'' ''github'' (\<lambda>s. True) (\<lambda>s c. c\<lparr>SinkType := s\<rparr>)"

text \<open>
  The shape of the integer variables: unset gives the default; a value below \<open>lo\<close> or above \<open>hi\<close>
  is refused.
\<close>

definition int_setting ::
    "string \<Rightarrow> int \<Rightarrow> int \<Rightarrow> int option \<Rightarrow> (int \<Rightarrow> Config \<Rightarrow> Config) \<Rightarrow> block" where
  "int_setting name dflt lo hi dest env cfg =
     (let s = env name in
      if s = '''' then Inr (dest dflt cfg)
      else case strconv_Atoi s of
          Inl er \<Rightarrow> Inl (NotAnInteger name er)
        | Inr n \<Rightarrow>
            if n < lo then Inl (TooSmall name n)
            else if (case hi of None \<Rightarrow> False | Some h \<Rightarrow> n > h) then Inl (TooLarge name n)
            else Inr (dest n cfg))"

abbreviation MaxInt32 :: int where
  "MaxInt32 \<equiv> 2147483647"

definition max_concurrent_jobs :: block where
  "max_concurrent_jobs = int_setting ''MAX_CONCURRENT_JOBS'' 3 1 None (\<lambda>n c. c\<lparr>MaxConcurrentJobs := n\<rparr>)"

definition job_ttl :: block where
  "job_ttl = int_setting ''REMEDIATION_JOB_TTL_SECONDS'' 604800 1 (Some MaxInt32)
     (\<lambda>n c. c\<lparr>RemediationJobTTLSeconds := n\<rparr>)"

definition stabilisation_window :: block where
  "stabilisation_window = int_setting ''STABILISATION_WINDOW_SECONDS'' 120 0 None
     (\<lambda>n c. c\<lparr>StabilisationWindow := seconds n\<rparr>)"

definition injection_action :: block where
  "injection_action = choice_setting ''INJECTION_DETECTION_ACTION'' ''log'' (\<lambda>s. s = ''log'' \<or> s = ''suppress'')
     (\<lambda>s c. c\<lparr>InjectionDetectionAction := s\<rparr>)"

definition rbac_scope :: block where
  "rbac_scope env cfg =
     (let scope = (if env ''AGENT_RBAC_SCOPE'' = '''' then ''cluster'' else env ''AGENT_RBAC_SCOPE'') in
      if scope \<noteq> ''cluster'' \<and> scope \<noteq> ''namespace'' then Inl (Unsupported ''AGENT_RBAC_SCOPE'' scope)
      else
        (let cfg = cfg\<lparr>AgentRBACScope := scope\<rparr> in
         if scope = ''namespace'' then
           (let nsStr = env ''AGENT_WATCH_NAMESPACES'' in
            if nsStr = '''' then Inl (NotSet ''AGENT_WATCH_NAMESPACES'')
            else if comma_list nsStr = [] then Inl (EmptyAfterParsing ''AGENT_WATCH_NAMESPACES'')
            else Inr (cfg\<lparr>AgentWatchNamespaces := comma_list nsStr\<rparr>))
         else Inr cfg))"

text \<open>An optional list of names.\<close>

definition list_setting :: "string \<Rightarrow> (string list \<Rightarrow> Config \<Rightarrow> Config) \<Rightarrow> block" where
  "list_setting name dest env cfg =
     Inr (if env name \<noteq> '''' then dest (comma_list (env name)) cfg else cfg)"

definition watch_namespaces :: block where
  "watch_namespaces = list_setting ''WATCH_NAMESPACES'' (\<lambda>ns c. c\<lparr>WatchNamespaces := ns\<rparr>)"

definition exclude_namespaces :: block where
  "exclude_namespaces = list_setting ''EXCLUDE_NAMESPACES'' (\<lambda>ns c. c\<lparr>ExcludeNamespaces := ns\<rparr>)"

definition investigation_retries :: block where
  "investigation_retries = int_setting ''MAX_INVESTIGATION_RETRIES'' 3 1 (Some MaxInt32)
     (\<lambda>n c. c\<lparr>MaxInvestigationRetries := int32 n\<rparr>)"

definition minimum_severity :: block where
  "minimum_severity env cfg =
     (let raw = env ''MIN_SEVERITY'' in
      if raw \<noteq> '''' then
        (case ParseSeverity raw of (sv, ok) \<Rightarrow>
           if ok then Inr (cfg\<lparr>MinSeverity := sv\<rparr>) else Inl (Unsupported ''MIN_SEVERITY'' raw))
      else Inr (cfg\<lparr>MinSeverity := SeverityLow\<rparr>))"

definition self_remediation_depth :: block where
  "self_remediation_depth = int_setting ''SELF_REMEDIATION_MAX_DEPTH'' 2 0 (Some 10)
     (\<lambda>n c. c\<lparr>SelfRemediationMaxDepth := n\<rparr>)"

definition self_remediation_cooldown :: block where
  "self_remediation_cooldown = int_setting ''SELF_REMEDIATION_COOLDOWN_SECONDS'' 300 0 (Some 3600)
     (\<lambda>n c. c\<lparr>SelfRemediationCooldown := seconds n\<rparr>)"

text \<open>A switch: unset gives the default.\<close>

definition switch_setting :: "string \<Rightarrow> bool \<Rightarrow> (bool \<Rightarrow> Config \<Rightarrow> Config) \<Rightarrow> block" where
  "switch_setting name dflt dest env cfg =
     (let s = env name in
      if s = '''' then Inr (dest dflt cfg)
      else if s = ''false'' \<or> s = ''0'' then Inr (dest False cfg)
      else if s = ''true'' \<or> s = ''1'' then Inr (dest True cfg)
      else Inl (Unsupported name s))"

definition dry_run :: block where
  "dry_run = switch_setting ''DRY_RUN'' False (\<lambda>b c. c\<lparr>DryRun := b\<rparr>)"

definition harden_kubectl :: block where
  "harden_kubectl = switch_setting ''HARDEN_AGENT_KUBECTL'' False (\<lambda>b c. c\<lparr>HardenAgentKubectl := b\<rparr>)"

definition extra_patterns :: "(string \<Rightarrow> goerr + rx) \<Rightarrow> block" where
  "extra_patterns compile env cfg =
     (let raw = env ''EXTRA_REDACT_PATTERNS'';
          cfg = (if raw \<noteq> '''' then cfg\<lparr>ExtraRedactPatterns := comma_list raw\<rparr> else cfg) in
      case NewRedactor compile (ExtraRedactPatterns cfg) of
        Inl er \<Rightarrow> Inl (BadPatterns er)
      | Inr _ \<Rightarrow> Inr cfg)"

definition correlation_window :: block where
  "correlation_window = int_setting ''CORRELATION_WINDOW_SECONDS'' 30 0 (Some 3600)
     (\<lambda>n c. c\<lparr>CorrelationWindowSeconds := n\<rparr>)"

definition disable_correlation :: block where
  "disable_correlation env cfg =
     (let s = env ''DISABLE_CORRELATION'' in Inr (cfg\<lparr>DisableCorrelation := (s = ''true'' \<or> s = ''1'')\<rparr>))"

definition multi_pod_threshold :: block where
  "multi_pod_threshold = int_setting ''CORRELATION_MULTI_POD_THRESHOLD'' 3 1 None
     (\<lambda>n c. c\<lparr>MultiPodThreshold := n\<rparr>)"

definition pr_auto_close :: block where
  "pr_auto_close = switch_setting ''PR_AUTO_CLOSE'' True (\<lambda>b c. c\<lparr>PRAutoClose := b\<rparr>)"

definition short_ttl_setting :: block where
  "short_ttl_setting = int_setting ''REMEDIATION_JOB_SHORT_TTL_SECONDS'' 86400 1 (Some MaxInt32)
     (\<lambda>n c. c\<lparr>RemediationJobShortTTLSeconds := n\<rparr>)"

definition quantity_setting ::
    "(string \<Rightarrow> goerr option) \<Rightarrow> string \<Rightarrow> (string \<Rightarrow> Config \<Rightarrow> Config) \<Rightarrow> block" where
  "quantity_setting parseQuantity name dest env cfg =
     (let val = env name in
      if val = '''' then Inr cfg
      else case parseQuantity val of
          Some er \<Rightarrow> Inl (BadQuantity name val er)
        | None \<Rightarrow> Inr (dest val cfg))"

definition quantities :: "(string \<Rightarrow> goerr option) \<Rightarrow> block list" where
  "quantities parseQuantity =
     [quantity_setting parseQuantity ''AGENT_CPU_REQUEST'' (\<lambda>v c. c\<lparr>AgentCPURequest := Some v\<rparr>),
      quantity_setting parseQuantity ''AGENT_MEM_REQUEST'' (\<lambda>v c. c\<lparr>AgentMemRequest := Some v\<rparr>),
      quantity_setting parseQuantity ''AGENT_CPU_LIMIT'' (\<lambda>v c. c\<lparr>AgentCPULimit := Some v\<rparr>),
      quantity_setting parseQuantity ''AGENT_MEM_LIMIT'' (\<lambda>v c. c\<lparr>AgentMemLimit := Some v\<rparr>)]"

definition active_deadline :: block where
  "active_deadline = int_setting ''AGENT_ACTIVE_DEADLINE_SECONDS'' 1800 1 None
     (\<lambda>n c. c\<lparr>AgentActiveDeadlineSeconds := n\<rparr>)"

definition blocks :: "(string \<Rightarrow> goerr + rx) \<Rightarrow> (string \<Rightarrow> goerr option) \<Rightarrow> block list" where
  "blocks compile parseQuantity =
     required_vars @
     [agent_type, log_level, sink_type, max_concurrent_jobs, job_ttl, stabilisation_window,
      injection_action, rbac_scope, watch_namespaces, exclude_namespaces, investigation_retries,
      minimum_severity, self_remediation_depth, self_remediation_cooldown, dry_run, harden_kubectl,
      extra_patterns compile, correlation_window, disable_correlation, multi_pod_threshold,
      pr_auto_close, short_ttl_setting] @
     quantities parseQuantity @ [active_deadline]"

definition FromEnv ::
    "(string \<Rightarrow> goerr + rx) \<Rightarrow> (string \<Rightarrow> goerr option) \<Rightarrow> environment \<Rightarrow> config_error + Config" where
  "FromEnv compile parseQuantity env = run_blocks (blocks compile parseQuantity) env zero_Config"

section \<open>What an accepted configuration satisfies\<close>

text \<open>
  The bounds of every field that is checked. The window is the one exception: its seconds are
  not bounded, and their product with a second may wrap around.
\<close>

definition valid_Config :: "Config \<Rightarrow> bool" where
  "valid_Config c \<longleftrightarrow>
     list_all (\<lambda>s. s \<noteq> '''') [GitOpsRepo c, GitOpsManifestRoot c, AgentImage c, AgentNamespace c, AgentSA c, LogLevel c, SinkType c]
     \<and> cfgAgentType c \<in> {AgentTypeOpenCode, AgentTypeClaude}
     \<and> MaxConcurrentJobs c \<in> {1..<2 ^ 63}
     \<and> RemediationJobTTLSeconds c \<in> {1..MaxInt32} \<and> RemediationJobShortTTLSeconds c \<in> {1..MaxInt32}
     \<and> InjectionDetectionAction c \<in> {''log'', ''suppress''}
     \<and> AgentRBACScope c \<in> {''cluster'', ''namespace''}
     \<and> (AgentRBACScope c = ''namespace'' \<longleftrightarrow> AgentWatchNamespaces c \<noteq> [])
     \<and> list_all (\<lambda>n. n \<noteq> '''' \<and> strings_TrimSpace n = n)
         (AgentWatchNamespaces c @ WatchNamespaces c @ ExcludeNamespaces c @ ExtraRedactPatterns c)
     \<and> MaxInvestigationRetries c \<in> {1..MaxInt32}
     \<and> MinSeverity c \<in> {SeverityLow, SeverityMedium, SeverityHigh, SeverityCritical}
     \<and> SelfRemediationMaxDepth c \<in> {0..10} \<and> SelfRemediationCooldown c \<in> {0..3600 * Second}
     \<and> CorrelationWindowSeconds c \<in> {0..3600} \<and> MultiPodThreshold c \<in> {1..<2 ^ 63}
     \<and> AgentActiveDeadlineSeconds c \<in> {1..<2 ^ 63}
     \<and> \<not> DisableCascadeCheck c \<and> CascadeNamespaceThreshold c = 0 \<and> CascadeNodeCacheTTL c = 0"

text \<open>
  \<open>yields b P\<close>: whatever configuration the block \<open>b\<close> returns satisfies \<open>P\<close>. \<open>keeps b f\<close>: it leaves
  the field \<open>f\<close> alone. A field of the final configuration has the value its block gave it.
\<close>

definition yields :: "block \<Rightarrow> (Config \<Rightarrow> bool) \<Rightarrow> bool" where
  "yields b P \<longleftrightarrow> (\<forall>env c d. b env c = Inr d \<longrightarrow> P d)"

definition keeps :: "block \<Rightarrow> (Config \<Rightarrow> 'a) \<Rightarrow> bool" where
  "keeps b f \<longleftrightarrow> (\<forall>env c d. b env c = Inr d \<longrightarrow> f d = f c)"

named_theorems keeps_rules \<open>fields a block does not assign\<close>

lemma run_blocks_Inr:
  "run_blocks (b # bs) env c = Inr d \<longleftrightarrow> (\<exists>c'. b env c = Inr c' \<and> run_blocks bs env c' = Inr d)"
  by (auto split: sum.splits)

lemma run_blocks_append:
  "run_blocks (xs @ ys) env c = Inr d \<longleftrightarrow> (\<exists>c'. run_blocks xs env c = Inr c' \<and> run_blocks ys env c' = Inr d)"
  by (induction xs arbitrary: c) (auto split: sum.splits)

lemma run_keeps: "run_blocks bs env c = Inr d \<Longrightarrow> \<forall>b \<in> set bs. keeps b f \<Longrightarrow> f d = f c"
proof (induction bs arbitrary: c)
  case (Cons b bs)
  from Cons.prems(1) obtain c' where "b env c = Inr c'" "run_blocks bs env c' = Inr d"
    unfolding run_blocks_Inr by blast
  with Cons.IH [of c'] Cons.prems(2) show ?case by (simp add: keeps_def)
qed simp

lemma run_yields:
  assumes "run_blocks (xs @ b # ys) env c = Inr d" and "yields b (\<lambda>c. P (f c))" and "\<forall>y \<in> set ys. keeps y f"
  shows "P (f d)"
proof -
  from assms(1) obtain c1 c2 where b: "b env c1 = Inr c2" "run_blocks ys env c2 = Inr d"
    unfolding run_blocks_append run_blocks_Inr by blast
  from run_keeps [OF b(2) assms(3)] b(1) assms(2) show ?thesis by (auto simp: yields_def)
qed

lemma keeps_generic [keeps_rules]:
  "(\<And>v c. f (dv v c) = f c) \<Longrightarrow> keeps (required name dv) f"
  "(\<And>v c. f (dv v c) = f c) \<Longrightarrow> keeps (choice_setting name w acc dv) f"
  "(\<And>n c. f (dn n c) = f c) \<Longrightarrow> keeps (int_setting name k lo hi dn) f"
  "(\<And>b c. f (db b c) = f c) \<Longrightarrow> keeps (switch_setting name b0 db) f"
  "(\<And>ns c. f (dl ns c) = f c) \<Longrightarrow> keeps (list_setting name dl) f"
  "(\<And>v c. f (dv v c) = f c) \<Longrightarrow> keeps (quantity_setting pq name dv) f"
  unfolding keeps_def required_def choice_setting_def int_setting_def switch_setting_def list_setting_def
    quantity_setting_def Let_def
  by (auto split: if_splits sum.splits option.splits)

lemma yields_generic:
  "(\<And>v c. v \<noteq> '''' \<Longrightarrow> P (dv v c)) \<Longrightarrow> yields (required name dv) P"
  "(\<And>v c. acc v \<Longrightarrow> v = w \<or> v \<noteq> '''' \<Longrightarrow> P (dv v c)) \<Longrightarrow> yields (choice_setting name w acc dv) P"
  unfolding yields_def required_def choice_setting_def Let_def by (auto split: if_splits)

lemma yields_int:
  assumes "lo \<le> k" and "k < 2 ^ 63" and "\<And>h. hi = Some h \<Longrightarrow> k \<le> h"
    and "\<And>n c. lo \<le> n \<Longrightarrow> n < 2 ^ 63 \<Longrightarrow> (\<And>h. hi = Some h \<Longrightarrow> n \<le> h) \<Longrightarrow> P (dn n c)"
  shows "yields (int_setting name k lo hi dn) P"
  unfolding yields_def
proof (intro allI impI)
  fix env c d
  assume run: "int_setting name k lo hi dn env c = Inr d"
  show "P d"
  proof (cases "env name = ''''")
    case True
    with run assms show ?thesis by (auto simp: int_setting_def)
  next
    case False
    with run obtain n where n: "strconv_Atoi (env name) = Inr n"
      by (cases "strconv_Atoi (env name)") (auto simp: int_setting_def)
    with False run have "d = dn n c" "lo \<le> n" "\<And>h. hi = Some h \<Longrightarrow> n \<le> h"
      by (auto simp: int_setting_def not_less split: if_splits)
    with Atoi_bounds [OF n] assms(4) show ?thesis by auto
  qed
qed


lemma keeps_special [keeps_rules]:
  "(\<And>s c. f (c\<lparr>MinSeverity := s\<rparr>) = f c) \<Longrightarrow> keeps minimum_severity f"
  "(\<And>s c. f (c\<lparr>DisableCorrelation := s\<rparr>) = f c) \<Longrightarrow> keeps disable_correlation f"
  "(\<And>s c. f (c\<lparr>ExtraRedactPatterns := s\<rparr>) = f c) \<Longrightarrow> keeps (extra_patterns compile) f"
  "(\<And>s c. f (c\<lparr>AgentRBACScope := s\<rparr>) = f c) \<Longrightarrow> (\<And>s c. f (c\<lparr>AgentWatchNamespaces := s\<rparr>) = f c) \<Longrightarrow> keeps rbac_scope f"
proof -
  show "keeps minimum_severity f" if "\<And>s c. f (c\<lparr>MinSeverity := s\<rparr>) = f c"
    unfolding keeps_def minimum_severity_def Let_def
    by (intro allI impI) (auto simp: that split: if_splits prod.splits)
  show "keeps disable_correlation f" if "\<And>s c. f (c\<lparr>DisableCorrelation := s\<rparr>) = f c"
    unfolding keeps_def disable_correlation_def Let_def by (intro allI impI) (metis Inr_inject that)
  show "keeps (extra_patterns compile) f" if "\<And>s c. f (c\<lparr>ExtraRedactPatterns := s\<rparr>) = f c"
    unfolding keeps_def extra_patterns_def Let_def
    by (intro allI impI) (auto simp: that split: if_splits sum.splits)
  show "keeps rbac_scope f" if "\<And>s c. f (c\<lparr>AgentRBACScope := s\<rparr>) = f c" "\<And>s c. f (c\<lparr>AgentWatchNamespaces := s\<rparr>) = f c"
    unfolding keeps_def rbac_scope_def Let_def
    by (intro allI impI) (auto simp: that split: if_splits)
qed


lemma yields_severity:
  "(\<And>s c. s \<in> {SeverityLow, SeverityMedium, SeverityHigh, SeverityCritical} \<Longrightarrow> P (c\<lparr>MinSeverity := s\<rparr>)) \<Longrightarrow> yields minimum_severity P"
proof -
  assume P: "\<And>s c. s \<in> {SeverityLow, SeverityMedium, SeverityHigh, SeverityCritical} \<Longrightarrow> P (c\<lparr>MinSeverity := s\<rparr>)"
  have known: "sv \<in> {SeverityLow, SeverityMedium, SeverityHigh, SeverityCritical}" if "ParseSeverity s = (sv, True)" for s sv
    using that by (auto simp: ParseSeverity_def severityOrder_def split: if_splits option.splits)
  show ?thesis
    unfolding yields_def
  proof (intro allI impI)
    fix env c d
    assume run: "minimum_severity env c = Inr d"
    obtain sv ok where ps: "ParseSeverity (env ''MIN_SEVERITY'') = (sv, ok)" by (cases "ParseSeverity (env ''MIN_SEVERITY'')")
    show "P d"
    proof (cases "env ''MIN_SEVERITY'' = ''''")
      case True
      with run have "d = c\<lparr>MinSeverity := SeverityLow\<rparr>" by (simp add: minimum_severity_def)
      then show ?thesis by (simp only: P insert_iff simp_thms)
    next
      case False
      with run ps have "ok" "d = c\<lparr>MinSeverity := sv\<rparr>" by (simp_all add: minimum_severity_def split: if_splits)
      with ps known P show ?thesis by metis
    qed
  qed
qed

text \<open>Lists are only ever set to trimmed, non-empty names.\<close>

abbreviation clean :: "string list \<Rightarrow> bool" where
  "clean xs \<equiv> list_all (\<lambda>n. n \<noteq> '''' \<and> strings_TrimSpace n = n) xs"

definition maintains :: "block \<Rightarrow> (Config \<Rightarrow> bool) \<Rightarrow> bool" where
  "maintains b P \<longleftrightarrow> (\<forall>env c d. b env c = Inr d \<longrightarrow> P c \<longrightarrow> P d)"

lemma run_maintains: "run_blocks bs env c = Inr d \<Longrightarrow> \<forall>b \<in> set bs. maintains b P \<Longrightarrow> P c \<Longrightarrow> P d"
proof (induction bs arbitrary: c)
  case (Cons b bs)
  from Cons.prems(1) obtain c' where "b env c = Inr c'" "run_blocks bs env c' = Inr d"
    unfolding run_blocks_Inr by blast
  with Cons.IH [of c'] Cons.prems(2,3) show ?case by (auto simp: maintains_def)
qed simp

lemma keeps_maintains: "keeps b f \<Longrightarrow> maintains b (\<lambda>c. P (f c))"
  by (simp add: keeps_def maintains_def)

lemma comma_list_clean: "clean (comma_list raw)"
  by (auto simp: list_all_iff dest: comma_list_trimmed)

lemma maintains_list: "(\<And>ns c. clean ns \<Longrightarrow> P (dl ns c)) \<Longrightarrow> maintains (list_setting name dl) P"
  using comma_list_clean by (auto simp: maintains_def list_setting_def)

lemma maintains_patterns:
  "maintains (extra_patterns compile) (\<lambda>c. clean (ExtraRedactPatterns c))"
  using comma_list_clean by (auto simp: maintains_def extra_patterns_def Let_def split: if_splits sum.splits)

lemma rbac_scope_sets:
  assumes "rbac_scope env c = Inr d" and "AgentWatchNamespaces c = []"
  shows "AgentRBACScope d \<in> {''cluster'', ''namespace''}
    \<and> (AgentRBACScope d = ''namespace'' \<longleftrightarrow> AgentWatchNamespaces d \<noteq> []) \<and> clean (AgentWatchNamespaces d)"
  using assms comma_list_clean [of "env ''AGENT_WATCH_NAMESPACES''"]
  by (auto simp: rbac_scope_def Let_def split: if_splits)


lemmas block_defs = blocks_def required_vars_def quantities_def agent_type_def log_level_def sink_type_def
  max_concurrent_jobs_def job_ttl_def stabilisation_window_def injection_action_def watch_namespaces_def
  exclude_namespaces_def investigation_retries_def self_remediation_depth_def self_remediation_cooldown_def
  dry_run_def harden_kubectl_def correlation_window_def multi_pod_threshold_def pr_auto_close_def
  short_ttl_setting_def active_deadline_def

lemma field_at:
  assumes "FromEnv compile pq env = Inr cfg" and "k < length (blocks compile pq)"
    and "yields (blocks compile pq ! k) (\<lambda>c. P (f c))" and "\<forall>y \<in> set (drop (Suc k) (blocks compile pq)). keeps y f"
  shows "P (f cfg)"
proof (rule run_yields [OF _ assms(3,4)])
  show "run_blocks (take k (blocks compile pq) @ blocks compile pq ! k # drop (Suc k) (blocks compile pq)) env zero_Config
      = Inr cfg"
    using assms(1) unfolding FromEnv_def id_take_nth_drop [OF assms(2), symmetric] .
qed

lemma seconds_hour: "0 \<le> n \<Longrightarrow> n \<le> 3600 \<Longrightarrow> 0 \<le> seconds n \<and> seconds n \<le> 3600 * Second"
  by (simp add: seconds_exact Second_def)

lemmas field_defs = block_defs keeps_rules seconds_hour
lemmas field_intros = yields_generic yields_int yields_severity

lemma FromEnv_texts:
  assumes "FromEnv compile pq env = Inr cfg"
  shows "GitOpsRepo cfg \<noteq> ''''"
    "GitOpsManifestRoot cfg \<noteq> ''''"
    "AgentImage cfg \<noteq> ''''"
    "AgentNamespace cfg \<noteq> ''''"
    "AgentSA cfg \<noteq> ''''"
    "LogLevel cfg \<noteq> ''''"
    "SinkType cfg \<noteq> ''''"
proof -
  note at = field_at [OF assms]
  show "GitOpsRepo cfg \<noteq> ''''"
    by (rule at [where k = 0 and f = GitOpsRepo and P = "\<lambda>v. v \<noteq> ''''"]) (auto simp: field_defs intro!: field_intros)
  show "GitOpsManifestRoot cfg \<noteq> ''''"
    by (rule at [where k = 1 and f = GitOpsManifestRoot and P = "\<lambda>v. v \<noteq> ''''"]) (auto simp: field_defs intro!: field_intros)
  show "AgentImage cfg \<noteq> ''''"
    by (rule at [where k = 2 and f = AgentImage and P = "\<lambda>v. v \<noteq> ''''"]) (auto simp: field_defs intro!: field_intros)
  show "AgentNamespace cfg \<noteq> ''''"
    by (rule at [where k = 3 and f = AgentNamespace and P = "\<lambda>v. v \<noteq> ''''"]) (auto simp: field_defs intro!: field_intros)
  show "AgentSA cfg \<noteq> ''''"
    by (rule at [where k = 4 and f = AgentSA and P = "\<lambda>v. v \<noteq> ''''"]) (auto simp: field_defs intro!: field_intros)
  show "LogLevel cfg \<noteq> ''''"
    by (rule at [where k = 6 and f = LogLevel and P = "\<lambda>v. v \<noteq> ''''"]) (auto simp: field_defs intro!: field_intros)
  show "SinkType cfg \<noteq> ''''"
    by (rule at [where k = 7 and f = SinkType and P = "\<lambda>v. v \<noteq> ''''"]) (auto simp: field_defs intro!: field_intros)
qed

lemma FromEnv_choices:
  assumes "FromEnv compile pq env = Inr cfg"
  shows "cfgAgentType cfg \<in> {AgentTypeOpenCode, AgentTypeClaude}"
    "InjectionDetectionAction cfg \<in> {''log'', ''suppress''}"
    "MinSeverity cfg \<in> {SeverityLow, SeverityMedium, SeverityHigh, SeverityCritical}"
proof -
  note at = field_at [OF assms]
  show "cfgAgentType cfg \<in> {AgentTypeOpenCode, AgentTypeClaude}"
    by (rule at [where k = 5 and f = cfgAgentType and P = "\<lambda>v. v \<in> {AgentTypeOpenCode, AgentTypeClaude}"]) (auto simp: field_defs intro!: field_intros)
  show "InjectionDetectionAction cfg \<in> {''log'', ''suppress''}"
    by (rule at [where k = 11 and f = InjectionDetectionAction and P = "\<lambda>v. v \<in> {''log'', ''suppress''}"]) (auto simp: field_defs intro!: field_intros)
  show "MinSeverity cfg \<in> {SeverityLow, SeverityMedium, SeverityHigh, SeverityCritical}"
    by (rule at [where k = 16 and f = MinSeverity and P = "\<lambda>v. v \<in> {SeverityLow, SeverityMedium, SeverityHigh, SeverityCritical}"]) (auto simp: field_defs intro!: field_intros)
qed

lemma FromEnv_numbers:
  assumes "FromEnv compile pq env = Inr cfg"
  shows "MaxConcurrentJobs cfg \<in> {1..<2 ^ 63}"
    "RemediationJobTTLSeconds cfg \<in> {1..MaxInt32}"
    "RemediationJobShortTTLSeconds cfg \<in> {1..MaxInt32}"
    "MaxInvestigationRetries cfg \<in> {1..MaxInt32}"
    "SelfRemediationMaxDepth cfg \<in> {0..10}"
    "SelfRemediationCooldown cfg \<in> {0..3600 * Second}"
    "CorrelationWindowSeconds cfg \<in> {0..3600}"
    "MultiPodThreshold cfg \<in> {1..<2 ^ 63}"
    "AgentActiveDeadlineSeconds cfg \<in> {1..<2 ^ 63}"
proof -
  note at = field_at [OF assms]
  show "MaxConcurrentJobs cfg \<in> {1..<2 ^ 63}"
    by (rule at [where k = 8 and f = MaxConcurrentJobs and P = "\<lambda>v. v \<in> {1..<2 ^ 63}"]) (auto simp: field_defs intro!: field_intros)
  show "RemediationJobTTLSeconds cfg \<in> {1..MaxInt32}"
    by (rule at [where k = 9 and f = RemediationJobTTLSeconds and P = "\<lambda>v. v \<in> {1..MaxInt32}"]) (auto simp: field_defs intro!: field_intros)
  show "RemediationJobShortTTLSeconds cfg \<in> {1..MaxInt32}"
    by (rule at [where k = 26 and f = RemediationJobShortTTLSeconds and P = "\<lambda>v. v \<in> {1..MaxInt32}"]) (auto simp: field_defs intro!: field_intros)
  show "MaxInvestigationRetries cfg \<in> {1..MaxInt32}"
    by (rule at [where k = 15 and f = MaxInvestigationRetries and P = "\<lambda>v. v \<in> {1..MaxInt32}"]) (auto simp: field_defs intro!: field_intros)
  show "SelfRemediationMaxDepth cfg \<in> {0..10}"
    by (rule at [where k = 17 and f = SelfRemediationMaxDepth and P = "\<lambda>v. v \<in> {0..10}"]) (auto simp: field_defs intro!: field_intros)
  show "SelfRemediationCooldown cfg \<in> {0..3600 * Second}"
    by (rule at [where k = 18 and f = SelfRemediationCooldown and P = "\<lambda>v. v \<in> {0..3600 * Second}"]) (auto simp: field_defs intro!: field_intros)
  show "CorrelationWindowSeconds cfg \<in> {0..3600}"
    by (rule at [where k = 22 and f = CorrelationWindowSeconds and P = "\<lambda>v. v \<in> {0..3600}"]) (auto simp: field_defs intro!: field_intros)
  show "MultiPodThreshold cfg \<in> {1..<2 ^ 63}"
    by (rule at [where k = 24 and f = MultiPodThreshold and P = "\<lambda>v. v \<in> {1..<2 ^ 63}"]) (auto simp: field_defs intro!: field_intros)
  show "AgentActiveDeadlineSeconds cfg \<in> {1..<2 ^ 63}"
    by (rule at [where k = 31 and f = AgentActiveDeadlineSeconds and P = "\<lambda>v. v \<in> {1..<2 ^ 63}"]) (auto simp: field_defs intro!: field_intros)
qed

lemma run_maintains_field:
  assumes "run_blocks bs env c = Inr d" and "\<forall>b \<in> set bs. keeps b f \<or> maintains b (\<lambda>c. P (f c))" and "P (f c)"
  shows "P (f d)"
  using run_maintains [OF assms(1), of "\<lambda>c. P (f c)"] assms(2,3) keeps_maintains by blast

lemma maintains_lists:
  "maintains (list_setting name (\<lambda>ns c. c\<lparr>WatchNamespaces := ns\<rparr>)) (\<lambda>c. clean (WatchNamespaces c))"
  "maintains (list_setting name (\<lambda>ns c. c\<lparr>ExcludeNamespaces := ns\<rparr>)) (\<lambda>c. clean (ExcludeNamespaces c))"
  by (rule maintains_list, simp)+

lemma FromEnv_lists:
  assumes "FromEnv compile pq env = Inr cfg"
  shows "clean (WatchNamespaces cfg)" "clean (ExcludeNamespaces cfg)" "clean (ExtraRedactPatterns cfg)"
proof -
  note run = run_maintains_field [OF assms [unfolded FromEnv_def], where P = clean]
  show "clean (WatchNamespaces cfg)"
    by (rule run [where f = WatchNamespaces]) (simp_all add: field_defs zero_Config_def maintains_lists)
  show "clean (ExcludeNamespaces cfg)"
    by (rule run [where f = ExcludeNamespaces]) (simp_all add: field_defs zero_Config_def maintains_lists)
  show "clean (ExtraRedactPatterns cfg)"
    by (rule run [where f = ExtraRedactPatterns]) (simp_all add: field_defs zero_Config_def maintains_patterns)
qed

lemma FromEnv_untouched:
  assumes "FromEnv compile pq env = Inr cfg"
  shows "DisableCascadeCheck cfg = False" "CascadeNamespaceThreshold cfg = 0" "CascadeNodeCacheTTL cfg = 0"
  using run_keeps [OF assms [unfolded FromEnv_def], of DisableCascadeCheck]
    run_keeps [OF assms [unfolded FromEnv_def], of CascadeNamespaceThreshold]
    run_keeps [OF assms [unfolded FromEnv_def], of CascadeNodeCacheTTL]
  by (simp_all add: field_defs zero_Config_def)

lemma FromEnv_scope:
  assumes "FromEnv compile pq env = Inr cfg"
  shows "AgentRBACScope cfg \<in> {''cluster'', ''namespace''}
    \<and> (AgentRBACScope cfg = ''namespace'' \<longleftrightarrow> AgentWatchNamespaces cfg \<noteq> []) \<and> clean (AgentWatchNamespaces cfg)"
proof -
  let ?bs = "blocks compile pq"
  have eq: "?bs = take 12 ?bs @ rbac_scope # drop 13 ?bs" by (simp add: blocks_def required_vars_def quantities_def)
  have "run_blocks (take 12 ?bs @ rbac_scope # drop 13 ?bs) env zero_Config = Inr cfg"
    using assms unfolding FromEnv_def eq [symmetric] .
  then obtain c d where run: "run_blocks (take 12 ?bs) env zero_Config = Inr c" "rbac_scope env c = Inr d"
    "run_blocks (drop 13 ?bs) env d = Inr cfg"
    unfolding run_blocks_append run_blocks_Inr by blast
  have "AgentWatchNamespaces c = []"
    using run_keeps [OF run(1), of AgentWatchNamespaces] by (simp add: field_defs zero_Config_def)
  then have sets: "AgentRBACScope d \<in> {''cluster'', ''namespace''}
    \<and> (AgentRBACScope d = ''namespace'' \<longleftrightarrow> AgentWatchNamespaces d \<noteq> []) \<and> clean (AgentWatchNamespaces d)"
    by (rule rbac_scope_sets [OF run(2)])
  have same: "AgentRBACScope cfg = AgentRBACScope d" "AgentWatchNamespaces cfg = AgentWatchNamespaces d"
    using run_keeps [OF run(3), of AgentRBACScope] run_keeps [OF run(3), of AgentWatchNamespaces]
    by (simp_all add: field_defs)
  show ?thesis unfolding same by (rule sets)
qed

lemma FromEnv_valid:
  assumes "FromEnv compile pq env = Inr cfg"
  shows "valid_Config cfg"
  using FromEnv_texts [OF assms] FromEnv_choices [OF assms] FromEnv_numbers [OF assms] FromEnv_lists [OF assms]
    FromEnv_untouched [OF assms] FromEnv_scope [OF assms]
  unfolding valid_Config_def by (simp only: list_all_append list.pred_inject simp_thms)

text \<open>The environment that sets the required variables only gives the defaults.\<close>

definition accept_all :: "string \<Rightarrow> goerr option" where
  "accept_all q = None"

definition no_patterns :: "string \<Rightarrow> goerr + rx" where
  "no_patterns p = Inl (Msg p)"

definition minimal_env :: environment where
  "minimal_env = map_get (map_of
     [(''GITOPS_REPO'', ''org/gitops''), (''GITOPS_MANIFEST_ROOT'', ''clusters/prod''),
      (''AGENT_IMAGE'', ''ghcr.io/mechanic-agent''), (''AGENT_NAMESPACE'', ''mechanic''), (''AGENT_SA'', ''mechanic-agent'')])"

lemma FromEnv_minimal: "FromEnv no_patterns accept_all minimal_env = Inr default_Config"
  by (simp add: FromEnv_def block_defs rbac_scope_def minimum_severity_def extra_patterns_def disable_correlation_def
      required_def choice_setting_def int_setting_def switch_setting_def list_setting_def quantity_setting_def
      minimal_env_def map_get_def zero_Config_def NewRedactor_def default_Config_def seconds_exact Let_def)

text \<open>
  C23. Every configuration \<open>FromEnv\<close> accepts is within its bounds: required names are set, limits
  and times to live are positive and fit their width, the retry cap fits an \<open>int32\<close>, the depth of
  self-remediation is at most ten, the cooldown and the correlation window at most an hour, the
  action, the scope, the severity and the agent are among the known ones, a namespaced scope comes
  with namespaces, and no list contains an empty or untrimmed name.
\<close>

theorem FromEnv_within_bounds:
  assumes "FromEnv compile pq env = Inr cfg"
  shows "valid_Config cfg"
  by (rule FromEnv_valid [OF assms])

theorem FromEnv_within_bounds_witness: "valid_Config default_Config"
  by (rule FromEnv_within_bounds [OF FromEnv_minimal])

section \<open>Round trip\<close>

text \<open>A configuration written out as an environment, and the configurations that can be.\<close>

definition switch_text :: "bool \<Rightarrow> string" where
  "switch_text b = (if b then ''true'' else ''false'')"

definition print_env :: "Config \<Rightarrow> environment" where
  "print_env c = map_get (map_of
     [(''GITOPS_REPO'', GitOpsRepo c), (''GITOPS_MANIFEST_ROOT'', GitOpsManifestRoot c), (''AGENT_IMAGE'', AgentImage c),
      (''AGENT_NAMESPACE'', AgentNamespace c), (''AGENT_SA'', AgentSA c), (''AGENT_TYPE'', cfgAgentType c),
      (''LOG_LEVEL'', LogLevel c), (''SINK_TYPE'', SinkType c),
      (''MAX_CONCURRENT_JOBS'', int_to_dec (MaxConcurrentJobs c)),
      (''REMEDIATION_JOB_TTL_SECONDS'', int_to_dec (RemediationJobTTLSeconds c)),
      (''STABILISATION_WINDOW_SECONDS'', int_to_dec (StabilisationWindow c div Second)),
      (''INJECTION_DETECTION_ACTION'', InjectionDetectionAction c), (''AGENT_RBAC_SCOPE'', AgentRBACScope c),
      (''AGENT_WATCH_NAMESPACES'', strings_Join (AgentWatchNamespaces c) '',''),
      (''WATCH_NAMESPACES'', strings_Join (WatchNamespaces c) '',''),
      (''EXCLUDE_NAMESPACES'', strings_Join (ExcludeNamespaces c) '',''),
      (''MAX_INVESTIGATION_RETRIES'', int_to_dec (MaxInvestigationRetries c)), (''MIN_SEVERITY'', MinSeverity c),
      (''SELF_REMEDIATION_MAX_DEPTH'', int_to_dec (SelfRemediationMaxDepth c)),
      (''SELF_REMEDIATION_COOLDOWN_SECONDS'', int_to_dec (SelfRemediationCooldown c div Second)),
      (''DRY_RUN'', switch_text (DryRun c)), (''HARDEN_AGENT_KUBECTL'', switch_text (HardenAgentKubectl c)),
      (''EXTRA_REDACT_PATTERNS'', strings_Join (ExtraRedactPatterns c) '',''),
      (''CORRELATION_WINDOW_SECONDS'', int_to_dec (CorrelationWindowSeconds c)),
      (''DISABLE_CORRELATION'', switch_text (DisableCorrelation c)),
      (''CORRELATION_MULTI_POD_THRESHOLD'', int_to_dec (MultiPodThreshold c)),
      (''PR_AUTO_CLOSE'', switch_text (PRAutoClose c)),
      (''REMEDIATION_JOB_SHORT_TTL_SECONDS'', int_to_dec (RemediationJobShortTTLSeconds c)),
      (''AGENT_CPU_REQUEST'', case_option '''' (\<lambda>v. v) (AgentCPURequest c)), (''AGENT_MEM_REQUEST'', case_option '''' (\<lambda>v. v) (AgentMemRequest c)),
      (''AGENT_CPU_LIMIT'', case_option '''' (\<lambda>v. v) (AgentCPULimit c)), (''AGENT_MEM_LIMIT'', case_option '''' (\<lambda>v. v) (AgentMemLimit c)),
      (''AGENT_ACTIVE_DEADLINE_SECONDS'', int_to_dec (AgentActiveDeadlineSeconds c))])"

definition whole_seconds :: "duration \<Rightarrow> bool" where
  "whole_seconds d \<longleftrightarrow> 0 \<le> d \<and> d < 2 ^ 63 \<and> d mod Second = 0"

definition printable :: "(string \<Rightarrow> goerr + rx) \<Rightarrow> (string \<Rightarrow> goerr option) \<Rightarrow> Config \<Rightarrow> bool" where
  "printable compile parseQuantity c \<longleftrightarrow> valid_Config c
     \<and> whole_seconds (StabilisationWindow c) \<and> whole_seconds (SelfRemediationCooldown c)
     \<and> list_all (\<lambda>n. CHR '','' \<notin> set n)
         (AgentWatchNamespaces c @ WatchNamespaces c @ ExcludeNamespaces c @ ExtraRedactPatterns c)
     \<and> (\<exists>rules. NewRedactor compile (ExtraRedactPatterns c) = Inr rules)
     \<and> list_all (\<lambda>q. \<forall>v. q = Some v \<longrightarrow> v \<noteq> '''' \<and> parseQuantity v = None)
         [AgentCPURequest c, AgentMemRequest c, AgentCPULimit c, AgentMemLimit c]"

lemma split_at_one: "d \<notin> set x \<Longrightarrow> split_at d x = [x]"
  by (induction x) auto

lemma split_at_more: "d \<notin> set x \<Longrightarrow> split_at d (x @ d # r) = x # split_at d r"
  by (induction x) auto

lemma split_at_Join:
  assumes "xs \<noteq> []" and "\<forall>x \<in> set xs. d \<notin> set x"
  shows "split_at d (strings_Join xs [d]) = xs"
proof -
  have "split_at d (y @ concat (map ((@) [d]) ys)) = y # ys" if "\<forall>x \<in> set (y # ys). d \<notin> set x" for y ys
    using that
  proof (induction ys arbitrary: y)
    case Nil
    then show ?case by (simp add: split_at_one)
  next
    case (Cons z ys)
    with Cons.IH [of z] show ?case by (simp add: split_at_more)
  qed
  from this [of "hd xs" "tl xs"] assms show ?thesis
    unfolding strings_Join_def by (cases xs) (simp_all only: list.case list.sel list.simps)
qed

lemma comma_list_Join:
  assumes "clean xs" and "\<forall>x \<in> set xs. CHR '','' \<notin> set x"
  shows "comma_list (strings_Join xs '','') = xs"
proof (cases "xs = []")
  case False
  have "map strings_TrimSpace xs = xs" using assms(1) by (simp add: list_all_iff map_idI)
  with False assms split_at_Join [of xs "CHR '',''"] show ?thesis
    by (simp add: comma_list_def list_all_iff filter_id_conv)
qed (simp add: strings_Join_def)

lemma Join_Nil_iff: "clean xs \<Longrightarrow> strings_Join xs s = '''' \<longleftrightarrow> xs = []"
  by (cases xs) (auto simp: strings_Join_def)

text \<open>Each shape of block gives back the value it was printed from.\<close>

named_theorems reads_back \<open>a block run on the printed form of a value\<close>

lemma reads_required [reads_back]: "env name = v \<Longrightarrow> v \<noteq> '''' \<Longrightarrow> required name dv env cfg = Inr (dv v cfg)"
  by (simp add: required_def)

lemma reads_choice [reads_back]:
  "env name = v \<Longrightarrow> v \<noteq> '''' \<Longrightarrow> acc v \<Longrightarrow> choice_setting name w acc dv env cfg = Inr (dv v cfg)"
  by (simp add: choice_setting_def)

lemma int_to_dec_not_empty: "int_to_dec n \<noteq> ''''"
  using dec_digits_first [of "\<bar>n\<bar>"] by (auto simp: int_to_dec_def)

lemma reads_int [reads_back]:
  assumes "env name = int_to_dec n" and "lo \<le> n" and "0 \<le> lo"
  shows "n < 2 ^ 63 \<Longrightarrow> int_setting name k lo None dn env cfg = Inr (dn n cfg)"
    and "n \<le> h \<Longrightarrow> h < 2 ^ 63 \<Longrightarrow> int_setting name k lo (Some h) dn env cfg = Inr (dn n cfg)"
  using assms Atoi_int_to_dec [of n] int_to_dec_not_empty [of n]
  by (auto simp: int_setting_def)

lemma reads_switch [reads_back]: "env name = switch_text b \<Longrightarrow> switch_setting name b0 db env cfg = Inr (db b cfg)"
  by (simp add: switch_setting_def switch_text_def)

lemma reads_list [reads_back]:
  assumes "env name = strings_Join xs '',''" and "clean xs" and "\<forall>x \<in> set xs. CHR '','' \<notin> set x"
    and "dl [] cfg = cfg"
  shows "list_setting name dl env cfg = Inr (dl xs cfg)"
  using assms comma_list_Join [OF assms(2,3)] Join_Nil_iff [OF assms(2), of "'',''"]
  by (cases "xs = []") (simp_all add: list_setting_def)

lemma reads_quantity [reads_back]:
  assumes "env name = (case q of None \<Rightarrow> '''' | Some v \<Rightarrow> v)" and "\<forall>v. q = Some v \<longrightarrow> v \<noteq> '''' \<and> pq v = None"
    and "dq None cfg = cfg"
  shows "quantity_setting pq name (\<lambda>v. dq (Some v)) env cfg = Inr (dq q cfg)"
  using assms by (cases q) (simp_all add: quantity_setting_def)

lemma reads_severity:
  assumes "env ''MIN_SEVERITY'' = v" and "v \<in> {SeverityLow, SeverityMedium, SeverityHigh, SeverityCritical}"
  shows "minimum_severity env cfg = Inr (cfg\<lparr>MinSeverity := v\<rparr>)"
  using assms by (auto simp: minimum_severity_def ParseSeverity_def severityOrder_def)

lemma reads_disable [reads_back]:
  "env ''DISABLE_CORRELATION'' = switch_text b \<Longrightarrow> disable_correlation env cfg = Inr (cfg\<lparr>DisableCorrelation := b\<rparr>)"
  by (cases b) (simp_all add: disable_correlation_def switch_text_def)

lemma reads_patterns:
  assumes "env ''EXTRA_REDACT_PATTERNS'' = strings_Join xs '',''" and "clean xs" and "\<forall>x \<in> set xs. CHR '','' \<notin> set x"
    and "NewRedactor compile xs = Inr rules" and "cfg\<lparr>ExtraRedactPatterns := []\<rparr> = cfg" and "ExtraRedactPatterns cfg = []"
  shows "extra_patterns compile env cfg = Inr (cfg\<lparr>ExtraRedactPatterns := xs\<rparr>)"
proof (cases "xs = []")
  case True
  with assms(1,4,6) have "extra_patterns compile env cfg = Inr cfg" by (simp add: extra_patterns_def strings_Join_def)
  then show ?thesis unfolding True assms(5) .
next
  case False
  with assms(1,4) comma_list_Join [OF assms(2,3)] Join_Nil_iff [OF assms(2), of "'',''"] show ?thesis
    by (simp add: extra_patterns_def)
qed

lemma reads_scope:
  assumes "env ''AGENT_RBAC_SCOPE'' = scope" and "env ''AGENT_WATCH_NAMESPACES'' = strings_Join xs '',''"
    and "scope \<in> {''cluster'', ''namespace''}" and "scope = ''namespace'' \<longleftrightarrow> xs \<noteq> []"
    and "clean xs" and "\<forall>x \<in> set xs. CHR '','' \<notin> set x" and "cfg\<lparr>AgentWatchNamespaces := []\<rparr> = cfg"
  shows "rbac_scope env cfg = Inr (cfg\<lparr>AgentRBACScope := scope, AgentWatchNamespaces := xs\<rparr>)"
proof (cases "xs = []")
  case True
  with assms(3,4) have sc: "scope = ''cluster''" by auto
  have "cfg\<lparr>AgentRBACScope := scope, AgentWatchNamespaces := []\<rparr> = cfg\<lparr>AgentWatchNamespaces := []\<rparr>\<lparr>AgentRBACScope := scope\<rparr>"
    by simp
  then have "cfg\<lparr>AgentRBACScope := scope, AgentWatchNamespaces := []\<rparr> = cfg\<lparr>AgentRBACScope := scope\<rparr>"
    unfolding assms(7) .
  with True sc assms(1) show ?thesis by (simp add: rbac_scope_def)
next
  case False
  with assms(1-4) comma_list_Join [OF assms(5,6)] Join_Nil_iff [OF assms(5), of "'',''"] show ?thesis
    by (simp add: rbac_scope_def)
qed

lemma print_env_at:
  "print_env c ''GITOPS_REPO'' = GitOpsRepo c"
  "print_env c ''GITOPS_MANIFEST_ROOT'' = GitOpsManifestRoot c"
  "print_env c ''AGENT_IMAGE'' = AgentImage c"
  "print_env c ''AGENT_NAMESPACE'' = AgentNamespace c"
  "print_env c ''AGENT_SA'' = AgentSA c"
  "print_env c ''AGENT_TYPE'' = cfgAgentType c"
  "print_env c ''LOG_LEVEL'' = LogLevel c"
  "print_env c ''SINK_TYPE'' = SinkType c"
  "print_env c ''MAX_CONCURRENT_JOBS'' = int_to_dec (MaxConcurrentJobs c)"
  "print_env c ''REMEDIATION_JOB_TTL_SECONDS'' = int_to_dec (RemediationJobTTLSeconds c)"
  "print_env c ''STABILISATION_WINDOW_SECONDS'' = int_to_dec (StabilisationWindow c div Second)"
  "print_env c ''INJECTION_DETECTION_ACTION'' = InjectionDetectionAction c"
  "print_env c ''AGENT_RBAC_SCOPE'' = AgentRBACScope c"
  "print_env c ''AGENT_WATCH_NAMESPACES'' = strings_Join (AgentWatchNamespaces c) '',''"
  "print_env c ''WATCH_NAMESPACES'' = strings_Join (WatchNamespaces c) '',''"
  "print_env c ''EXCLUDE_NAMESPACES'' = strings_Join (ExcludeNamespaces c) '',''"
  "print_env c ''MAX_INVESTIGATION_RETRIES'' = int_to_dec (MaxInvestigationRetries c)"
  "print_env c ''MIN_SEVERITY'' = MinSeverity c"
  "print_env c ''SELF_REMEDIATION_MAX_DEPTH'' = int_to_dec (SelfRemediationMaxDepth c)"
  "print_env c ''SELF_REMEDIATION_COOLDOWN_SECONDS'' = int_to_dec (SelfRemediationCooldown c div Second)"
  "print_env c ''DRY_RUN'' = switch_text (DryRun c)"
  "print_env c ''HARDEN_AGENT_KUBECTL'' = switch_text (HardenAgentKubectl c)"
  "print_env c ''EXTRA_REDACT_PATTERNS'' = strings_Join (ExtraRedactPatterns c) '',''"
  "print_env c ''CORRELATION_WINDOW_SECONDS'' = int_to_dec (CorrelationWindowSeconds c)"
  "print_env c ''DISABLE_CORRELATION'' = switch_text (DisableCorrelation c)"
  "print_env c ''CORRELATION_MULTI_POD_THRESHOLD'' = int_to_dec (MultiPodThreshold c)"
  "print_env c ''PR_AUTO_CLOSE'' = switch_text (PRAutoClose c)"
  "print_env c ''REMEDIATION_JOB_SHORT_TTL_SECONDS'' = int_to_dec (RemediationJobShortTTLSeconds c)"
  "print_env c ''AGENT_CPU_REQUEST'' = case_option '''' (\<lambda>v. v) (AgentCPURequest c)"
  "print_env c ''AGENT_MEM_REQUEST'' = case_option '''' (\<lambda>v. v) (AgentMemRequest c)"
  "print_env c ''AGENT_CPU_LIMIT'' = case_option '''' (\<lambda>v. v) (AgentCPULimit c)"
  "print_env c ''AGENT_MEM_LIMIT'' = case_option '''' (\<lambda>v. v) (AgentMemLimit c)"
  "print_env c ''AGENT_ACTIVE_DEADLINE_SECONDS'' = int_to_dec (AgentActiveDeadlineSeconds c)"
  by (simp_all add: print_env_def map_get_def)

lemma seconds_of_whole:
  assumes "whole_seconds d"
  shows "seconds (d div Second) = d" "0 \<le> d div Second" "d div Second < 2 ^ 63"
proof -
  from assms have d: "d div Second * Second = d" "0 \<le> d" "d < 2 ^ 63" by (auto simp: whole_seconds_def)
  then show "seconds (d div Second) = d" unfolding seconds_def d(1) by (intro int64_id) simp_all
  show "0 \<le> d div Second" using d(2) by (simp add: Second_def)
  show "d div Second < 2 ^ 63" using d(2,3) by (simp add: Second_def)
qed

lemma printable_facts:
  assumes "printable compile pq c"
  shows "valid_Config c" "whole_seconds (StabilisationWindow c)" "whole_seconds (SelfRemediationCooldown c)"
    "\<exists>rules. NewRedactor compile (ExtraRedactPatterns c) = Inr rules"
    "\<forall>n \<in> set (AgentWatchNamespaces c). CHR '','' \<notin> set n" "\<forall>n \<in> set (WatchNamespaces c). CHR '','' \<notin> set n"
    "\<forall>n \<in> set (ExcludeNamespaces c). CHR '','' \<notin> set n" "\<forall>n \<in> set (ExtraRedactPatterns c). CHR '','' \<notin> set n"
    "\<forall>v. AgentCPURequest c = Some v \<longrightarrow> v \<noteq> '''' \<and> pq v = None"
    "\<forall>v. AgentMemRequest c = Some v \<longrightarrow> v \<noteq> '''' \<and> pq v = None"
    "\<forall>v. AgentCPULimit c = Some v \<longrightarrow> v \<noteq> '''' \<and> pq v = None"
    "\<forall>v. AgentMemLimit c = Some v \<longrightarrow> v \<noteq> '''' \<and> pq v = None"
  using assms unfolding printable_def list_all_append list_all_iff by simp_all

lemma valid_scope:
  assumes "valid_Config c"
  shows "AgentRBACScope c \<in> {''cluster'', ''namespace''}" "AgentRBACScope c = ''namespace'' \<longleftrightarrow> AgentWatchNamespaces c \<noteq> []"
  using assms unfolding valid_Config_def by blast+

lemma valid_facts:
  assumes "valid_Config c"
  shows "GitOpsRepo c \<noteq> ''''" "GitOpsManifestRoot c \<noteq> ''''" "AgentImage c \<noteq> ''''" "AgentNamespace c \<noteq> ''''"
    "AgentSA c \<noteq> ''''" "LogLevel c \<noteq> ''''" "SinkType c \<noteq> ''''"
    "cfgAgentType c = AgentTypeOpenCode \<or> cfgAgentType c = AgentTypeClaude"
    "1 \<le> MaxConcurrentJobs c" "MaxConcurrentJobs c < 2 ^ 63"
    "1 \<le> RemediationJobTTLSeconds c" "RemediationJobTTLSeconds c \<le> MaxInt32"
    "1 \<le> RemediationJobShortTTLSeconds c" "RemediationJobShortTTLSeconds c \<le> MaxInt32"
    "InjectionDetectionAction c = ''log'' \<or> InjectionDetectionAction c = ''suppress''"
    "clean (AgentWatchNamespaces c)" "clean (WatchNamespaces c)" "clean (ExcludeNamespaces c)" "clean (ExtraRedactPatterns c)"
    "1 \<le> MaxInvestigationRetries c" "MaxInvestigationRetries c \<le> MaxInt32"
    "MinSeverity c \<in> {SeverityLow, SeverityMedium, SeverityHigh, SeverityCritical}"
    "0 \<le> SelfRemediationMaxDepth c" "SelfRemediationMaxDepth c \<le> 10"
    "SelfRemediationCooldown c \<le> 3600 * Second"
    "0 \<le> CorrelationWindowSeconds c" "CorrelationWindowSeconds c \<le> 3600"
    "1 \<le> MultiPodThreshold c" "MultiPodThreshold c < 2 ^ 63"
    "1 \<le> AgentActiveDeadlineSeconds c" "AgentActiveDeadlineSeconds c < 2 ^ 63"
    "DisableCascadeCheck c = False" "CascadeNamespaceThreshold c = 0" "CascadeNodeCacheTTL c = 0"
  using assms unfolding valid_Config_def list_all_append
  by (simp_all only: list.pred_inject atLeastAtMost_iff atLeastLessThan_iff insert_iff empty_iff simp_thms)

lemma reads_quantities [reads_back]:
  "printable compile pq c \<Longrightarrow> d\<lparr>AgentCPURequest := None\<rparr> = d \<Longrightarrow> quantity_setting pq ''AGENT_CPU_REQUEST'' (\<lambda>v c. c\<lparr>AgentCPURequest := Some v\<rparr>) (print_env c) d = Inr (d\<lparr>AgentCPURequest := AgentCPURequest c\<rparr>)"
  "printable compile pq c \<Longrightarrow> d\<lparr>AgentMemRequest := None\<rparr> = d \<Longrightarrow> quantity_setting pq ''AGENT_MEM_REQUEST'' (\<lambda>v c. c\<lparr>AgentMemRequest := Some v\<rparr>) (print_env c) d = Inr (d\<lparr>AgentMemRequest := AgentMemRequest c\<rparr>)"
  "printable compile pq c \<Longrightarrow> d\<lparr>AgentCPULimit := None\<rparr> = d \<Longrightarrow> quantity_setting pq ''AGENT_CPU_LIMIT'' (\<lambda>v c. c\<lparr>AgentCPULimit := Some v\<rparr>) (print_env c) d = Inr (d\<lparr>AgentCPULimit := AgentCPULimit c\<rparr>)"
  "printable compile pq c \<Longrightarrow> d\<lparr>AgentMemLimit := None\<rparr> = d \<Longrightarrow> quantity_setting pq ''AGENT_MEM_LIMIT'' (\<lambda>v c. c\<lparr>AgentMemLimit := Some v\<rparr>) (print_env c) d = Inr (d\<lparr>AgentMemLimit := AgentMemLimit c\<rparr>)"
  using reads_quantity [of "print_env c", OF print_env_at(29) printable_facts(9), where dq = "\<lambda>v c. c\<lparr>AgentCPURequest := v\<rparr>"]
    reads_quantity [of "print_env c", OF print_env_at(30) printable_facts(10), where dq = "\<lambda>v c. c\<lparr>AgentMemRequest := v\<rparr>"]
    reads_quantity [of "print_env c", OF print_env_at(31) printable_facts(11), where dq = "\<lambda>v c. c\<lparr>AgentCPULimit := v\<rparr>"]
    reads_quantity [of "print_env c", OF print_env_at(32) printable_facts(12), where dq = "\<lambda>v c. c\<lparr>AgentMemLimit := v\<rparr>"]
  by simp_all

text \<open>
  C24. Reading back a printed configuration gives the configuration: every field that \<open>FromEnv\<close>
  reads is determined by its own variable, in whatever combination the values are, as long as the
  configuration is within the bounds \<open>FromEnv\<close> enforces, its durations are whole seconds, and no
  listed name contains the separator.
\<close>

theorem FromEnv_print_env:
  assumes "printable compile pq c"
  shows "FromEnv compile pq (print_env c) = Inr c"
proof -
  note p = printable_facts [OF assms]
  note v = valid_facts [OF p(1)] valid_scope [OF p(1)]
  obtain rules where rules: "NewRedactor compile (ExtraRedactPatterns c) = Inr rules" using p(4) by blast
  have more: "cfgAgentType c \<noteq> ''''" "InjectionDetectionAction c \<noteq> ''''"
    using v(8) v(15) by auto
  have half: "SelfRemediationCooldown c div Second \<le> 3600" using v(25) by (simp add: Second_def)
  note whole = seconds_of_whole [OF p(2)] seconds_of_whole [OF p(3)]
  have i32: "int32 (MaxInvestigationRetries c) = MaxInvestigationRetries c"
    using v(20,21) by (intro int32_id) simp_all
  note sc = reads_scope [of "print_env c", OF print_env_at(13,14) valid_scope [OF p(1)] v(16) p(5)]
  note sv = reads_severity [of "print_env c", OF print_env_at(18) v(22)]
  note pt = reads_patterns [of "print_env c", OF print_env_at(23) v(19) p(8) rules]
  show ?thesis
    using assms v(10,29,31) whole(3)
    by (simp add: FromEnv_def block_defs reads_back sc sv pt print_env_at v more whole half p rules i32 zero_Config_def)
qed

theorem FromEnv_print_env_witness:
  "FromEnv no_patterns accept_all (print_env default_Config) = Inr default_Config"
proof (rule FromEnv_print_env)
  show "printable no_patterns accept_all default_Config"
    by (simp add: printable_def valid_Config_def whole_seconds_def default_Config_def NewRedactor_def Second_def)
qed

section \<open>The window is not bounded\<close>

lemma mod_int_shift: "(m :: int) \<le> x \<Longrightarrow> x < 2 * m \<Longrightarrow> x mod m = x - m"
  by (metis add_diff_cancel_left' diff_ge_0_iff_ge diff_less_eq minus_mod_self2 mod_pos_pos_trivial mult_2)

lemma seconds_wraps:
  assumes "9223372037 \<le> n" and "n \<le> 18446744073"
  shows "seconds n < 0"
proof -
  have "(n * Second + 2 ^ 63) mod 2 ^ 64 = n * Second + 2 ^ 63 - 2 ^ 64"
    using assms by (intro mod_int_shift) (simp_all add: Second_def)
  then show ?thesis using assms unfolding seconds_def int64_def by (simp add: Second_def)
qed

text \<open>
  The stabilisation window is the one number whose seconds have no upper bound: any value of
  \<open>STABILISATION_WINDOW_SECONDS\<close> from 9223372037 to 18446744073 is accepted, and its product with
  a second wraps around to a negative window.
\<close>

theorem window_wraps_negative:
  assumes "FromEnv compile pq env = Inr cfg"
    and "env ''STABILISATION_WINDOW_SECONDS'' = int_to_dec n" and "9223372037 \<le> n" and "n \<le> 18446744073"
  shows "StabilisationWindow cfg < 0"
proof -
  let ?bs = "blocks compile pq"
  have eq: "?bs = take 10 ?bs @ stabilisation_window # drop 11 ?bs" by (simp add: blocks_def required_vars_def quantities_def)
  have "run_blocks (take 10 ?bs @ stabilisation_window # drop 11 ?bs) env zero_Config = Inr cfg"
    using assms(1) unfolding FromEnv_def eq [symmetric] .
  then obtain c d where run: "stabilisation_window env c = Inr d" "run_blocks (drop 11 ?bs) env d = Inr cfg"
    unfolding run_blocks_append run_blocks_Inr by blast
  have "stabilisation_window env c = Inr (c\<lparr>StabilisationWindow := seconds n\<rparr>)"
    unfolding stabilisation_window_def by (rule reads_int(1) [of env, OF assms(2)]) (use assms(3,4) in simp_all)
  with run(1) have "d = c\<lparr>StabilisationWindow := seconds n\<rparr>" by (simp only: sum.inject)
  then have "StabilisationWindow d = seconds n" by simp
  then show ?thesis
    using run_keeps [OF run(2), of StabilisationWindow] seconds_wraps [OF assms(3,4)] by (simp add: field_defs)
qed

lemma FromEnv_minimal_window:
  assumes "0 \<le> n" and "n < 2 ^ 63"
  shows "FromEnv no_patterns accept_all (minimal_env(''STABILISATION_WINDOW_SECONDS'' := int_to_dec n))
    = Inr (default_Config\<lparr>StabilisationWindow := seconds n\<rparr>)"
  using assms Atoi_int_to_dec [of n] int_to_dec_not_empty [of n]
  by (simp add: FromEnv_def block_defs rbac_scope_def minimum_severity_def extra_patterns_def disable_correlation_def
      required_def choice_setting_def int_setting_def switch_setting_def list_setting_def quantity_setting_def
      minimal_env_def map_get_def zero_Config_def NewRedactor_def default_Config_def seconds_exact Let_def)

theorem window_wraps_negative_witness:
  "\<exists>cfg. FromEnv no_patterns accept_all (minimal_env(''STABILISATION_WINDOW_SECONDS'' := int_to_dec 9223372037)) = Inr cfg
     \<and> StabilisationWindow cfg < 0"
proof -
  have run: "FromEnv no_patterns accept_all (minimal_env(''STABILISATION_WINDOW_SECONDS'' := int_to_dec 9223372037))
      = Inr (default_Config\<lparr>StabilisationWindow := seconds 9223372037\<rparr>)"
    by (rule FromEnv_minimal_window) simp_all
  have "StabilisationWindow (default_Config\<lparr>StabilisationWindow := seconds 9223372037\<rparr>) < 0"
    by (rule window_wraps_negative [OF run, of 9223372037]) simp_all
  with run show ?thesis by blast
qed

end
