(* ===== verification/Native.thy ===== *)
theory Native
  imports Lifecycle Settings
begin

text \<open>
  The native source providers (\<open>src/internal/provider/native\<close>): from a watched object of one of
  six kinds to a finding. Each \<open>ExtractFinding\<close> reads the clock for the skip annotations and may
  ask the API for the owners of the object; those calls are the fields of a \<open>native_client\<close>, functions on an
  unspecified world, as in the reconcilers.
\<close>

section \<open>Watched objects\<close>

record OwnerRef =
  owKind :: string
  owName :: string
  owUID :: string

record ObjectMeta =
  omName :: string
  omNamespace :: string
  omUID :: string
  omLabels :: "string \<rightharpoonup> string"
  omAnnotations :: "string \<rightharpoonup> string"
  omOwnerReferences :: "OwnerRef list"
  omGeneration :: int

record ObjCondition =
  ocType :: string
  ocStatus :: string
  ocReason :: string
  ocMessage :: string

record Waiting =
  waReason :: string
  waMessage :: string

record Terminated =
  teExitCode :: int
  teReason :: string
  teMessage :: string

record ContainerStatus =
  csName :: string
  csWaiting :: "Waiting option"
  csTerminated :: "Terminated option"
  csLastTerminated :: "Terminated option"
  csRestartCount :: int

record PodObject =
  poMeta :: ObjectMeta
  poContainerStatuses :: "ContainerStatus list"
  poInitContainerStatuses :: "ContainerStatus list"
  poPhase :: string
  poConditions :: "ObjCondition list"
  poNodeName :: string

record DeploymentObject =
  deMeta :: ObjectMeta
  deSpecReplicas :: "int option"
  deReplicas :: int
  deReadyReplicas :: int
  deConditions :: "ObjCondition list"

record StatefulSetObject =
  ssMeta :: ObjectMeta
  ssSpecReplicas :: "int option"
  ssReadyReplicas :: int
  ssObservedGeneration :: int
  ssConditions :: "ObjCondition list"

record JobObject =
  joMeta :: ObjectMeta
  joConditions :: "ObjCondition list"
  joFailed :: int
  joActive :: int
  joCompletionTime :: "gotime option"

record NodeObject =
  noMeta :: ObjectMeta
  noConditions :: "ObjCondition list"

record PVCObject =
  pvMeta :: ObjectMeta
  pvPhase :: string

record EventObject =
  eoInvolvedName :: string
  eoInvolvedKind :: string
  eoReason :: string
  eoLastTimestamp :: gotime
  eoMessage :: string

datatype client_object =
    PodO PodObject
  | DeploymentO DeploymentObject
  | StatefulSetO StatefulSetObject
  | JobO JobObject
  | NodeO NodeObject
  | PVCO PVCObject

fun object_meta :: "client_object \<Rightarrow> ObjectMeta" where
  "object_meta (PodO x) = poMeta x"
| "object_meta (DeploymentO x) = deMeta x"
| "object_meta (StatefulSetO x) = ssMeta x"
| "object_meta (JobO x) = joMeta x"
| "object_meta (NodeO x) = noMeta x"
| "object_meta (PVCO x) = pvMeta x"

text \<open>The dynamic type, as \<open>%T\<close> prints it.\<close>

fun type_name :: "client_object \<Rightarrow> string" where
  "type_name (PodO x) = ''*v1.Pod''"
| "type_name (DeploymentO x) = ''*v1.Deployment''"
| "type_name (StatefulSetO x) = ''*v1.StatefulSet''"
| "type_name (JobO x) = ''*v1.Job''"
| "type_name (NodeO x) = ''*v1.Node''"
| "type_name (PVCO x) = ''*v1.PersistentVolumeClaim''"

text \<open>
  The calls a provider makes. \<open>ncOwners kind name\<close> fetches an owner as an unstructured object and
  gives its owner references. \<open>ncSortEvents\<close> is what \<open>sort.Slice\<close> makes of a list of events under
  the comparison "later \<open>LastTimestamp\<close> first", which leaves the order of equal times open.
\<close>

record 'w native_client =
  ncNow :: "'w \<Rightarrow> gotime \<times> 'w"
  ncOwners :: "string \<Rightarrow> NamespacedName \<Rightarrow> 'w \<Rightarrow> (api_error + OwnerRef list) \<times> 'w"
  ncGetRJob :: "NamespacedName \<Rightarrow> 'w \<Rightarrow> (api_error + RemediationJob) \<times> 'w"
  ncListEvents :: "string \<Rightarrow> 'w \<Rightarrow> (api_error + EventObject list) \<times> 'w"
  ncSortEvents :: "EventObject list \<Rightarrow> EventObject list"

type_synonym 'w extractor = "client_object \<Rightarrow> ('w, goerr + Finding option) state"

section \<open>Messages\<close>

definition truncate_text :: "string \<Rightarrow> nat \<Rightarrow> string" where
  "truncate_text s mx = (if length s \<le> mx then s else take mx s @ ''...[truncated]'')"

abbreviation maxTerminatedMessage :: nat where "maxTerminatedMessage \<equiv> 4096"
abbreviation maxSchedulerMessage :: nat where "maxSchedulerMessage \<equiv> 2048"
abbreviation maxCSIEventMessage :: nat where "maxCSIEventMessage \<equiv> 2048"
abbreviation maxWaitingMessage :: nat where "maxWaitingMessage \<equiv> 1024"
abbreviation maxConditionMessage :: nat where "maxConditionMessage \<equiv> 500"

definition clip :: "redactRule list \<Rightarrow> string \<Rightarrow> nat \<Rightarrow> string" where
  "clip rules msg mx = truncate_text (StripDelimiters (Redact rules msg)) mx"

section \<open>Owners\<close>

definition known_kinds :: "string list" where
  "known_kinds = [''Pod'', ''ReplicaSet'', ''Deployment'', ''StatefulSet'', ''DaemonSet'', ''Job'', ''CronJob'',
     ''ConfigMap'', ''Node'']"

definition maxTraversalDepth :: nat where
  "maxTraversalDepth = 10"

definition kind_name :: "string \<Rightarrow> string \<Rightarrow> string" where
  "kind_name kind name = kind @ ''/'' @ name"

text \<open>The loop of \<open>getParent\<close>; its first argument is how many more rounds \<open>depth < maxTraversalDepth\<close> allows.\<close>

fun parent_loop ::
    "'w native_client \<Rightarrow> string \<Rightarrow> nat \<Rightarrow> string list \<Rightarrow> string \<Rightarrow> string \<Rightarrow> OwnerRef list \<Rightarrow> ('w, string) state" where
  "parent_loop c ns 0 visited kind name refs = ret (kind_name kind name)"
| "parent_loop c ns (Suc n) visited kind name [] = ret (kind_name kind name)"
| "parent_loop c ns (Suc n) visited kind name (owner # refs) =
     (if List.member visited (owUID owner) then ret (kind_name kind name)
      else if \<not> List.member known_kinds (owKind owner) then ret (kind_name kind name)
      else do {
        obj \<leftarrow> State (ncOwners c (owKind owner) \<lparr>nnNamespace = ns, nnName = owName owner\<rparr>);
        case obj of
          Inl er \<Rightarrow> ret (kind_name kind name)
        | Inr ownerRefs \<Rightarrow>
            parent_loop c ns n (owUID owner # visited) (owKind owner) (owName owner) ownerRefs })"

definition getParent :: "'w native_client \<Rightarrow> ObjectMeta \<Rightarrow> string \<Rightarrow> ('w, string) state" where
  "getParent c m kind =
     (if omOwnerReferences m = [] then ret (kind_name kind (omName m))
      else parent_loop c (omNamespace m) maxTraversalDepth [omUID m] kind (omName m) (omOwnerReferences m))"

text \<open>The guard every provider starts with, and the finding it ends with.\<close>

definition unless_skipped ::
    "'w native_client \<Rightarrow> client_object \<Rightarrow> ('w, goerr + Finding option) state \<Rightarrow> ('w, goerr + Finding option) state" where
  "unless_skipped c obj k = do {
     t \<leftarrow> State (ncNow c);
     if ShouldSkip (omAnnotations (object_meta obj)) t then ret (Inr None) else k }"

definition native_finding ::
    "string \<Rightarrow> ObjectMeta \<Rightarrow> string \<Rightarrow> string \<Rightarrow> string list \<Rightarrow> Severity \<Rightarrow> Finding" where
  "native_finding kind m ns parent texts sev =
     \<lparr>fKind = kind, fName = omName m, fNamespace = ns, fParentObject = parent, fErrors = marshal_errors texts,
      fDetails = '''', fSeverity = sev, fChainDepth = 0, fNodeName = ''''\<rparr>"

definition wrong_type :: "string \<Rightarrow> string \<Rightarrow> client_object \<Rightarrow> goerr + Finding option" where
  "wrong_type provider expected obj =
     Inl (Msg (provider @ '': expected '' @ expected @ '', got '' @ type_name obj))"

section \<open>Pods\<close>

definition waitingReasons :: "string list" where
  "waitingReasons = [''CrashLoopBackOff'', ''ImagePullBackOff'', ''ErrImagePull'', ''CreateContainerConfigError'',
     ''InvalidImageName'', ''RunContainerError'', ''CreateContainerError'']"

definition buildCrashLoopText :: "ContainerStatus \<Rightarrow> string" where
  "buildCrashLoopText cs =
     (let lastReason = (case csLastTerminated cs of None \<Rightarrow> '''' | Some t \<Rightarrow> teReason t) in
      if lastReason \<noteq> ''''
      then ''container '' @ csName cs @ '': CrashLoopBackOff (last exit: '' @ lastReason @ '')''
      else ''container '' @ csName cs @ '': CrashLoopBackOff'')"

definition buildWaitingText :: "redactRule list \<Rightarrow> ContainerStatus \<Rightarrow> Waiting \<Rightarrow> string" where
  "buildWaitingText rules cs w =
     (if waMessage w \<noteq> ''''
      then ''container '' @ csName cs @ '': '' @ waReason w @ '': '' @ clip rules (waMessage w) maxWaitingMessage
      else ''container '' @ csName cs @ '': '' @ waReason w)"

definition terminated_text :: "redactRule list \<Rightarrow> ContainerStatus \<Rightarrow> Terminated \<Rightarrow> string" where
  "terminated_text rules cs t =
     (let msg = (if teMessage t \<noteq> '''' then '': '' @ clip rules (teMessage t) maxTerminatedMessage else '''')
      in ''container '' @ csName cs @ '': terminated with exit code '' @ int_to_dec (teExitCode t) @ msg)"

definition status_texts :: "redactRule list \<Rightarrow> ContainerStatus \<Rightarrow> string list" where
  "status_texts rules cs =
     (case csWaiting cs of
        Some w \<Rightarrow>
          if List.member waitingReasons (waReason w)
          then (if waReason w = ''CrashLoopBackOff'' then [buildCrashLoopText cs] else [buildWaitingText rules cs w])
          else []
      | None \<Rightarrow>
          (case csTerminated cs of
             Some t \<Rightarrow> if teExitCode t \<noteq> 0 then [terminated_text rules cs t] else []
           | None \<Rightarrow> []))"

definition unschedulable :: "ObjCondition \<Rightarrow> bool" where
  "unschedulable c \<longleftrightarrow> ocType c = ''PodScheduled'' \<and> ocStatus c = ''False'' \<and> ocReason c = ''Unschedulable''"

definition allStatuses :: "PodObject \<Rightarrow> ContainerStatus list" where
  "allStatuses pod = poContainerStatuses pod @ poInitContainerStatuses pod"

definition pod_texts :: "redactRule list \<Rightarrow> PodObject \<Rightarrow> string list" where
  "pod_texts rules pod =
     concat (map (status_texts rules) (allStatuses pod))
     @ (if poPhase pod = ''Pending''
        then (case find unschedulable (poConditions pod) of
                None \<Rightarrow> []
              | Some c \<Rightarrow> [''pod '' @ ocReason c @ '': '' @ clip rules (ocMessage c) maxSchedulerMessage])
        else [])"

definition raise_to :: "Severity \<Rightarrow> Severity \<Rightarrow> Severity" where
  "raise_to sev current = (if SeverityLevel sev > SeverityLevel current then sev else current)"

text \<open>The loop over the container statuses; \<open>None\<close> is the early return of \<open>SeverityCritical\<close>.\<close>

fun pod_severity_loop :: "Severity \<Rightarrow> ContainerStatus list \<Rightarrow> Severity option" where
  "pod_severity_loop current [] = Some current"
| "pod_severity_loop current (cs # css) =
     (case csWaiting cs of
        Some w \<Rightarrow>
          if waReason w = ''CrashLoopBackOff'' then
            (if csRestartCount cs > 5 then None
             else pod_severity_loop (raise_to SeverityHigh current) css)
          else if waReason w = ''ImagePullBackOff'' \<or> waReason w = ''ErrImagePull''
          then pod_severity_loop (raise_to SeverityHigh current) css
          else pod_severity_loop current css
      | None \<Rightarrow>
          (case csTerminated cs of
             Some t \<Rightarrow>
               if teExitCode t \<noteq> 0 \<and> teReason t = ''OOMKilled''
               then pod_severity_loop (raise_to SeverityHigh current) css
               else pod_severity_loop current css
           | None \<Rightarrow> pod_severity_loop current css))"

definition computePodSeverity :: "PodObject \<Rightarrow> Severity" where
  "computePodSeverity pod =
     (case pod_severity_loop SeverityMedium (allStatuses pod) of
        None \<Rightarrow> SeverityCritical
      | Some current \<Rightarrow>
          if poPhase pod = ''Pending'' \<and> list_ex unschedulable (poConditions pod)
          then raise_to SeverityHigh current else current)"

definition pod_ExtractFinding :: "'w native_client \<Rightarrow> redactRule list \<Rightarrow> 'w extractor" where
  "pod_ExtractFinding c rules obj = unless_skipped c obj
     (case obj of
        PodO pod \<Rightarrow>
          if pod_texts rules pod = [] then ret (Inr None)
          else do {
            parent \<leftarrow> getParent c (poMeta pod) ''Pod'';
            ret (Inr (Some ((native_finding ''Pod'' (poMeta pod) (omNamespace (poMeta pod)) parent (pod_texts rules pod)
                  (computePodSeverity pod))\<lparr>fNodeName := poNodeName pod\<rparr>))) }
      | _ \<Rightarrow> ret (wrong_type ''podProvider'' ''*corev1.Pod'' obj))"

section \<open>Deployments and stateful sets\<close>

definition not_available :: "ObjCondition \<Rightarrow> bool" where
  "not_available c \<longleftrightarrow> ocType c = ''Available'' \<and> ocStatus c = ''False''"

definition replica_text :: "string \<Rightarrow> string \<Rightarrow> int \<Rightarrow> int \<Rightarrow> string" where
  "replica_text what name ready spec =
     what @ '' '' @ name @ '': '' @ int_to_dec ready @ ''/'' @ int_to_dec spec @ '' replicas ready''"

definition computeDeploymentSeverity :: "int \<Rightarrow> int \<Rightarrow> bool \<Rightarrow> Severity" where
  "computeDeploymentSeverity readyReplicas specReplicas replicaFired =
     (if replicaFired \<and> specReplicas > 0 then
        (if readyReplicas = 0 then SeverityCritical
         else if readyReplicas < specReplicas div 2 then SeverityHigh
         else SeverityMedium)
      else SeverityMedium)"

definition computeStatefulSetSeverity :: "int \<Rightarrow> int \<Rightarrow> bool \<Rightarrow> Severity" where
  "computeStatefulSetSeverity readyReplicas specReplicas replicaFired =
     (if replicaFired \<and> specReplicas > 0 then
        (if readyReplicas = 0 then SeverityCritical
         else if readyReplicas < specReplicas div 2 then SeverityHigh
         else SeverityMedium)
      else SeverityMedium)"

definition deployment_fired :: "DeploymentObject \<Rightarrow> bool" where
  "deployment_fired d = (case deSpecReplicas d of
       None \<Rightarrow> False | Some spec \<Rightarrow> deReplicas d \<le> spec \<and> deReadyReplicas d < spec)"

definition deployment_texts :: "redactRule list \<Rightarrow> DeploymentObject \<Rightarrow> string list" where
  "deployment_texts rules d =
     (let name = omName (deMeta d) in
      (case deSpecReplicas d of
         None \<Rightarrow> []
       | Some spec \<Rightarrow> if deployment_fired d then [replica_text ''deployment'' name (deReadyReplicas d) spec] else [])
      @ (case find not_available (deConditions d) of
           None \<Rightarrow> []
         | Some c \<Rightarrow> [''deployment '' @ name @ '': Available=False reason='' @ ocReason c @ '' message='' @
                      clip rules (ocMessage c) maxConditionMessage]))"

definition deployment_ExtractFinding :: "'w native_client \<Rightarrow> redactRule list \<Rightarrow> 'w extractor" where
  "deployment_ExtractFinding c rules obj = unless_skipped c obj
     (case obj of
        DeploymentO d \<Rightarrow>
          if deployment_texts rules d = [] then ret (Inr None)
          else do {
            parent \<leftarrow> getParent c (deMeta d) ''Deployment'';
            let specReplicas = (case deSpecReplicas d of None \<Rightarrow> 0 | Some n \<Rightarrow> n);
            ret (Inr (Some (native_finding ''Deployment'' (deMeta d) (omNamespace (deMeta d)) parent (deployment_texts rules d)
                  (computeDeploymentSeverity (deReadyReplicas d) specReplicas (deployment_fired d))))) }
      | _ \<Rightarrow> ret (wrong_type ''deploymentProvider'' ''*appsv1.Deployment'' obj))"

definition statefulset_fired :: "StatefulSetObject \<Rightarrow> bool" where
  "statefulset_fired d = (case ssSpecReplicas d of
       None \<Rightarrow> False
     | Some spec \<Rightarrow> omGeneration (ssMeta d) = ssObservedGeneration d \<and> ssReadyReplicas d < spec)"

definition statefulset_texts :: "redactRule list \<Rightarrow> StatefulSetObject \<Rightarrow> string list" where
  "statefulset_texts rules d =
     (let name = omName (ssMeta d) in
      (case ssSpecReplicas d of
         None \<Rightarrow> []
       | Some spec \<Rightarrow> if statefulset_fired d then [replica_text ''statefulset'' name (ssReadyReplicas d) spec] else [])
      @ (case find not_available (ssConditions d) of
           None \<Rightarrow> []
         | Some c \<Rightarrow> [''statefulset '' @ name @ '': condition Available is False: '' @ ocReason c @ '': '' @
                      clip rules (ocMessage c) maxConditionMessage]))"

definition statefulset_ExtractFinding :: "'w native_client \<Rightarrow> redactRule list \<Rightarrow> 'w extractor" where
  "statefulset_ExtractFinding c rules obj = unless_skipped c obj
     (case obj of
        StatefulSetO d \<Rightarrow>
          if statefulset_texts rules d = [] then ret (Inr None)
          else do {
            parent \<leftarrow> getParent c (ssMeta d) ''StatefulSet'';
            let specReplicas = (case ssSpecReplicas d of None \<Rightarrow> 0 | Some n \<Rightarrow> n);
            ret (Inr (Some (native_finding ''StatefulSet'' (ssMeta d) (omNamespace (ssMeta d)) parent (statefulset_texts rules d)
                  (computeStatefulSetSeverity (ssReadyReplicas d) specReplicas (statefulset_fired d))))) }
      | _ \<Rightarrow> ret (wrong_type ''statefulSetProvider'' ''*appsv1.StatefulSet'' obj))"

section \<open>Jobs\<close>

definition is_mechanic_job :: "JobObject \<Rightarrow> bool" where
  "is_mechanic_job job \<longleftrightarrow> map_get (omLabels (joMeta job)) ''app.kubernetes.io/managed-by'' = ''mechanic-watcher''"

definition job_excluded :: "JobObject \<Rightarrow> bool" where
  "job_excluded job \<longleftrightarrow>
     list_ex (\<lambda>ow. owKind ow = ''CronJob'') (omOwnerReferences (joMeta job))
     \<or> list_ex (\<lambda>c. ocType c = ''Suspended'' \<and> ocStatus c = ''True'') (joConditions job)
     \<or> joFailed job = 0 \<or> joActive job \<noteq> 0 \<or> joCompletionTime job \<noteq> None"

definition job_texts :: "redactRule list \<Rightarrow> JobObject \<Rightarrow> string list" where
  "job_texts rules job =
     (let name = omName (joMeta job) in
      (''job '' @ name @ '': failed ('' @ int_to_dec (joFailed job) @ '' attempts, 0 active)'')
      # (case find (\<lambda>c. ocType c = ''Failed'' \<and> ocStatus c = ''True'') (joConditions job) of
           None \<Rightarrow> []
         | Some c \<Rightarrow>
             if ocReason c \<noteq> '''' \<or> ocMessage c \<noteq> ''''
             then [''job '' @ name @ '': '' @ ocReason c @ '': '' @ clip rules (ocMessage c) maxConditionMessage]
             else []))"

fun getChainDepthFromOwner ::
    "'w native_client \<Rightarrow> string \<Rightarrow> OwnerRef list \<Rightarrow> ('w, goerr + int) state" where
  "getChainDepthFromOwner c ns [] = ret (Inr 1)"
| "getChainDepthFromOwner c ns (ow # refs) =
     (if owKind ow \<noteq> ''RemediationJob'' then getChainDepthFromOwner c ns refs
      else do {
        g \<leftarrow> State (ncGetRJob c \<lparr>nnNamespace = ns, nnName = owName ow\<rparr>);
        case g of
          Inl er \<Rightarrow>
            if IsNotFound er then ret (Inr 1)
            else ret (Inl (Wrapped (''jobProvider: reading owner RemediationJob '' @ owName ow) (Api er)))
        | Inr j \<Rightarrow> ret (Inr (fsChainDepth (rjFinding j) + 1)) })"

definition job_ExtractFinding :: "'w native_client \<Rightarrow> redactRule list \<Rightarrow> 'w extractor" where
  "job_ExtractFinding c rules obj = unless_skipped c obj
     (case obj of
        JobO job \<Rightarrow>
          if job_excluded job then ret (Inr None)
          else do {
            depth \<leftarrow> (if is_mechanic_job job
                      then getChainDepthFromOwner c (omNamespace (joMeta job)) (omOwnerReferences (joMeta job))
                      else ret (Inr 0));
            case depth of
              Inl er \<Rightarrow> ret (Inl er)
            | Inr chainDepth \<Rightarrow> do {
                parent \<leftarrow> getParent c (joMeta job) ''Job'';
                ret (Inr (Some ((native_finding ''Job'' (joMeta job) (omNamespace (joMeta job)) parent (job_texts rules job)
                      SeverityMedium)\<lparr>fChainDepth := chainDepth\<rparr>))) } }
      | _ \<Rightarrow> ret (wrong_type ''jobProvider'' ''*batchv1.Job'' obj))"

section \<open>Nodes\<close>

definition ignoredNodeConditions :: "string list" where
  "ignoredNodeConditions = [''EtcdIsVoter'']"

definition not_ready :: "ObjCondition \<Rightarrow> bool" where
  "not_ready c \<longleftrightarrow> ocType c = ''Ready'' \<and> (ocStatus c = ''False'' \<or> ocStatus c = ''Unknown'')"

text \<open>
  The cases of the switch: the pressure conditions and every other condition that is not ignored
  fire when they are true.
\<close>

definition node_condition_fires :: "ObjCondition \<Rightarrow> bool" where
  "node_condition_fires c \<longleftrightarrow>
     (if List.member ignoredNodeConditions (ocType c) then False
      else if ocType c = ''Ready'' then ocStatus c = ''False'' \<or> ocStatus c = ''Unknown''
      else ocStatus c = ''True'')"

definition buildNodeConditionText :: "redactRule list \<Rightarrow> string \<Rightarrow> ObjCondition \<Rightarrow> string" where
  "buildNodeConditionText rules nodeName c =
     ''node '' @ nodeName @ '' has condition '' @ ocType c @ '' ('' @ ocReason c @ ''): '' @
     clip rules (ocMessage c) maxConditionMessage"

definition node_texts :: "redactRule list \<Rightarrow> NodeObject \<Rightarrow> string list" where
  "node_texts rules node =
     map (buildNodeConditionText rules (omName (noMeta node))) (filter node_condition_fires (noConditions node))"

definition computeNodeSeverity :: "NodeObject \<Rightarrow> Severity" where
  "computeNodeSeverity node =
     (if list_ex (\<lambda>c. \<not> List.member ignoredNodeConditions (ocType c) \<and> not_ready c) (noConditions node)
      then SeverityCritical else SeverityHigh)"

definition node_ExtractFinding :: "'w native_client \<Rightarrow> redactRule list \<Rightarrow> 'w extractor" where
  "node_ExtractFinding c rules obj = unless_skipped c obj
     (case obj of
        NodeO node \<Rightarrow>
          if node_texts rules node = [] then ret (Inr None)
          else do {
            parent \<leftarrow> getParent c (noMeta node) ''Node'';
            ret (Inr (Some (native_finding ''Node'' (noMeta node) '''' parent (node_texts rules node)
                  (computeNodeSeverity node)))) }
      | _ \<Rightarrow> ret (wrong_type ''nodeProvider'' ''*corev1.Node'' obj))"

section \<open>Persistent volume claims\<close>

definition provisioning_failed :: "string \<Rightarrow> EventObject \<Rightarrow> bool" where
  "provisioning_failed name ev \<longleftrightarrow>
     eoInvolvedName ev = name \<and> eoInvolvedKind ev = ''PersistentVolumeClaim'' \<and> eoReason ev = ''ProvisioningFailed''"

text \<open>\<open>Inr None\<close>: no such event was found.\<close>

definition latestProvisioningFailedMessage ::
    "'w native_client \<Rightarrow> PVCObject \<Rightarrow> ('w, goerr + string option) state" where
  "latestProvisioningFailedMessage c pvc = do {
     l \<leftarrow> State (ncListEvents c (omNamespace (pvMeta pvc)));
     case l of
       Inl er \<Rightarrow> ret (Inl (Wrapped ''pvcProvider: listing events'' (Api er)))
     | Inr items \<Rightarrow>
         (let failures = filter (provisioning_failed (omName (pvMeta pvc))) items in
          if failures = [] then ret (Inr None)
          else ret (Inr (Some (eoMessage (hd (ncSortEvents c failures)))))) }"

definition pvc_text :: "redactRule list \<Rightarrow> PVCObject \<Rightarrow> string \<Rightarrow> string" where
  "pvc_text rules pvc msg =
     ''pvc '' @ omName (pvMeta pvc) @ '': ProvisioningFailed: '' @ clip rules msg maxCSIEventMessage"

definition pvc_ExtractFinding :: "'w native_client \<Rightarrow> redactRule list \<Rightarrow> 'w extractor" where
  "pvc_ExtractFinding c rules obj = unless_skipped c obj
     (case obj of
        PVCO pvc \<Rightarrow>
          if pvPhase pvc \<noteq> ''Pending'' then ret (Inr None)
          else do {
            e \<leftarrow> latestProvisioningFailedMessage c pvc;
            case e of
              Inl er \<Rightarrow> ret (Inl er)
            | Inr None \<Rightarrow> ret (Inr None)
            | Inr (Some eventMsg) \<Rightarrow> do {
                parent \<leftarrow> getParent c (pvMeta pvc) ''PersistentVolumeClaim'';
                ret (Inr (Some (native_finding ''PersistentVolumeClaim'' (pvMeta pvc) (omNamespace (pvMeta pvc)) parent
                      [pvc_text rules pvc eventMsg] SeverityHigh))) } }
      | _ \<Rightarrow> ret (wrong_type ''pvcProvider'' ''*corev1.PersistentVolumeClaim'' obj))"

text \<open>The providers the watcher enables, in their order.\<close>

definition enabledProviders :: "'w native_client \<Rightarrow> redactRule list \<Rightarrow> 'w extractor list" where
  "enabledProviders c rules =
     [pod_ExtractFinding c rules, deployment_ExtractFinding c rules, pvc_ExtractFinding c rules,
      node_ExtractFinding c rules, statefulset_ExtractFinding c rules, job_ExtractFinding c rules]"

section \<open>The root of the owners\<close>

text \<open>
  The specification of \<open>getParent\<close>: following the first owner reference of every object leads along
  a path to an object without owners.
\<close>

inductive owner_path ::
    "(string \<Rightarrow> NamespacedName \<Rightarrow> api_error + OwnerRef list) \<Rightarrow> string \<Rightarrow> OwnerRef list \<Rightarrow> OwnerRef list \<Rightarrow> bool"
  for f ns where
  top: "owner_path f ns [] []"
| up: "f (owKind ow) \<lparr>nnNamespace = ns, nnName = owName ow\<rparr> = Inr refs' \<Longrightarrow> owner_path f ns refs' ows \<Longrightarrow>
    owner_path f ns (ow # refs) (ow # ows)"

definition root_name :: "string \<Rightarrow> string \<Rightarrow> OwnerRef list \<Rightarrow> string" where
  "root_name kind name ows =
     (if ows = [] then kind_name kind name else kind_name (owKind (last ows)) (owName (last ows)))"

definition reads_owners :: "'w native_client \<Rightarrow> (string \<Rightarrow> NamespacedName \<Rightarrow> api_error + OwnerRef list) \<Rightarrow> bool" where
  "reads_owners c f \<longleftrightarrow> (\<forall>k n w. ncOwners c k n w = (f k n, w))"

lemma parent_loop_root:
  assumes "reads_owners c f"
  shows "owner_path f ns refs ows \<Longrightarrow> length ows \<le> n \<Longrightarrow> distinct (map owUID ows) \<Longrightarrow>
    set visited \<inter> set (map owUID ows) = {} \<Longrightarrow> set (map owKind ows) \<subseteq> set known_kinds \<Longrightarrow>
    run_state (parent_loop c ns n visited kind name refs) w = (root_name kind name ows, w)"
proof (induction arbitrary: n visited kind name rule: owner_path.induct)
  case top
  then show ?case by (cases n) (simp_all add: root_name_def)
next
  case (up ow refs' ows refs)
  then obtain m where n: "n = Suc m" by (cases n) auto
  have "run_state (parent_loop c ns m (owUID ow # visited) (owKind ow) (owName ow) refs') w
      = (root_name (owKind ow) (owName ow) ows, w)"
    using up.prems n by (intro up.IH) auto
  with up n assms show ?case
    by (auto simp: reads_owners_def List.member_iff root_name_def)
qed

lemma getParent_finds_root_aux:
  assumes "reads_owners c f" and "owner_path f (omNamespace m) (omOwnerReferences m) ows"
    and "length ows \<le> maxTraversalDepth" and "distinct (omUID m # map owUID ows)"
    and "set (map owKind ows) \<subseteq> set known_kinds"
  shows "run_state (getParent c m kind) w = (root_name kind (omName m) ows, w)"
proof (cases "omOwnerReferences m = []")
  case True
  with assms(2) have "ows = []" by (auto elim: owner_path.cases)
  with True show ?thesis by (simp add: getParent_def root_name_def)
next
  case False
  then show ?thesis
    unfolding getParent_def using parent_loop_root [OF assms(1,2,3), of "[omUID m]" kind "omName m" w] assms(4,5) by simp
qed


text \<open>
  C27. When the API answers, \<open>getParent\<close> finds the root of the owners: for an object whose chain of
  first owners is at most ten long, repeats no UID and has known kinds only, the result is the kind
  and name of the last owner (of the object itself, when it has none).
\<close>

theorem getParent_finds_root:
  assumes "reads_owners c f" and "owner_path f (omNamespace m) (omOwnerReferences m) ows"
    and "length ows \<le> maxTraversalDepth" and "distinct (omUID m # map owUID ows)"
    and "set (map owKind ows) \<subseteq> set known_kinds"
  shows "run_state (getParent c m kind) w = (root_name kind (omName m) ows, w)"
  by (rule getParent_finds_root_aux [OF assms])
definition sample_owners :: "string \<Rightarrow> NamespacedName \<Rightarrow> api_error + OwnerRef list" where
  "sample_owners kind n =
     (if kind = ''ReplicaSet'' then Inr [\<lparr>owKind = ''Deployment'', owName = ''api'', owUID = ''u2''\<rparr>] else Inr [])"

definition sample_client :: "unit native_client" where
  "sample_client = \<lparr>ncNow = (\<lambda>w. (0, w)), ncOwners = (\<lambda>k n w. (sample_owners k n, w)),
     ncGetRJob = (\<lambda>n w. (Inl NotFound, w)), ncListEvents = (\<lambda>ns w. (Inr [], w)), ncSortEvents = (\<lambda>xs. xs)\<rparr>"

definition sample_meta :: "string \<Rightarrow> ObjectMeta" where
  "sample_meta name = \<lparr>omName = name, omNamespace = ''prod'', omUID = ''u0'', omLabels = Map.empty,
     omAnnotations = Map.empty, omOwnerReferences = [\<lparr>owKind = ''ReplicaSet'', owName = ''api-7f'', owUID = ''u1''\<rparr>],
     omGeneration = 1\<rparr>"

lemma sample_path:
  "reads_owners sample_client sample_owners"
  "owner_path sample_owners ''prod'' (omOwnerReferences (sample_meta name))
     [\<lparr>owKind = ''ReplicaSet'', owName = ''api-7f'', owUID = ''u1''\<rparr>, \<lparr>owKind = ''Deployment'', owName = ''api'', owUID = ''u2''\<rparr>]"
  by (simp_all add: reads_owners_def sample_client_def sample_meta_def sample_owners_def owner_path.intros)

theorem getParent_finds_root_witness:
  "run_state (getParent sample_client (sample_meta ''api-7f-x'') ''Pod'') () = (''Deployment/api'', ())"
proof -
  have "run_state (getParent sample_client (sample_meta ''api-7f-x'') ''Pod'') ()
      = (root_name ''Pod'' (omName (sample_meta ''api-7f-x''))
          [\<lparr>owKind = ''ReplicaSet'', owName = ''api-7f'', owUID = ''u1''\<rparr>, \<lparr>owKind = ''Deployment'', owName = ''api'', owUID = ''u2''\<rparr>], ())"
  proof (rule getParent_finds_root [OF sample_path(1)])
    show "owner_path sample_owners (omNamespace (sample_meta ''api-7f-x'')) (omOwnerReferences (sample_meta ''api-7f-x''))
        [\<lparr>owKind = ''ReplicaSet'', owName = ''api-7f'', owUID = ''u1''\<rparr>, \<lparr>owKind = ''Deployment'', owName = ''api'', owUID = ''u2''\<rparr>]"
      using sample_path(2) by (simp add: sample_meta_def)
  qed (simp_all add: maxTraversalDepth_def sample_meta_def known_kinds_def)
  then show ?thesis by (simp add: root_name_def kind_name_def)
qed

text \<open>A client that counts the owners fetched.\<close>

definition counting :: "'w native_client \<Rightarrow> ('w \<times> nat) native_client" where
  "counting c = \<lparr>ncNow = (\<lambda>(w, n). case ncNow c w of (t, w') \<Rightarrow> (t, (w', n))),
     ncOwners = (\<lambda>k nn (w, n). case ncOwners c k nn w of (x, w') \<Rightarrow> (x, (w', Suc n))),
     ncGetRJob = (\<lambda>nn (w, n). case ncGetRJob c nn w of (x, w') \<Rightarrow> (x, (w', n))),
     ncListEvents = (\<lambda>ns (w, n). case ncListEvents c ns w of (x, w') \<Rightarrow> (x, (w', n))),
     ncSortEvents = ncSortEvents c\<rparr>"

lemma parent_loop_counts:
  "\<exists>k \<le> n. run_state (parent_loop (counting c) ns n visited kind name refs) (w, m)
     = (case run_state (parent_loop c ns n visited kind name refs) w of (p, w') \<Rightarrow> (p, (w', m + k)))"
proof (induction n arbitrary: visited kind name refs w m)
  case (Suc n)
  show ?case
  proof (cases refs)
    case (Cons ow rest)
    obtain x w1 where x: "ncOwners c (owKind ow) \<lparr>nnNamespace = ns, nnName = owName ow\<rparr> w = (x, w1)" by fastforce
    show ?thesis
    proof (cases x)
      case (Inr refs')
      obtain k where "k \<le> n" "run_state (parent_loop (counting c) ns n (owUID ow # visited) (owKind ow) (owName ow) refs') (w1, Suc m)
          = (case run_state (parent_loop c ns n (owUID ow # visited) (owKind ow) (owName ow) refs') w1 of (p, w') \<Rightarrow> (p, (w', Suc m + k)))"
        using Suc.IH by blast
      with Cons x Inr show ?thesis
        by (auto simp: counting_def split: prod.splits intro: exI [of _ 0] exI [of _ "Suc k"])
    qed (use Cons x in \<open>auto simp: counting_def split: prod.splits intro: exI [of _ "Suc 0"]\<close>)
  qed simp
qed simp

text \<open>
  C26. \<open>getParent\<close> always returns, after at most ten fetches, whatever the API answers: also on
  owner references that form a cycle, on objects the API invents anew for every call, and on errors.
\<close>

theorem getParent_terminates:
  "snd (snd (run_state (getParent (counting c) m kind) (w, 0))) \<le> 10
   \<and> fst (run_state (getParent (counting c) m kind) (w, 0)) = fst (run_state (getParent c m kind) w)"
proof -
  obtain k where "k \<le> 10" and k: "run_state (parent_loop (counting c) (omNamespace m) 10 [omUID m] kind (omName m) (omOwnerReferences m)) (w, 0)
      = (case run_state (parent_loop c (omNamespace m) 10 [omUID m] kind (omName m) (omOwnerReferences m)) w of (p, w') \<Rightarrow> (p, (w', 0 + k)))"
    using parent_loop_counts [of 10 c "omNamespace m" "[omUID m]" kind "omName m" "omOwnerReferences m" w 0] by auto
  then show ?thesis by (auto simp: getParent_def maxTraversalDepth_def split: prod.splits)
qed

section \<open>Every finding\<close>

definition result :: "('w, 'a) state \<Rightarrow> 'w \<Rightarrow> 'a" where
  "result m w = fst (run_state m w)"

text \<open>What a finding of a native provider looks like: it names its object, has texts, and a known severity.\<close>

definition good_finding :: "ObjectMeta \<Rightarrow> Finding \<Rightarrow> bool" where
  "good_finding m f \<longleftrightarrow> fName f = omName m \<and> fNamespace f \<in> {omNamespace m, ''''} \<and> fDetails f = ''''
     \<and> fSeverity f \<in> {SeverityMedium, SeverityHigh, SeverityCritical}
     \<and> (\<exists>ts. ts \<noteq> [] \<and> fErrors f = marshal_errors ts)"

lemma result_bind: "result (State_Monad.bind m k) w = result (k (result m w)) (snd (run_state m w))"
  by (simp add: result_def split: prod.splits)

lemma result_return [simp]: "result (ret x) w = x"
  by (simp add: result_def)

lemma unless_skipped_Some:
  "result (unless_skipped c obj k) w = Inr (Some f) \<Longrightarrow> \<exists>w'. result k w' = Inr (Some f)"
  by (auto simp: unless_skipped_def result_bind split: if_splits)

lemma good_native:
  "ts \<noteq> [] \<Longrightarrow> sev \<in> {SeverityMedium, SeverityHigh, SeverityCritical} \<Longrightarrow> ns \<in> {omNamespace m, ''''} \<Longrightarrow>
     good_finding m (native_finding kind m ns parent ts sev)"
  by (auto simp: good_finding_def native_finding_def)

lemma good_update [simp]:
  "good_finding m (f\<lparr>fNodeName := x\<rparr>) = good_finding m f" "good_finding m (f\<lparr>fChainDepth := d\<rparr>) = good_finding m f"
  by (simp_all add: good_finding_def)

lemma raise_to_known: "s \<in> {SeverityMedium, SeverityHigh, SeverityCritical} \<Longrightarrow>
    raise_to SeverityHigh s \<in> {SeverityMedium, SeverityHigh, SeverityCritical}"
  by (auto simp: raise_to_def)

lemma pod_severity_loop_known:
  "pod_severity_loop s css = Some v \<Longrightarrow> s \<in> {SeverityMedium, SeverityHigh, SeverityCritical} \<Longrightarrow>
     v \<in> {SeverityMedium, SeverityHigh, SeverityCritical}"
proof (induction css arbitrary: s)
  case (Cons cs css)
  then show ?case using raise_to_known [OF Cons.prems(2)] by (auto split: option.splits if_splits)
qed simp

lemma severities_known:
  "computePodSeverity pod \<in> {SeverityMedium, SeverityHigh, SeverityCritical}"
  "computeDeploymentSeverity a b fired \<in> {SeverityMedium, SeverityHigh, SeverityCritical}"
  "computeStatefulSetSeverity a b fired \<in> {SeverityMedium, SeverityHigh, SeverityCritical}"
  "computeNodeSeverity node \<in> {SeverityMedium, SeverityHigh, SeverityCritical}"
  by (auto simp: computeDeploymentSeverity_def computeStatefulSetSeverity_def computeNodeSeverity_def)
    (auto simp: computePodSeverity_def raise_to_def dest: pod_severity_loop_known split: option.splits if_splits)

lemma good_findings:
  "result (pod_ExtractFinding c rules obj) w = Inr (Some f) \<Longrightarrow> good_finding (object_meta obj) f"
  "result (deployment_ExtractFinding c rules obj) w = Inr (Some f) \<Longrightarrow> good_finding (object_meta obj) f"
  "result (statefulset_ExtractFinding c rules obj) w = Inr (Some f) \<Longrightarrow> good_finding (object_meta obj) f"
  "result (job_ExtractFinding c rules obj) w = Inr (Some f) \<Longrightarrow> good_finding (object_meta obj) f"
  "result (node_ExtractFinding c rules obj) w = Inr (Some f) \<Longrightarrow> good_finding (object_meta obj) f"
  "result (pvc_ExtractFinding c rules obj) w = Inr (Some f) \<Longrightarrow> good_finding (object_meta obj) f"
proof -
  note cases = wrong_type_def result_bind Let_def
  show "result (pod_ExtractFinding c rules obj) w = Inr (Some f) \<Longrightarrow> good_finding (object_meta obj) f"
    by (cases obj) (auto simp: pod_ExtractFinding_def cases
        dest!: unless_skipped_Some intro!: good_native severities_known split: if_splits)
  show "result (deployment_ExtractFinding c rules obj) w = Inr (Some f) \<Longrightarrow> good_finding (object_meta obj) f"
    by (cases obj) (auto simp: deployment_ExtractFinding_def cases
        dest!: unless_skipped_Some intro!: good_native severities_known split: if_splits)
  show "result (statefulset_ExtractFinding c rules obj) w = Inr (Some f) \<Longrightarrow> good_finding (object_meta obj) f"
    by (cases obj) (auto simp: statefulset_ExtractFinding_def cases
        dest!: unless_skipped_Some intro!: good_native severities_known split: if_splits)
  show "result (job_ExtractFinding c rules obj) w = Inr (Some f) \<Longrightarrow> good_finding (object_meta obj) f"
    by (cases obj) (auto simp: job_ExtractFinding_def job_texts_def cases
        dest!: unless_skipped_Some intro!: good_native split: if_splits sum.splits)
  show "result (node_ExtractFinding c rules obj) w = Inr (Some f) \<Longrightarrow> good_finding (object_meta obj) f"
    by (cases obj) (auto simp: node_ExtractFinding_def cases
        dest!: unless_skipped_Some intro!: good_native severities_known split: if_splits)
  show "result (pvc_ExtractFinding c rules obj) w = Inr (Some f) \<Longrightarrow> good_finding (object_meta obj) f"
    by (cases obj) (auto simp: pvc_ExtractFinding_def cases
        dest!: unless_skipped_Some intro!: good_native split: if_splits sum.splits option.splits)
qed

lemma good_fingerprint:
  assumes "good_finding m f"
  shows "\<exists>fp. fingerprint_of f = Inr fp \<and> length fp = 64 \<and> list_all is_hex fp"
proof -
  from assms obtain ts where "fErrors f = marshal_errors ts" by (auto simp: good_finding_def)
  then have "\<exists>fp. FindingFingerprint f = Inr fp \<and> length fp = 64 \<and> list_all is_hex fp"
    by (auto simp: FindingFingerprint_alt error_texts_marshal Sprintf_x_length Sum256_length list_all_iff dest: Sprintf_x_hex)
  then show ?thesis by (auto simp: fingerprint_of_def)
qed

text \<open>
  C15. From the watched object to the fingerprint: whatever an enabled provider extracts from
  whatever object and whatever the API answers, the finding names the object, carries a severity
  the threshold knows and at least one error text, and the reconciler computes a fingerprint of 64
  hexadecimal digits for it. So the three error branches (malformed errors, a fingerprint that is
  too short, an unknown severity) are never taken for a native finding.
\<close>

theorem native_findings_fingerprinted:
  assumes "extract \<in> set (enabledProviders c rules)" and "result (extract obj) w = Inr (Some f)"
  shows "good_finding (object_meta obj) f
    \<and> (\<exists>fp. fingerprint_of f = Inr fp \<and> length fp = 64 \<and> list_all is_hex fp)"
proof -
  have "good_finding (object_meta obj) f"
    using assms good_findings [of c rules obj w f] by (auto simp: enabledProviders_def)
  then show ?thesis using good_fingerprint by blast
qed

definition sample_pod :: "string \<Rightarrow> string \<Rightarrow> PodObject" where
  "sample_pod name node = \<lparr>poMeta = sample_meta name,
     poContainerStatuses = [\<lparr>csName = ''web'', csWaiting = Some \<lparr>waReason = ''CrashLoopBackOff'', waMessage = ''''\<rparr>,
       csTerminated = None, csLastTerminated = None, csRestartCount = 2\<rparr>],
     poInitContainerStatuses = [], poPhase = ''Running'', poConditions = [], poNodeName = node\<rparr>"

lemma sample_pod_texts: "pod_texts rules (sample_pod name node) = [''container web: CrashLoopBackOff'']"
  by (simp add: pod_texts_def allStatuses_def sample_pod_def status_texts_def waitingReasons_def buildCrashLoopText_def)

lemma sample_pod_extract:
  "result (pod_ExtractFinding sample_client [] (PodO (sample_pod name node))) () = Inr (Some
     ((native_finding ''Pod'' (sample_meta name) ''prod'' ''Deployment/api'' [''container web: CrashLoopBackOff'']
        SeverityHigh)\<lparr>fNodeName := node\<rparr>))"
proof -
  have "run_state (getParent sample_client (sample_meta name) ''Pod'') () = (''Deployment/api'', ())"
    by (simp add: getParent_def maxTraversalDepth_def eval_nat_numeral sample_meta_def sample_client_def sample_owners_def
        known_kinds_def kind_name_def)
  moreover have "\<not> ShouldSkip (omAnnotations (sample_meta name)) t" for t
    by (simp add: ShouldSkip_def sample_meta_def map_get_def)
  moreover have "computePodSeverity (sample_pod name node) = SeverityHigh"
    by (simp add: computePodSeverity_def allStatuses_def sample_pod_def raise_to_def)
  ultimately show ?thesis
    by (simp add: pod_ExtractFinding_def unless_skipped_def result_bind sample_pod_texts sample_client_def)
      (simp add: result_def sample_pod_def sample_meta_def)
qed

theorem native_findings_fingerprinted_witness:
  "\<exists>f fp. result (pod_ExtractFinding sample_client [] (PodO (sample_pod ''api-1'' ''node-a''))) () = Inr (Some f)
     \<and> fingerprint_of f = Inr fp \<and> length fp = 64"
proof -
  have "pod_ExtractFinding sample_client [] \<in> set (enabledProviders sample_client [])"
    by (simp add: enabledProviders_def)
  from native_findings_fingerprinted [OF this sample_pod_extract [of "''api-1''" "''node-a''"]] sample_pod_extract
  show ?thesis by blast
qed

section \<open>Replicas of one workload\<close>

text \<open>Another pod of the same workload in the same state: another name, another UID, another node.\<close>

definition sibling :: "PodObject \<Rightarrow> string \<Rightarrow> string \<Rightarrow> string \<Rightarrow> PodObject" where
  "sibling p name uid node = p\<lparr>poMeta := (poMeta p)\<lparr>omName := name, omUID := uid\<rparr>, poNodeName := node\<rparr>"

lemma pod_texts_sibling [simp]: "pod_texts rules (sibling p name uid node) = pod_texts rules p"
  by (simp add: pod_texts_def allStatuses_def sibling_def)

lemma FindingFingerprint_anchor:
  "fNamespace f = fNamespace g \<Longrightarrow> fKind f = fKind g \<Longrightarrow> fParentObject f = fParentObject g \<Longrightarrow> fErrors f = fErrors g \<Longrightarrow>
     FindingFingerprint f = FindingFingerprint g"
  by (simp add: FindingFingerprint_alt split: option.splits)

text \<open>
  C14. The replicas of a workload count as one problem: when the owners of a failing pod can be
  read and lead to a root, every other pod of that workload in the same state gives a finding with
  the same fingerprint, whatever its name, UID and node, so that the reconciler deduplicates them.
\<close>

theorem replicas_share_fingerprint:
  assumes "reads_owners c f" and "owner_path f (omNamespace (poMeta p)) (omOwnerReferences (poMeta p)) ows" and "ows \<noteq> []"
    and "length ows \<le> maxTraversalDepth" and "set (map owKind ows) \<subseteq> set known_kinds"
    and "distinct (omUID (poMeta p) # map owUID ows)" and "uid \<notin> set (map owUID ows)"
    and "result (pod_ExtractFinding c rules (PodO p)) w = Inr (Some fi)"
  shows "\<exists>g. result (pod_ExtractFinding c rules (PodO (sibling p name uid node))) w = Inr (Some g)
    \<and> FindingFingerprint g = FindingFingerprint fi"
proof -
  let ?root = "kind_name (owKind (last ows)) (owName (last ows))" and ?q = "sibling p name uid node"
  have root: "result (getParent c (poMeta p) ''Pod'') v = ?root" "result (getParent c (poMeta ?q) ''Pod'') v = ?root" for v
    using getParent_finds_root_aux [OF assms(1), of "poMeta p" ows "''Pod''" v]
      getParent_finds_root_aux [OF assms(1), of "poMeta ?q" ows "''Pod''" v] assms(2-7)
    by (simp_all add: sibling_def root_name_def result_def)
  have same: "omAnnotations (poMeta ?q) = omAnnotations (poMeta p)" by (simp add: sibling_def)
  from assms(8) have fi: "fi = (native_finding ''Pod'' (poMeta p) (omNamespace (poMeta p)) ?root (pod_texts rules p)
      (computePodSeverity p))\<lparr>fNodeName := poNodeName p\<rparr>" "pod_texts rules p \<noteq> []"
    "\<not> ShouldSkip (omAnnotations (poMeta p)) (result (State (ncNow c)) w)"
    by (auto simp: pod_ExtractFinding_def unless_skipped_def result_bind root split: if_splits)
  then have "result (pod_ExtractFinding c rules (PodO ?q)) w = Inr (Some ((native_finding ''Pod'' (poMeta ?q)
      (omNamespace (poMeta ?q)) ?root (pod_texts rules p) (computePodSeverity ?q))\<lparr>fNodeName := poNodeName ?q\<rparr>))"
    by (simp add: pod_ExtractFinding_def unless_skipped_def result_bind same root)
  then show ?thesis
    by (auto intro!: FindingFingerprint_anchor simp: fi native_finding_def sibling_def)
qed

theorem replicas_share_fingerprint_witness:
  "\<exists>g. result (pod_ExtractFinding sample_client [] (PodO (sibling (sample_pod ''api-1'' ''node-a'') ''api-2'' ''u9'' ''node-b''))) ()
      = Inr (Some g)"
proof -
  have "\<exists>g. result (pod_ExtractFinding sample_client [] (PodO (sibling (sample_pod ''api-1'' ''node-a'') ''api-2'' ''u9'' ''node-b''))) ()
      = Inr (Some g) \<and> FindingFingerprint g = FindingFingerprint ((native_finding ''Pod'' (sample_meta ''api-1'') ''prod'' ''Deployment/api''
        [''container web: CrashLoopBackOff''] SeverityHigh)\<lparr>fNodeName := ''node-a''\<rparr>)"
    by (rule replicas_share_fingerprint [OF sample_path(1), where ows = "[\<lparr>owKind = ''ReplicaSet'', owName = ''api-7f'', owUID = ''u1''\<rparr>,
         \<lparr>owKind = ''Deployment'', owName = ''api'', owUID = ''u2''\<rparr>]"])
      (use sample_path(2) [of "''api-1''"] sample_pod_extract [of "''api-1''" "''node-a''"] in
        \<open>simp_all add: sample_pod_def sample_meta_def maxTraversalDepth_def known_kinds_def\<close>)
  then show ?thesis by blast
qed

section \<open>Self-remediation\<close>

abbreviation depth_of :: "RemediationJob \<Rightarrow> int" where
  "depth_of j \<equiv> fsChainDepth (rjFinding j)"

text \<open>The owner the job builder gives to the agent's job.\<close>

definition owned_by :: "RemediationJob \<Rightarrow> OwnerRef list" where
  "owned_by j = [\<lparr>owKind = ''RemediationJob'', owName = rjName j, owUID = rjUID j\<rparr>]"

lemma agent_job_depth:
  assumes "is_mechanic_job job" and "omOwnerReferences (joMeta job) = owned_by parent"
    and "\<And>w. fst (ncGetRJob c \<lparr>nnNamespace = omNamespace (joMeta job), nnName = rjName parent\<rparr> w) = Inr parent"
    and "result (job_ExtractFinding c rules (JobO job)) w = Inr (Some f)"
  shows "fChainDepth f = depth_of parent + 1"
proof -
  have "result (getChainDepthFromOwner c (omNamespace (joMeta job)) (owned_by parent)) w' = Inr (depth_of parent + 1)" for w'
    using assms(3) [of w'] by (simp add: owned_by_def result_bind) (simp add: result_def)
  then show ?thesis
    using assms(1,2,4)
    by (auto simp: job_ExtractFinding_def result_bind dest!: unless_skipped_Some split: if_splits)
qed

definition creates_within :: "Config \<Rightarrow> int \<Rightarrow> effect \<Rightarrow> bool" where
  "creates_within cfg d ef \<longleftrightarrow>
     (\<forall>k x. ef = CreateRJob k x \<longrightarrow> depth_of k = int32 d \<and> (d > 0 \<longrightarrow> d \<le> SelfRemediationMaxDepth cfg))"

lemma handle_finding_depth: "emits (creates_within (spCfg r) (fChainDepth f)) (handle_finding r m req obj f)"
proof -
  let ?ok = "fChainDepth f > 0 \<longrightarrow> SelfRemediationMaxDepth (spCfg r) \<noteq> 0 \<and> fChainDepth f \<le> SelfRemediationMaxDepth (spCfg r)"
  have last: "emits (creates_within (spCfg r) (fChainDepth f)) (case fingerprint_of f of Inl er \<Rightarrow> ret (fail er)
      | Inr fp \<Rightarrow> handle_fingerprint r m req obj f fp)" if ?ok
    using that by (auto intro!: emits_rules handle_fingerprint_emits simp: creates_within_def new_rjob_def Let_def split: sum.splits)
  show ?thesis
    unfolding handle_finding_def
    by (intro emits_gate [OF _ passes_trivial] emits_gate [OF _ passes_depth] stage_emits last) (simp_all add: creates_within_def)
qed

text \<open>
  C16. Self-remediation ends: when a job of the agent fails and its owner can be read, the finding
  about it is one level deeper than the owner, and a \<open>RemediationJob\<close> created for the finding has
  exactly that depth and never more than \<open>SelfRemediationMaxDepth\<close>. So along a chain of agents that
  investigate each other's failures the depth grows by one at each link and is bounded.
\<close>

theorem self_remediation_bounded:
  assumes "is_mechanic_job job" and "omOwnerReferences (joMeta job) = owned_by parent"
    and "\<And>w. fst (ncGetRJob c \<lparr>nnNamespace = omNamespace (joMeta job), nnName = rjName parent\<rparr> w) = Inr parent"
    and "result (job_ExtractFinding c rules (JobO job)) w = Inr (Some f)"
    and "0 \<le> depth_of parent" and "SelfRemediationMaxDepth (spCfg r) \<le> 10"
  shows "\<exists>es. trace (snd (run_state (handle_finding r m req obj f) s)) = trace s @ es
    \<and> (\<forall>k x. CreateRJob k x \<in> set es \<longrightarrow>
         depth_of k = depth_of parent + 1 \<and> depth_of k \<le> SelfRemediationMaxDepth (spCfg r))"
proof -
  let ?d = "depth_of parent + 1"
  have "emits (creates_within (spCfg r) ?d) (handle_finding r m req obj f)"
    using handle_finding_depth [of r f m req obj] unfolding agent_job_depth [OF assms(1-4)] .
  then obtain es where es: "trace (snd (run_state (handle_finding r m req obj f) s)) = trace s @ es"
    "list_all (creates_within (spCfg r) ?d) es"
    unfolding emits_def does_def by blast
  have "depth_of k = ?d \<and> depth_of k \<le> SelfRemediationMaxDepth (spCfg r)" if "CreateRJob k x \<in> set es" for k x
  proof -
    from that es(2) have "depth_of k = int32 ?d" "?d \<le> SelfRemediationMaxDepth (spCfg r)"
      using assms(5) by (auto simp: list_all_iff creates_within_def)
    moreover from this(2) have "int32 ?d = ?d" using assms(5,6) by (intro int32_id) simp_all
    ultimately show ?thesis by simp
  qed
  with es(1) show ?thesis by blast
qed

definition sample_parent :: RemediationJob where
  "sample_parent = sample_rjob ''mechanic-abc'' 0 (sample_finding ''Pod'' ''api-1'' ''api'') PhaseFailed"

definition failed_agent :: JobObject where
  "failed_agent = \<lparr>joMeta = \<lparr>omName = ''mechanic-agent-abc'', omNamespace = ''mechanic'', omUID = ''u5'',
       omLabels = [''app.kubernetes.io/managed-by'' \<mapsto> ''mechanic-watcher''], omAnnotations = Map.empty,
       omOwnerReferences = owned_by sample_parent, omGeneration = 1\<rparr>,
     joConditions = [], joFailed = 2, joActive = 0, joCompletionTime = None\<rparr>"

definition agent_client :: "unit native_client" where
  "agent_client = sample_client\<lparr>ncGetRJob := \<lambda>n w. (Inr sample_parent, w)\<rparr>"

lemma failed_agent_extract:
  "\<exists>f. result (job_ExtractFinding agent_client [] (JobO failed_agent)) () = Inr (Some f)"
  by (simp add: job_ExtractFinding_def unless_skipped_def result_bind job_excluded_def failed_agent_def owned_by_def
      is_mechanic_job_def map_get_def ShouldSkip_def) (simp add: result_def agent_client_def split: prod.splits)

theorem self_remediation_bounded_witness:
  "\<exists>f es. result (job_ExtractFinding agent_client [] (JobO failed_agent)) () = Inr (Some f)
     \<and> trace (snd (run_state (handle_finding sample_reconciler (NewBoundedMap 1000 Hour 0 0)
          \<lparr>nnNamespace = ''mechanic'', nnName = ''mechanic-agent-abc''\<rparr> (Map.empty, None) f) (start empty_cluster))) = es
     \<and> (\<forall>k x. CreateRJob k x \<in> set es \<longrightarrow> depth_of k = 1)"
proof -
  obtain f where f: "result (job_ExtractFinding agent_client [] (JobO failed_agent)) () = Inr (Some f)"
    using failed_agent_extract by blast
  have job: "is_mechanic_job failed_agent" "omOwnerReferences (joMeta failed_agent) = owned_by sample_parent"
    by (simp_all add: is_mechanic_job_def failed_agent_def map_get_def)
  have get: "fst (ncGetRJob agent_client \<lparr>nnNamespace = omNamespace (joMeta failed_agent), nnName = rjName sample_parent\<rparr> w)
      = Inr sample_parent" for w
    by (simp add: agent_client_def)
  have zero: "depth_of sample_parent = 0" by (simp add: sample_parent_def sample_rjob_def sample_spec_def sample_finding_def)
  have "SelfRemediationMaxDepth (spCfg sample_reconciler) \<le> 10" by (simp add: sample_reconciler_def default_Config_def)
  from self_remediation_bounded [OF job get f _ this, of "NewBoundedMap 1000 Hour 0 0" _ "(Map.empty, None)" "start empty_cluster"] zero f
  show ?thesis by (simp add: start_def)
qed

section \<open>Severity of workloads\<close>

text \<open>
  The severity of a deployment with some but not all replicas ready: with an odd number of
  replicas, having just under half of them ready is graded medium, not high, because the half is
  rounded down (for stateful sets alike). With an even number the grade is high exactly below half.
\<close>

theorem half_ready_rounds_down:
  assumes "0 < k"
  shows "computeDeploymentSeverity k (2 * k + 1) True = SeverityMedium
    \<and> (computeDeploymentSeverity ready (2 * k) True = SeverityHigh \<longleftrightarrow> ready \<noteq> 0 \<and> ready < k)
    \<and> computeStatefulSetSeverity ready spec fired = computeDeploymentSeverity ready spec fired"
  using assms by (simp add: computeDeploymentSeverity_def computeStatefulSetSeverity_def)

theorem half_ready_rounds_down_witness: "computeDeploymentSeverity 1 3 True = SeverityMedium"
  using half_ready_rounds_down [of 1] by simp

end
