(* ===== verification/Readiness.thy ===== *)
theory Readiness
  imports Config
begin

text \<open>
  The readiness checks (\<open>src/internal/readiness\<close>) that gate the creation of a \<open>RemediationJob\<close>:
  the checkers of the two secrets the agent needs, the checker that joins several, and the
  cache in front of a checker. A checker is a state transformer on the world it probes; \<open>None\<close> is Go's nil error.
\<close>

section \<open>Checkers\<close>

type_synonym 'w checker = "('w, goerr option) state"

text \<open>
  \<open>allChecker.Check\<close>: every checker in order, all errors joined; \<open>ctxErr\<close> is \<open>ctx.Err()\<close>, asked
  before every checker, and a cancelled context ends the loop. \<open>errors.Join\<close> of nothing is nil.
\<close>

fun collect_errors :: "('w, goerr option) state \<Rightarrow> 'w checker list \<Rightarrow> ('w, goerr list) state" where
  "collect_errors ctxErr [] = ret []"
| "collect_errors ctxErr (c # cs) = do {
     e \<leftarrow> ctxErr;
     case e of
       Some er \<Rightarrow> ret [er]
     | None \<Rightarrow> do {
         r \<leftarrow> c;
         ers \<leftarrow> collect_errors ctxErr cs;
         ret (case r of None \<Rightarrow> ers | Some er \<Rightarrow> er # ers) } }"

definition errors_Join :: "goerr list \<Rightarrow> goerr option" where
  "errors_Join ers = (if ers = [] then None else Some (Joined ers))"

definition All_Check :: "('w, goerr option) state \<Rightarrow> 'w checker list \<Rightarrow> 'w checker" where
  "All_Check ctxErr cs = do { ers \<leftarrow> collect_errors ctxErr cs; ret (errors_Join ers) }"

definition NopChecker_Check :: "'w checker" where
  "NopChecker_Check = ret None"

text \<open>The secrets, as the API gives them: the data of the secret or an error.\<close>

type_synonym 'w secrets = "string \<Rightarrow> string \<Rightarrow> ('w, api_error + (string \<rightharpoonup> string)) state"

fun first_missing :: "string list \<Rightarrow> (string \<rightharpoonup> string) \<Rightarrow> string option" where
  "first_missing [] d = None"
| "first_missing (k # ks) d =
     (case d k of None \<Rightarrow> Some k | Some v \<Rightarrow> if length v = 0 then Some k else first_missing ks d)"

definition quoted :: "string \<Rightarrow> string" where
  "quoted s = CHR 0x22 # s @ [CHR 0x22]"

definition secret_check :: "string \<Rightarrow> 'w secrets \<Rightarrow> string \<Rightarrow> string \<Rightarrow> string list \<Rightarrow> 'w checker" where
  "secret_check who secrets ns name keys = do {
     s \<leftarrow> secrets ns name;
     ret (case s of
         Inl er \<Rightarrow> Some (Wrapped (who @ '': secret '' @ quoted name @ '' not found in namespace '' @ quoted ns) (Api er))
       | Inr d \<Rightarrow>
           (case first_missing keys d of
              None \<Rightarrow> None
            | Some k \<Rightarrow> Some (Msg (who @ '': secret '' @ quoted name @ '' is missing required key '' @ quoted k)))) }"

definition requiredLLMKeys :: "string list" where
  "requiredLLMKeys = [''provider-config'']"

definition OpenAIChecker_Check :: "'w secrets \<Rightarrow> string \<Rightarrow> string \<Rightarrow> 'w checker" where
  "OpenAIChecker_Check secrets ns agentType =
     secret_check ''llm/openai'' secrets ns (''llm-credentials-'' @ agentType) requiredLLMKeys"

definition requiredGitHubAppKeys :: "string list" where
  "requiredGitHubAppKeys = [''app-id'', ''installation-id'', ''private-key'']"

definition githubAppSecretName :: string where
  "githubAppSecretName = ''github-app''"

definition GitHubAppChecker_Check :: "'w secrets \<Rightarrow> string \<Rightarrow> 'w checker" where
  "GitHubAppChecker_Check secrets ns =
     secret_check ''sink/github-app'' secrets ns githubAppSecretName requiredGitHubAppKeys"

definition BedrockChecker_Check :: "'w checker" where
  "BedrockChecker_Check = ret (Some (Msg ''llm/bedrock: checker not yet implemented''))"

definition VertexChecker_Check :: "'w checker" where
  "VertexChecker_Check = ret (Some (Msg ''llm/vertex: checker not yet implemented''))"

section \<open>The cache\<close>

record CachedChecker =
  ccTtl :: duration
  ccLastCheck :: gotime
  ccLastErr :: "goerr option"

definition NewCachedChecker :: "duration \<Rightarrow> CachedChecker" where
  "NewCachedChecker ttl = \<lparr>ccTtl = ttl, ccLastCheck = 0, ccLastErr = None\<rparr>"

text \<open>The two sections under the lock: reading the cache at a time, and storing a result.\<close>

definition cached_answer :: "CachedChecker \<Rightarrow> gotime \<Rightarrow> goerr option option" where
  "cached_answer c t =
     (if ccTtl c > 0 \<and> \<not> time_IsZero (ccLastCheck c) \<and> time_Sub t (ccLastCheck c) < ccTtl c
      then Some (ccLastErr c) else None)"

definition store_answer :: "goerr option \<Rightarrow> gotime \<Rightarrow> CachedChecker \<Rightarrow> CachedChecker" where
  "store_answer er t c = c\<lparr>ccLastErr := er, ccLastCheck := t\<rparr>"

text \<open>\<open>Check\<close> of a single caller; the state is the world and the cache.\<close>

definition CachedChecker_Check ::
    "('w \<Rightarrow> gotime \<times> 'w) \<Rightarrow> 'w checker \<Rightarrow> ('w \<times> CachedChecker, goerr option) state" where
  "CachedChecker_Check clock inner = State (\<lambda>(w, c).
     let (hit, w1) = (if ccTtl c > 0 \<and> \<not> time_IsZero (ccLastCheck c)
           then (case clock w of (t1, w') \<Rightarrow> (cached_answer c t1, w')) else (None, w)) in
     case hit of
       Some er \<Rightarrow> (er, (w1, c))
     | None \<Rightarrow>
         (case run_state inner w1 of (er, w2) \<Rightarrow>
            (case clock w2 of (t2, w3) \<Rightarrow> (er, (w3, store_answer er t2 c)))))"

text \<open>
  The checker \<open>main\<close> wires in front of the reconcilers: the cached checker of the sink (none but for
  GitHub) and the cached checker of the language model, joined. The state is the world with the two caches.
\<close>

definition lift_sink :: "('w \<times> CachedChecker, 'a) state \<Rightarrow> ('w \<times> CachedChecker \<times> CachedChecker, 'a) state" where
  "lift_sink m = State (\<lambda>(w, a, b). case run_state m (w, a) of (x, (w', a')) \<Rightarrow> (x, (w', a', b)))"

definition lift_llm :: "('w \<times> CachedChecker, 'a) state \<Rightarrow> ('w \<times> CachedChecker \<times> CachedChecker, 'a) state" where
  "lift_llm m = State (\<lambda>(w, a, b). case run_state m (w, b) of (x, (w', b')) \<Rightarrow> (x, (w', a, b')))"

definition combinedChecker ::
    "('w \<Rightarrow> gotime \<times> 'w) \<Rightarrow> 'w secrets \<Rightarrow> ('w \<times> CachedChecker \<times> CachedChecker, goerr option) state \<Rightarrow> Config
       \<Rightarrow> ('w \<times> CachedChecker \<times> CachedChecker) checker" where
  "combinedChecker clock secrets ctxErr cfg =
     (let sinkChecker = (if SinkType cfg = ''github''
            then lift_sink (CachedChecker_Check clock (GitHubAppChecker_Check secrets (AgentNamespace cfg)))
            else NopChecker_Check);
          llmChecker = lift_llm (CachedChecker_Check clock (OpenAIChecker_Check secrets (AgentNamespace cfg) (cfgAgentType cfg)))
      in All_Check ctxErr [sinkChecker, llmChecker])"

section \<open>The cache under concurrency\<close>

text \<open>
  The lock is not held while the inner check runs, so that several callers may be inside it. A step
  is one of the sections under the lock: a caller finds an answer, a caller misses and starts the
  inner check, or one of the callers inside it comes back with a result and stores it. The history
  of completed checks and of the answers given is recorded.
\<close>

record cc_state =
  cs_cache :: CachedChecker
  cs_running :: nat
  cs_done :: "(gotime \<times> goerr option) list"
  cs_answers :: "(gotime \<times> goerr option) list"

inductive cc_step :: "cc_state \<Rightarrow> cc_state \<Rightarrow> bool" where
  hit: "cached_answer (cs_cache s) t = Some er \<Longrightarrow> cc_step s (s\<lparr>cs_answers := cs_answers s @ [(t, er)]\<rparr>)"
| miss: "cached_answer (cs_cache s) t = None \<Longrightarrow> cc_step s (s\<lparr>cs_running := Suc (cs_running s)\<rparr>)"
| finish: "cs_running s = Suc n \<Longrightarrow>
    cc_step s \<lparr>cs_cache = store_answer er t (cs_cache s), cs_running = n,
      cs_done = cs_done s @ [(t, er)], cs_answers = cs_answers s @ [(t, er)]\<rparr>"

inductive cc_reachable :: "duration \<Rightarrow> cc_state \<Rightarrow> bool" for ttl where
  start: "cc_reachable ttl \<lparr>cs_cache = NewCachedChecker ttl, cs_running = 0, cs_done = [], cs_answers = []\<rparr>"
| move: "cc_reachable ttl s \<Longrightarrow> cc_step s s' \<Longrightarrow> cc_reachable ttl s'"

inductive_cases cc_stepE: "cc_step s s'"

definition fresh :: "duration \<Rightarrow> (gotime \<times> goerr option) list \<Rightarrow> gotime \<times> goerr option \<Rightarrow> bool" where
  "fresh ttl done = (\<lambda>(t, er). \<exists>t'. (t', er) \<in> set done \<and> (t' = t \<or> time_Sub t t' < ttl))"

definition cc_inv :: "duration \<Rightarrow> cc_state \<Rightarrow> bool" where
  "cc_inv ttl s \<longleftrightarrow> ccTtl (cs_cache s) = ttl
     \<and> (\<not> time_IsZero (ccLastCheck (cs_cache s)) \<longrightarrow> (ccLastCheck (cs_cache s), ccLastErr (cs_cache s)) \<in> set (cs_done s))
     \<and> list_all (fresh ttl (cs_done s)) (cs_answers s)"

lemma fresh_mono: "fresh ttl ds x \<Longrightarrow> fresh ttl (ds @ es) x"
  by (auto simp: fresh_def)

lemma cc_step_inv: "cc_step s s' \<Longrightarrow> cc_inv ttl s \<Longrightarrow> cc_inv ttl s'"
proof (induction rule: cc_step.induct)
  case (hit s t er)
  then have "fresh ttl (cs_done s) (t, er)"
    by (auto simp: cached_answer_def cc_inv_def fresh_def split: if_splits)
  with hit show ?case by (simp add: cc_inv_def)
next
  case (finish s n er t)
  then show ?case
    by (auto simp: cc_inv_def store_answer_def fresh_mono list_all_iff) (auto simp: fresh_def)
qed (simp add: cc_inv_def)

lemma cc_reachable_inv: "cc_reachable ttl s \<Longrightarrow> cc_inv ttl s"
proof (induction rule: cc_reachable.induct)
  case start
  then show ?case by (simp add: cc_inv_def NewCachedChecker_def time_IsZero_def)
qed (rule cc_step_inv)

text \<open>
  C39. No stale answers: however many callers race on the cache, every answer it gives is the result
  of an inner check that completed at that moment or less than the time to live before.
\<close>

theorem cached_answers_fresh:
  assumes "cc_reachable ttl s" and "(t, er) \<in> set (cs_answers s)"
  shows "\<exists>t'. (t', er) \<in> set (cs_done s) \<and> (t' = t \<or> time_Sub t t' < ttl)"
  using cc_reachable_inv [OF assms(1)] assms(2) by (auto simp: cc_inv_def list_all_iff fresh_def)

theorem cached_answers_fresh_witness:
  "\<exists>t'. (t', None) \<in> set [(100 * Second, None :: goerr option)] \<and> (t' = 130 * Second \<or> time_Sub (130 * Second) t' < 60 * Second)"
proof -
  let ?s0 = "\<lparr>cs_cache = NewCachedChecker (60 * Second), cs_running = 0, cs_done = [], cs_answers = []\<rparr>"
  let ?s1 = "?s0\<lparr>cs_running := Suc 0\<rparr>"
  let ?s2 = "\<lparr>cs_cache = store_answer None (100 * Second) (cs_cache ?s1), cs_running = 0,
      cs_done = [(100 * Second, None)], cs_answers = [(100 * Second, None)]\<rparr>"
  have s1: "cc_step ?s0 ?s1"
    using cc_step.miss [of ?s0 0] by (simp add: cached_answer_def NewCachedChecker_def time_IsZero_def)
  have s2: "cc_step ?s1 ?s2" using cc_step.finish [of ?s1 0 None "100 * Second"] by simp
  have s3: "cc_step ?s2 (?s2\<lparr>cs_answers := cs_answers ?s2 @ [(130 * Second, None)]\<rparr>)"
    by (rule cc_step.hit)
      (simp add: cached_answer_def store_answer_def NewCachedChecker_def time_IsZero_def time_Sub_def Second_def)
  from cached_answers_fresh [OF cc_reachable.move [OF cc_reachable.move [OF cc_reachable.move [OF cc_reachable.start s1] s2] s3], of "130 * Second" None] show ?thesis by simp
qed

section \<open>When the gate opens\<close>

definition reads_store :: "'w secrets \<Rightarrow> (string \<Rightarrow> string \<Rightarrow> api_error + (string \<rightharpoonup> string)) \<Rightarrow> bool" where
  "reads_store secrets st \<longleftrightarrow> (\<forall>ns n w. run_state (secrets ns n) w = (st ns n, w))"

definition has_keys :: "api_error + (string \<rightharpoonup> string) \<Rightarrow> string list \<Rightarrow> bool" where
  "has_keys sec keys \<longleftrightarrow> (case sec of Inl _ \<Rightarrow> False | Inr d \<Rightarrow> list_all (\<lambda>k. map_get d k \<noteq> '''') keys)"

lemma first_missing_None: "first_missing keys d = None \<longleftrightarrow> list_all (\<lambda>k. map_get d k \<noteq> '''') keys"
  by (induction keys) (auto simp: map_get_def split: option.splits)

lemma secret_check_run:
  assumes "reads_store secrets st"
  shows "\<exists>er. run_state (secret_check who secrets ns name keys) w = (er, w) \<and> (er = None \<longleftrightarrow> has_keys (st ns name) keys)"
  using assms
  by (auto simp: secret_check_def reads_store_def has_keys_def first_missing_None [symmetric] split: sum.splits option.splits)

text \<open>The cache holds no answer that is still valid at a reading of the clock: never used, or expired.\<close>

definition uncached :: "('w \<Rightarrow> gotime \<times> 'w) \<Rightarrow> CachedChecker \<Rightarrow> bool" where
  "uncached clock c \<longleftrightarrow> (\<forall>w. cached_answer c (fst (clock w)) = None)"

lemma uncached_new: "uncached clock (NewCachedChecker ttl)"
  by (simp add: uncached_def cached_answer_def NewCachedChecker_def time_IsZero_def)

lemma cached_run_keeps_world:
  assumes "\<And>w. snd (clock w) = w" and "uncached clock c" and "run_state inner w = (er, w)"
  shows "\<exists>c'. run_state (CachedChecker_Check clock inner) (w, c) = (er, (w, c'))"
proof -
  obtain t where t: "clock w = (t, w)" using assms(1) [of w] by (cases "clock w") auto
  then have "cached_answer c t = None" using assms(2) unfolding uncached_def by (metis fst_conv)
  with t assms(3) show ?thesis by (simp add: CachedChecker_Check_def)
qed

text \<open>
  The gate opens exactly when the secrets are complete: when neither cache answers, with a context that
  is not cancelled, the combined checker passes iff the language-model secret has its key and, for the
  GitHub sink, the secret of the App has its three keys.
\<close>

lemma combinedChecker_passes:
  assumes "reads_store secrets st" and "\<And>w. snd (clock w) = w" and "uncached clock c1" and "uncached clock c2"
  shows "fst (run_state (combinedChecker clock secrets (ret None) cfg) (w, c1, c2)) = None \<longleftrightarrow>
    (SinkType cfg = ''github'' \<longrightarrow> has_keys (st (AgentNamespace cfg) ''github-app'') [''app-id'', ''installation-id'', ''private-key''])
    \<and> has_keys (st (AgentNamespace cfg) (''llm-credentials-'' @ cfgAgentType cfg)) [''provider-config'']"
proof -
  let ?gh = "GitHubAppChecker_Check secrets (AgentNamespace cfg)"
  let ?llm = "OpenAIChecker_Check secrets (AgentNamespace cfg) (cfgAgentType cfg)"
  obtain e1 where e1: "run_state ?gh w = (e1, w)"
    "e1 = None \<longleftrightarrow> has_keys (st (AgentNamespace cfg) ''github-app'') [''app-id'', ''installation-id'', ''private-key'']"
    unfolding GitHubAppChecker_Check_def githubAppSecretName_def requiredGitHubAppKeys_def
    using secret_check_run [OF assms(1)] by blast
  obtain e2 where e2: "run_state ?llm w = (e2, w)"
    "e2 = None \<longleftrightarrow> has_keys (st (AgentNamespace cfg) (''llm-credentials-'' @ cfgAgentType cfg)) [''provider-config'']"
    unfolding OpenAIChecker_Check_def requiredLLMKeys_def using secret_check_run [OF assms(1)] by blast
  obtain c1' c2' where "run_state (CachedChecker_Check clock ?gh) (w, c1) = (e1, (w, c1'))"
    "run_state (CachedChecker_Check clock ?llm) (w, c2) = (e2, (w, c2'))"
    using cached_run_keeps_world [OF assms(2,3) e1(1)] cached_run_keeps_world [OF assms(2,4) e2(1)] by blast
  then show ?thesis
    using e1(2) e2(2)
    by (auto simp: combinedChecker_def All_Check_def lift_sink_def lift_llm_def NopChecker_Check_def errors_Join_def
        split: option.splits)
qed

end
