(* ===== verification/Sink.thy ===== *)
theory Sink
  imports Cluster Json
begin

text \<open>
  The GitHub side of the watcher: installation tokens (\<open>src/internal/github/token.go\<close>), closing a
  pull request or issue (\<open>src/internal/sink/github/closer.go\<close>) and asking whether a pull request was
  merged (\<open>merge_checker.go\<close>). The HTTP client (\<open>http.Client.Do\<close>), the parsing of URLs, the clock and the
  signing of a JWT are parameters. Every request sent and every count of a closed sink is recorded in a trace.
  The closer and the merge checker take any token provider; theory Watcher wires the one of the GitHub App.
\<close>

section \<open>Requests\<close>

datatype http_method = MethodGet | MethodPost | MethodPatch

record http_request =
  rqMethod :: http_method
  rqURL :: string
  rqBearer :: string
  rqBody :: string

record http_response =
  rsStatus :: int
  rsBody :: string

datatype sink_effect = Sent http_request | PRClosed

record 'w sink_sys =
  skWorld :: 'w
  skToken :: string \<comment> \<open>\<open>cachedToken\<close>\<close>
  skExpiresAt :: gotime
  skTrace :: "sink_effect list"

text \<open>The HTTP client: \<open>Do\<close>, and what \<open>http.NewRequestWithContext\<close> makes of a URL.\<close>

record 'w http_client =
  hcDo :: "http_request \<Rightarrow> 'w \<Rightarrow> (goerr + http_response) \<times> 'w"
  hcParseURL :: "string \<Rightarrow> goerr option"

type_synonym ('w, 'a) sink_prog = "('w sink_sys, 'a) state"

definition reach :: "('w \<Rightarrow> 'a \<times> 'w) \<Rightarrow> ('w, 'a) sink_prog" where
  "reach f = State (\<lambda>s. case f (skWorld s) of (x, w) \<Rightarrow> (x, s\<lparr>skWorld := w\<rparr>))"

definition note_effect :: "sink_effect \<Rightarrow> ('w, unit) sink_prog" where
  "note_effect e = State (\<lambda>s. ((), s\<lparr>skTrace := skTrace s @ [e]\<rparr>))"

definition base_url :: "string \<Rightarrow> string" where
  "base_url BaseURL = (if BaseURL = '''' then ''https://api.github.com'' else BaseURL)"

text \<open>A request whose URL does not parse is not built and nothing is sent.\<close>

definition send :: "'w http_client \<Rightarrow> string \<Rightarrow> string \<Rightarrow> http_request \<Rightarrow> ('w, goerr + http_response) sink_prog" where
  "send hc building doing rq =
     (case hcParseURL hc (rqURL rq) of
        Some er \<Rightarrow> ret (Inl (Wrapped building er))
      | None \<Rightarrow> do {
          note_effect (Sent rq);
          r \<leftarrow> reach (hcDo hc rq);
          ret (case r of Inl er \<Rightarrow> Inl (Wrapped doing er) | Inr resp \<Rightarrow> Inr resp) })"

text \<open>
  \<open>json.NewDecoder(body).Decode\<close> into a struct with one string field: the first value of the body,
  whatever follows it; \<open>null\<close> leaves the field empty. Names match up to case folding, under which
  the long s (U+017F) is an s and the Kelvin sign (U+212A) a k.
\<close>

fun fold_name :: "string \<Rightarrow> string" where
  "fold_name [] = []"
| "fold_name (c # cs) =
     (if prefix [byte_of 197, byte_of 191] (c # cs) then CHR ''s'' # fold_name (drop 1 cs)
      else if prefix [byte_of 226, byte_of 132, byte_of 170] (c # cs) then CHR ''k'' # fold_name (drop 2 cs)
      else lower_ascii c # fold_name cs)"

fun decode_field :: "string \<Rightarrow> string \<Rightarrow> (string \<times> json) list \<Rightarrow> string option" where
  "decode_field name acc [] = Some acc"
| "decode_field name acc ((k, v) # ms) =
     (if fold_name k = name then
        (case v of JStr t \<Rightarrow> decode_field name t ms | JNull \<Rightarrow> decode_field name acc ms | _ \<Rightarrow> None)
      else decode_field name acc ms)"

definition decode_body :: "string \<Rightarrow> string \<Rightarrow> goerr + string" where
  "decode_body name body =
     (case parse_value (Suc (2 * length body)) 10000 body of
        Some (JObj ms, _) \<Rightarrow> (case decode_field name '''' ms of Some t \<Rightarrow> Inr t | None \<Rightarrow> Inl (Msg ''json: wrong type''))
      | Some (JNull, _) \<Rightarrow> Inr ''''
      | _ \<Rightarrow> Inl (Msg ''json: malformed''))"

definition unexpected_status :: "string \<Rightarrow> int \<Rightarrow> goerr" where
  "unexpected_status what code = Msg (what @ '': unexpected status '' @ int_to_dec code)"

section \<open>Tokens\<close>

definition tokenCacheTTL :: duration where
  "tokenCacheTTL = 55 * Minute"

record 'w GitHubAppTokenProvider =
  tpAppID :: int
  tpInstallationID :: int
  tpSign :: "string \<Rightarrow> gotime \<Rightarrow> gotime \<Rightarrow> goerr + string" \<comment> \<open>with \<open>PrivateKey\<close>: issuer, issued at, expires at\<close>
  tpBaseURL :: string
  tpHTTPClient :: "'w http_client"
  tpNow :: "'w \<Rightarrow> gotime \<times> 'w"

definition token_url :: "'w GitHubAppTokenProvider \<Rightarrow> string" where
  "token_url p = base_url (tpBaseURL p) @ ''/app/installations/'' @ int_to_dec (tpInstallationID p) @ ''/access_tokens''"

definition read_token :: "http_response \<Rightarrow> goerr + string" where
  "read_token resp =
     (if rsStatus resp \<noteq> 201 then Inl (unexpected_status ''token exchange'' (rsStatus resp))
      else (case decode_body ''token'' (rsBody resp) of
          Inl er \<Rightarrow> Inl (Wrapped ''decoding token response'' er)
        | Inr tok \<Rightarrow> if tok = '''' then Inl (Msg ''token exchange: empty token in response'') else Inr tok))"

definition exchange :: "'w GitHubAppTokenProvider \<Rightarrow> ('w, goerr + string) sink_prog" where
  "exchange p = do {
     t \<leftarrow> reach (tpNow p);
     case tpSign p (int_to_dec (tpAppID p)) (time_Add t (- (60 * Second))) (time_Add t (10 * Minute)) of
       Inl er \<Rightarrow> ret (Inl (Wrapped ''signing JWT'' er))
     | Inr signed \<Rightarrow> do {
         r \<leftarrow> send (tpHTTPClient p) ''building token request'' ''token exchange request''
           \<lparr>rqMethod = MethodPost, rqURL = token_url p, rqBearer = signed, rqBody = ''''\<rparr>;
         ret (case r of Inl er \<Rightarrow> Inl er | Inr resp \<Rightarrow> read_token resp) } }"

definition Token :: "'w GitHubAppTokenProvider \<Rightarrow> ('w, goerr + string) sink_prog" where
  "Token p = do {
     s \<leftarrow> State_Monad.get;
     valid \<leftarrow> (if skToken s \<noteq> '''' then do { t \<leftarrow> reach (tpNow p); ret (time_Before t (skExpiresAt s)) } else ret False);
     if valid then ret (Inr (skToken s))
     else do {
       r \<leftarrow> exchange p;
       case r of
         Inl er \<Rightarrow> ret (Inl er)
       | Inr tok \<Rightarrow> do {
           t \<leftarrow> reach (tpNow p);
           State_Monad.update (\<lambda>s. s\<lparr>skToken := tok, skExpiresAt := time_Add t tokenCacheTTL\<rparr>);
           ret (Inr tok) } } }"

definition ForceExpiry :: "'w GitHubAppTokenProvider \<Rightarrow> ('w, unit) sink_prog" where
  "ForceExpiry p = do {
     t \<leftarrow> reach (tpNow p);
     State_Monad.update (\<lambda>s. s\<lparr>skExpiresAt := time_Add t (- Second)\<rparr>) }"

section \<open>Closing a sink\<close>

text \<open>The fields \<open>GitHubSinkCloser\<close> and \<open>GitHubPRMergeChecker\<close> have in common.\<close>

record 'w github_api =
  TokenProvider :: "('w, goerr + string) sink_prog"
  BaseURL :: string
  HTTPClient :: "'w http_client"

definition issue_url :: "string \<Rightarrow> string \<Rightarrow> int \<Rightarrow> string" where
  "issue_url url repo number = url @ ''/repos/'' @ repo @ ''/issues/'' @ int_to_dec number"

definition pull_url :: "string \<Rightarrow> string \<Rightarrow> int \<Rightarrow> string" where
  "pull_url url repo number = url @ ''/repos/'' @ repo @ ''/pulls/'' @ int_to_dec number"

definition read_state :: "http_response \<Rightarrow> goerr + bool" where
  "read_state resp =
     (if rsStatus resp \<noteq> 200 then Inl (unexpected_status ''fetching issue state'' (rsStatus resp))
      else (case decode_body ''state'' (rsBody resp) of
          Inl er \<Rightarrow> Inl (Wrapped ''decoding issue state'' er)
        | Inr st \<Rightarrow> Inr (st = ''closed'')))"

definition isClosed :: "'w http_client \<Rightarrow> string \<Rightarrow> string \<Rightarrow> string \<Rightarrow> int \<Rightarrow> ('w, goerr + bool) sink_prog" where
  "isClosed hc url token repo number = do {
     r \<leftarrow> send hc ''building state request'' ''fetching issue state''
       \<lparr>rqMethod = MethodGet, rqURL = issue_url url repo number, rqBearer = token, rqBody = ''''\<rparr>;
     ret (case r of Inl er \<Rightarrow> Inl er | Inr resp \<Rightarrow> read_state resp) }"

text \<open>\<open>json.Marshal(map[string]string{k: v})\<close>\<close>

definition json_object1 :: "string \<Rightarrow> string \<Rightarrow> string" where
  "json_object1 k v = CHR ''{'' # json_string True k @ CHR '':'' # json_string True v @ [CHR ''}'']"

definition postComment ::
    "'w http_client \<Rightarrow> string \<Rightarrow> string \<Rightarrow> string \<Rightarrow> int \<Rightarrow> string \<Rightarrow> ('w, goerr option) sink_prog" where
  "postComment hc url token repo number body = do {
     r \<leftarrow> send hc ''building comment request'' ''posting comment''
       \<lparr>rqMethod = MethodPost, rqURL = issue_url url repo number @ ''/comments'', rqBearer = token,
        rqBody = json_object1 ''body'' body\<rparr>;
     ret (case r of
         Inl er \<Rightarrow> Some er
       | Inr resp \<Rightarrow> if rsStatus resp = 201 then None
           else Some (unexpected_status ''posting comment'' (rsStatus resp))) }"

definition closeItem ::
    "'w http_client \<Rightarrow> string \<Rightarrow> string \<Rightarrow> string \<Rightarrow> int \<Rightarrow> string \<Rightarrow> ('w, goerr option) sink_prog" where
  "closeItem hc url token repo number sinkType =
     (let apiPath = (if sinkType = ''pr'' then pull_url url repo number else issue_url url repo number) in do {
        r \<leftarrow> send hc ''building close request'' (''closing '' @ sinkType)
          \<lparr>rqMethod = MethodPatch, rqURL = apiPath, rqBearer = token, rqBody = json_object1 ''state'' ''closed''\<rparr>;
        ret (case r of
            Inl er \<Rightarrow> Some er
          | Inr resp \<Rightarrow> if rsStatus resp = 200 \<or> rsStatus resp = 422 then None
              else Some (unexpected_status (''closing '' @ sinkType) (rsStatus resp))) })"

text \<open>
  What follows the token. An error of \<open>isClosed\<close> counts as not closed, an error of the comment is
  discarded.
\<close>

definition close_with :: "'w github_api \<Rightarrow> string \<Rightarrow> SinkRef \<Rightarrow> string \<Rightarrow> ('w, goerr option) sink_prog" where
  "close_with c token ref reason =
     (let url = base_url (BaseURL c); hc = HTTPClient c in do {
        already \<leftarrow> isClosed hc url token (srRepo ref) (srNumber ref);
        if already = Inr True then ret None
        else do {
          _ \<leftarrow> postComment hc url token (srRepo ref) (srNumber ref) reason;
          er \<leftarrow> closeItem hc url token (srRepo ref) (srNumber ref) (srType ref);
          case er of
            Some x \<Rightarrow> ret (Some x)
          | None \<Rightarrow> do { note_effect PRClosed; ret None } } })"

definition GitHubSinkCloser_Close :: "'w github_api \<Rightarrow> RemediationJob \<Rightarrow> string \<Rightarrow> ('w, goerr option) sink_prog" where
  "GitHubSinkCloser_Close c rjob reason =
     (let ref = stSinkRef (rjStatus rjob) in
      if srURL ref = '''' then ret None
      else if srNumber ref \<le> 0
      then ret (Some (Msg (''SinkRef.Number must be > 0, got '' @ int_to_dec (srNumber ref) @ '' (sinkRef.url='' @ srURL ref @ '')'')))
      else if srRepo ref = '''' then ret (Some (Msg (''SinkRef.Repo must not be empty (sinkRef.url='' @ srURL ref @ '')'')))
      else do {
        tok \<leftarrow> TokenProvider c;
        case tok of
          Inl er \<Rightarrow> ret (Some (Wrapped ''getting GitHub token'' er))
        | Inr token \<Rightarrow> close_with c token ref reason })"

section \<open>Merged pull requests\<close>

definition read_merged :: "string \<Rightarrow> http_response \<Rightarrow> goerr + bool" where
  "read_merged url resp =
     (if rsStatus resp = 204 then Inr True
      else if rsStatus resp = 404 then Inr False
      else Inl (Msg (''IsMerged: unexpected status '' @ int_to_dec (rsStatus resp) @ '' for '' @ url)))"

definition GitHubPRMergeChecker_IsMerged :: "'w github_api \<Rightarrow> SinkRef \<Rightarrow> ('w, goerr + bool) sink_prog" where
  "GitHubPRMergeChecker_IsMerged c ref =
     (if srURL ref = '''' \<or> srType ref \<noteq> ''pr'' then ret (Inr False)
      else if srNumber ref \<le> 0 then ret (Inl (Msg (''IsMerged: SinkRef.Number must be > 0, got '' @ int_to_dec (srNumber ref))))
      else if srRepo ref = '''' then ret (Inl (Msg ''IsMerged: SinkRef.Repo must not be empty''))
      else do {
        tok \<leftarrow> TokenProvider c;
        case tok of
          Inl er \<Rightarrow> ret (Inl (Wrapped ''IsMerged: getting GitHub token'' er))
        | Inr token \<Rightarrow>
            (let url = pull_url (base_url (BaseURL c)) (srRepo ref) (srNumber ref) @ ''/merge'' in do {
               r \<leftarrow> send (HTTPClient c) ''IsMerged: building request'' ''IsMerged: executing request''
                 \<lparr>rqMethod = MethodGet, rqURL = url, rqBearer = token, rqBody = ''''\<rparr>;
               ret (case r of Inl er \<Rightarrow> Inl er | Inr resp \<Rightarrow> read_merged url resp) }) })"

text \<open>The closer and the checker of a watcher that does not close sinks.\<close>

definition NoopSinkCloser_Close :: "RemediationJob \<Rightarrow> string \<Rightarrow> ('w, goerr option) sink_prog" where
  "NoopSinkCloser_Close rjob reason = ret None"

definition NoopPRMergeChecker_IsMerged :: "SinkRef \<Rightarrow> ('w, goerr + bool) sink_prog" where
  "NoopPRMergeChecker_IsMerged ref = ret (Inr False)"

section \<open>The interfaces of the reconciler\<close>

text \<open>
  What \<open>domain.SinkCloser\<close> and \<open>domain.PRMergeChecker\<close> (\<open>src/internal/domain/sink.go\<close>) promise for a job without a sink, and what the
  reconciler gets from it: going over such jobs changes nothing and reports no error.
\<close>

fun close_each :: "(RemediationJob \<Rightarrow> string \<Rightarrow> ('w, goerr option) sink_prog) \<Rightarrow> string \<Rightarrow> RemediationJob list \<Rightarrow> ('w, goerr option list) sink_prog" where
  "close_each cl reason [] = ret []"
| "close_each cl reason (j # js) = do { er \<leftarrow> cl j reason; ers \<leftarrow> close_each cl reason js; ret (er # ers) }"

locale sink_closer =
  fixes close_sink :: "RemediationJob \<Rightarrow> string \<Rightarrow> ('w, goerr option) sink_prog"
  assumes no_sink: "rjSinkURL j = '''' \<Longrightarrow> close_sink j reason = ret None"
begin

lemma no_sinks_untouched:
  "list_all (\<lambda>j. rjSinkURL j = '''') js \<Longrightarrow> run_state (close_each close_sink reason js) s = (replicate (length js) None, s)"
  by (induction js) (simp_all add: no_sink)

end

locale merge_checker =
  fixes is_merged :: "SinkRef \<Rightarrow> ('w, goerr + bool) sink_prog"
  assumes no_pull_request: "srURL ref = '''' \<or> srType ref \<noteq> ''pr'' \<Longrightarrow> is_merged ref = ret (Inr False)"
begin

lemma merged_is_pull_request:
  "run_state (is_merged ref) s = (Inr True, s') \<Longrightarrow> srURL ref \<noteq> '''' \<and> srType ref = ''pr''"
  using no_pull_request [of ref] by (cases "srURL ref = '''' \<or> srType ref \<noteq> ''pr''") auto

end

interpretation github: sink_closer "GitHubSinkCloser_Close c" for c :: "'w github_api"
  by unfold_locales (simp add: GitHubSinkCloser_Close_def Let_def)

interpretation noop: sink_closer NoopSinkCloser_Close
  by unfold_locales (simp add: NoopSinkCloser_Close_def)

interpretation github_merge: merge_checker "GitHubPRMergeChecker_IsMerged c" for c :: "'w github_api"
  by unfold_locales (auto simp: GitHubPRMergeChecker_IsMerged_def)

interpretation noop_merge: merge_checker NoopPRMergeChecker_IsMerged
  by unfold_locales (simp add: NoopPRMergeChecker_IsMerged_def)

section \<open>The requests of a close\<close>

lemma run_reach: "run_state (reach f) s = (fst (f (skWorld s)), s\<lparr>skWorld := snd (f (skWorld s))\<rparr>)"
  by (simp add: reach_def split: prod.split)

lemma run_note [simp]: "run_state (note_effect e) s = ((), s\<lparr>skTrace := skTrace s @ [e]\<rparr>)"
  by (simp add: note_effect_def)

lemma run_update [simp]: "run_state (State_Monad.update f) s = ((), f s)"
  by (simp add: State_Monad.update_def)

text \<open>A program that leaves the cached token alone and adds a subsequence of \<open>es\<close> to the trace.\<close>

definition adds :: "sink_effect list \<Rightarrow> ('w, 'a) sink_prog \<Rightarrow> bool" where
  "adds es m \<longleftrightarrow> (\<forall>s. \<exists>fs. subseq fs es \<and> skTrace (snd (run_state m s)) = skTrace s @ fs)"

lemma addsD: "adds es m \<Longrightarrow> run_state m s = (x, s') \<Longrightarrow> \<exists>fs. subseq fs es \<and> skTrace s' = skTrace s @ fs"
  by (metis adds_def snd_conv)

lemma adds_return: "adds es (ret x)"
  by (simp add: adds_def)

lemma adds_reach: "adds es (reach f)"
  by (simp add: adds_def run_reach)

lemma adds_bind: "adds es m \<Longrightarrow> (\<And>x. adds fs (f x)) \<Longrightarrow> adds (es @ fs) (State_Monad.bind m f)"
proof (unfold adds_def, rule allI)
  fix s
  assume m: "\<forall>s. \<exists>gs. subseq gs es \<and> skTrace (snd (run_state m s)) = skTrace s @ gs"
    and f: "\<And>x. \<forall>s. \<exists>gs. subseq gs fs \<and> skTrace (snd (run_state (f x) s)) = skTrace s @ gs"
  obtain x t where t: "run_state m s = (x, t)" by fastforce
  obtain gs hs where "subseq gs es" "skTrace t = skTrace s @ gs"
    and "subseq hs fs" "skTrace (snd (run_state (f x) t)) = skTrace t @ hs"
    using m [THEN spec, of s] f [of x, THEN spec, of t] t by auto
  then show "\<exists>gs. subseq gs (es @ fs) \<and> skTrace (snd (run_state (State_Monad.bind m f) s)) = skTrace s @ gs"
    using t by (intro exI [of _ "gs @ hs"]) (simp add: list_emb_append_mono)
qed

lemma adds_mono: "adds fs m \<Longrightarrow> subseq fs es \<Longrightarrow> adds es m"
  unfolding adds_def by (meson subseq_order.order_trans)

lemma adds_bind_return: "adds es m \<Longrightarrow> adds es (State_Monad.bind m (\<lambda>x. ret (f x)))"
  using adds_bind [of es m "[]" "\<lambda>x. ret (f x)"] by (simp add: adds_return)

lemma adds_send: "adds [Sent rq] (send hc building doing rq)"
proof (cases "hcParseURL hc (rqURL rq)")
  case None
  have "adds ([Sent rq] @ []) (State_Monad.bind (note_effect (Sent rq)) (\<lambda>_. State_Monad.bind (reach (hcDo hc rq))
     (\<lambda>r. ret (case r of Inl er \<Rightarrow> Inl (Wrapped doing er) | Inr resp \<Rightarrow> Inr resp))))"
    by (intro adds_bind adds_bind_return adds_reach) (simp add: adds_def)
  then show ?thesis by (simp add: send_def None)
qed (simp add: send_def adds_return)

text \<open>The requests about an item, in the order a close sends them.\<close>

definition get_item :: "'w github_api \<Rightarrow> string \<Rightarrow> SinkRef \<Rightarrow> http_request" where
  "get_item c token ref = \<lparr>rqMethod = MethodGet, rqURL = issue_url (base_url (BaseURL c)) (srRepo ref) (srNumber ref),
     rqBearer = token, rqBody = ''''\<rparr>"

definition comment_item :: "'w github_api \<Rightarrow> string \<Rightarrow> SinkRef \<Rightarrow> string \<Rightarrow> http_request" where
  "comment_item c token ref reason =
     \<lparr>rqMethod = MethodPost, rqURL = issue_url (base_url (BaseURL c)) (srRepo ref) (srNumber ref) @ ''/comments'',
      rqBearer = token, rqBody = json_object1 ''body'' reason\<rparr>"

definition close_item :: "'w github_api \<Rightarrow> string \<Rightarrow> SinkRef \<Rightarrow> http_request" where
  "close_item c token ref =
     \<lparr>rqMethod = MethodPatch,
      rqURL = (if srType ref = ''pr'' then pull_url else issue_url) (base_url (BaseURL c)) (srRepo ref) (srNumber ref),
      rqBearer = token, rqBody = json_object1 ''state'' ''closed''\<rparr>"

lemma adds_isClosed: "adds [Sent (get_item c token ref)] (isClosed (HTTPClient c) (base_url (BaseURL c)) token (srRepo ref) (srNumber ref))"
  unfolding isClosed_def get_item_def by (intro adds_bind_return adds_send)

lemma adds_postComment:
  "adds [Sent (comment_item c token ref reason)] (postComment (HTTPClient c) (base_url (BaseURL c)) token (srRepo ref) (srNumber ref) reason)"
  unfolding postComment_def comment_item_def by (intro adds_bind_return adds_send)

lemma adds_closeItem:
  "adds [Sent (close_item c token ref)] (closeItem (HTTPClient c) (base_url (BaseURL c)) token (srRepo ref) (srNumber ref) (srType ref))"
  unfolding closeItem_def close_item_def Let_def by (cases "srType ref = ''pr''") (simp_all add: adds_bind_return adds_send)

lemma subseq_single: "subseq fs [x] \<Longrightarrow> set fs \<subseteq> {x}"
  by (cases fs) (auto simp: subseq_Cons2_iff split: if_splits dest: list_emb_Nil2)

lemma closeItem_None:
  assumes "run_state (closeItem (HTTPClient c) (base_url (BaseURL c)) token (srRepo ref) (srNumber ref) (srType ref)) s = (None, s')"
  shows "skTrace s' = skTrace s @ [Sent (close_item c token ref)]"
  using assms
  by (auto simp: closeItem_def close_item_def send_def run_reach Let_def split: option.splits sum.splits if_splits)

lemma bind_cases:
  assumes "run_state (State_Monad.bind m f) s = (y, s')"
  obtains x t where "run_state m s = (x, t)" and "run_state (f x) t = (y, s')"
  using assms by (cases "run_state m s") auto

lemma close_with_trace:
  assumes "run_state (close_with c token ref reason) s = (er, s')"
  shows "\<exists>fs. subseq fs [Sent (get_item c token ref), Sent (comment_item c token ref reason), Sent (close_item c token ref), PRClosed]
    \<and> skTrace s' = skTrace s @ fs \<and> (PRClosed \<in> set fs \<longleftrightarrow> er = None \<and> Sent (close_item c token ref) \<in> set fs)"
proof -
  let ?g = "Sent (get_item c token ref)" and ?k = "Sent (comment_item c token ref reason)" and ?p = "Sent (close_item c token ref)"
  have differ: "?g \<noteq> ?p" "?k \<noteq> ?p" by (simp_all add: get_item_def close_item_def comment_item_def)
  from assms [unfolded close_with_def Let_def] obtain a t where
    a: "run_state (isClosed (HTTPClient c) (base_url (BaseURL c)) token (srRepo ref) (srNumber ref)) s = (a, t)"
    and rest: "run_state (if a = Inr True then ret None else do {
          _ \<leftarrow> postComment (HTTPClient c) (base_url (BaseURL c)) token (srRepo ref) (srNumber ref) reason;
          er \<leftarrow> closeItem (HTTPClient c) (base_url (BaseURL c)) token (srRepo ref) (srNumber ref) (srType ref);
          case er of Some x \<Rightarrow> ret (Some x) | None \<Rightarrow> do { note_effect PRClosed; ret None } }) t = (er, s')"
    by (rule bind_cases)
  from addsD [OF adds_isClosed a] obtain fs where fs: "subseq fs [?g]" "skTrace t = skTrace s @ fs" by blast
  have no: "?p \<notin> set fs" "PRClosed \<notin> set fs" using subseq_single [OF fs(1)] differ by auto
  show ?thesis
  proof (cases "a = Inr True")
    case True
    then show ?thesis using fs no rest
      by (intro exI [of _ fs]) (auto intro: subseq_order.order_trans [OF fs(1)])
  next
    case False
    from rest False obtain k u e v where
      k: "run_state (postComment (HTTPClient c) (base_url (BaseURL c)) token (srRepo ref) (srNumber ref) reason) t = (k, u)"
      and e: "run_state (closeItem (HTTPClient c) (base_url (BaseURL c)) token (srRepo ref) (srNumber ref) (srType ref)) u = (e, v)"
      and fin: "run_state (case e of Some x \<Rightarrow> ret (Some x) | None \<Rightarrow> do { note_effect PRClosed; ret None }) v = (er, s')"
      by (auto split: prod.splits)
    from addsD [OF adds_postComment k] obtain gs where gs: "subseq gs [?k]" "skTrace u = skTrace t @ gs" by blast
    have no': "?p \<notin> set gs" "PRClosed \<notin> set gs" using subseq_single [OF gs(1)] differ by auto
    from addsD [OF adds_closeItem e] obtain hs where hs: "subseq hs [?p]" "skTrace v = skTrace u @ hs" by blast
    have sub: "subseq (fs @ gs @ hs @ r) ([?g] @ [?k] @ [?p] @ [PRClosed])" if "subseq r [PRClosed]" for r
      by (intro list_emb_append_mono fs gs hs that)
    show ?thesis
    proof (cases e)
      case None
      then have "hs = [?p]" using closeItem_None [of c token ref u v] e hs(2) by simp
      then show ?thesis using None fin fs(2) gs(2) hs(2) sub [of "[PRClosed]"]
        by (intro exI [of _ "fs @ gs @ hs @ [PRClosed]"]) auto
    next
      case (Some x)
      then show ?thesis using fin fs(2) gs(2) hs(2) sub [of "[]"] no no' subseq_single [OF hs(1)]
        by (intro exI [of _ "fs @ gs @ hs"]) auto
    qed
  qed
qed

lemma Token_trace:
  assumes "run_state (Token p) s = (r, s')"
  shows "\<exists>jwt fs. subseq fs [Sent \<lparr>rqMethod = MethodPost, rqURL = token_url p, rqBearer = jwt, rqBody = ''''\<rparr>]
    \<and> skTrace s' = skTrace s @ fs"
proof -
  have ex: "\<exists>jwt fs. subseq fs [Sent \<lparr>rqMethod = MethodPost, rqURL = token_url p, rqBearer = jwt, rqBody = ''''\<rparr>]
    \<and> skTrace t' = skTrace t @ fs" if "run_state (exchange p) t = (x, t')" for x t t'
  proof (cases "tpSign p (int_to_dec (tpAppID p)) (time_Add (fst (tpNow p (skWorld t))) (- (60 * Second)))
      (time_Add (fst (tpNow p (skWorld t))) (10 * Minute))")
    case (Inl er)
    then show ?thesis using that by (auto simp: exchange_def run_reach)
  next
    case (Inr jwt)
    let ?rq = "\<lparr>rqMethod = MethodPost, rqURL = token_url p, rqBearer = jwt, rqBody = ''''\<rparr>"
    from Inr that obtain y u where "run_state (send (tpHTTPClient p) ''building token request'' ''token exchange request'' ?rq)
        (t\<lparr>skWorld := snd (tpNow p (skWorld t))\<rparr>) = (y, u)" and "t' = u"
      by (auto simp: exchange_def run_reach split: prod.splits)
    from addsD [OF adds_send this(1)] this(2) show ?thesis by force
  qed
  from assms obtain valid t where run: "run_state (if skToken s \<noteq> '''' then do { t \<leftarrow> reach (tpNow p); ret (time_Before t (skExpiresAt s)) } else ret False) s = (valid, t)"
    and rest: "run_state (if valid then ret (Inr (skToken s)) else do {
       r \<leftarrow> exchange p;
       case r of Inl er \<Rightarrow> ret (Inl er) | Inr tok \<Rightarrow> do {
           t \<leftarrow> reach (tpNow p);
           State_Monad.update (\<lambda>s. s\<lparr>skToken := tok, skExpiresAt := time_Add t tokenCacheTTL\<rparr>);
           ret (Inr tok) } }) t = (r, s')"
    unfolding Token_def by (auto elim!: bind_cases simp del: run_state_bind)
  from run have tt: "skTrace t = skTrace s" by (auto simp: run_reach split: if_splits)
  show ?thesis
  proof (cases valid)
    case True
    then show ?thesis using rest tt by auto
  next
    case False
    with rest obtain x u where x: "run_state (exchange p) t = (x, u)" and "skTrace s' = skTrace u"
      by (auto simp: run_reach split: sum.splits prod.splits)
    with ex [OF x] tt show ?thesis by auto
  qed
qed

text \<open>
  C32. What a close does at GitHub, whatever answers come back: it sends at most one token
  exchange, then at most one query of the state, one comment and one closing request, all about
  the item the job refers to and in this order, and it counts a closed sink exactly when it
  sent the closing request and reports success.
\<close>

theorem close_sends_in_order:
  assumes "TokenProvider c = Token p" and "run_state (GitHubSinkCloser_Close c rjob reason) s = (er, s')"
  shows "\<exists>jwt token fs.
    subseq fs [Sent \<lparr>rqMethod = MethodPost, rqURL = token_url p, rqBearer = jwt, rqBody = ''''\<rparr>,
      Sent (get_item c token (stSinkRef (rjStatus rjob))), Sent (comment_item c token (stSinkRef (rjStatus rjob)) reason),
      Sent (close_item c token (stSinkRef (rjStatus rjob))), PRClosed]
    \<and> skTrace s' = skTrace s @ fs
    \<and> (PRClosed \<in> set fs \<longleftrightarrow> er = None \<and> Sent (close_item c token (stSinkRef (rjStatus rjob))) \<in> set fs)"
proof -
  let ?ref = "stSinkRef (rjStatus rjob)"
  let ?jwt = "\<lambda>jwt. Sent \<lparr>rqMethod = MethodPost, rqURL = token_url p, rqBearer = jwt, rqBody = ''''\<rparr>"
  consider "s' = s"
    | tok t where "run_state (Token p) s = (tok, t)"
        "run_state (case tok of Inl er \<Rightarrow> ret (Some (Wrapped ''getting GitHub token'' er)) | Inr token \<Rightarrow> close_with c token ?ref reason) t = (er, s')"
    using assms by (auto simp: GitHubSinkCloser_Close_def Let_def split: if_splits prod.splits)
  then show ?thesis
  proof cases
    case 1
    then show ?thesis by (intro exI [of _ "''''"] exI [of _ "[]"]) simp
  next
    case 2
    from Token_trace [OF 2(1)] obtain jwt gs where gs: "subseq gs [?jwt jwt]" "skTrace t = skTrace s @ gs" by blast
    have no: "PRClosed \<notin> set gs" "Sent (close_item c token ?ref) \<notin> set gs" for token
      using subseq_single [OF gs(1)] by (auto simp: close_item_def)
    show ?thesis
    proof (cases tok)
      case (Inl x)
      then show ?thesis using 2(2) gs no
        by (intro exI [of _ jwt] exI [of _ "''''"] exI [of _ gs]) (auto intro: subseq_order.order_trans [OF gs(1)])
    next
      case (Inr token)
      with 2(2) have "run_state (close_with c token ?ref reason) t = (er, s')" by simp
      from close_with_trace [OF this] obtain hs where
        hs: "subseq hs [Sent (get_item c token ?ref), Sent (comment_item c token ?ref reason), Sent (close_item c token ?ref), PRClosed]"
        "skTrace s' = skTrace t @ hs" "PRClosed \<in> set hs \<longleftrightarrow> er = None \<and> Sent (close_item c token ?ref) \<in> set hs" by blast
      with gs no list_emb_append_mono [OF gs(1) hs(1)] show ?thesis
        by (intro exI [of _ jwt] exI [of _ token] exI [of _ "gs @ hs"]) simp
    qed
  qed
qed

section \<open>Closing at a server that answers\<close>

text \<open>
  The documented behaviour of the REST API for one item, seen through \<open>closed\<close> (is the item
  closed?) and \<open>comments\<close> (the bodies posted to it): the item is reported with its state, a comment
  is answered with 201 and added, a change of state with 200 and carried out. A provider of
  tokens answers with a token and touches neither.
\<close>

definition serves :: "'w github_api \<Rightarrow> ('w \<Rightarrow> bool) \<Rightarrow> ('w \<Rightarrow> string list) \<Rightarrow> SinkRef \<Rightarrow> bool" where
  "serves c closed comments ref \<longleftrightarrow>
     (\<forall>token w. \<exists>body w'. hcParseURL (HTTPClient c) (rqURL (get_item c token ref)) = None
        \<and> hcDo (HTTPClient c) (get_item c token ref) w = (Inr \<lparr>rsStatus = 200, rsBody = body\<rparr>, w')
        \<and> decode_body ''state'' body = Inr (if closed w then ''closed'' else ''open'')
        \<and> closed w' = closed w \<and> comments w' = comments w)
     \<and> (\<forall>token reason w. \<exists>body w'. hcParseURL (HTTPClient c) (rqURL (comment_item c token ref reason)) = None
        \<and> hcDo (HTTPClient c) (comment_item c token ref reason) w = (Inr \<lparr>rsStatus = 201, rsBody = body\<rparr>, w')
        \<and> closed w' = closed w \<and> comments w' = comments w @ [json_object1 ''body'' reason])
     \<and> (\<forall>token w. \<exists>body w'. hcParseURL (HTTPClient c) (rqURL (close_item c token ref)) = None
        \<and> hcDo (HTTPClient c) (close_item c token ref) w = (Inr \<lparr>rsStatus = 200, rsBody = body\<rparr>, w')
        \<and> closed w' \<and> comments w' = comments w)
     \<and> (\<forall>s. \<exists>token s'. run_state (TokenProvider c) s = (Inr token, s')
        \<and> closed (skWorld s') = closed (skWorld s) \<and> comments (skWorld s') = comments (skWorld s))"

lemma run_send:
  assumes "hcParseURL hc (rqURL rq) = None" and "hcDo hc rq (skWorld s) = (Inr resp, w')"
  shows "run_state (send hc building doing rq) s = (Inr resp, s\<lparr>skWorld := w', skTrace := skTrace s @ [Sent rq]\<rparr>)"
  using assms by (simp add: send_def run_reach)

lemma serves_isClosed:
  assumes "serves c closed comments ref"
  shows "\<exists>s'. run_state (isClosed (HTTPClient c) (base_url (BaseURL c)) token (srRepo ref) (srNumber ref)) s = (Inr (closed (skWorld s)), s')
    \<and> closed (skWorld s') = closed (skWorld s) \<and> comments (skWorld s') = comments (skWorld s)"
proof -
  from assms obtain body w' where "hcParseURL (HTTPClient c) (rqURL (get_item c token ref)) = None"
    "hcDo (HTTPClient c) (get_item c token ref) (skWorld s) = (Inr \<lparr>rsStatus = 200, rsBody = body\<rparr>, w')"
    and w: "decode_body ''state'' body = Inr (if closed (skWorld s) then ''closed'' else ''open'')"
      "closed w' = closed (skWorld s)" "comments w' = comments (skWorld s)"
    unfolding serves_def by blast
  from run_send [OF this(1,2)] w show ?thesis by (simp add: isClosed_def get_item_def read_state_def)
qed

lemma serves_postComment:
  assumes "serves c closed comments ref"
  shows "\<exists>s'. run_state (postComment (HTTPClient c) (base_url (BaseURL c)) token (srRepo ref) (srNumber ref) reason) s = (None, s')
    \<and> closed (skWorld s') = closed (skWorld s) \<and> comments (skWorld s') = comments (skWorld s) @ [json_object1 ''body'' reason]"
proof -
  from assms obtain body w' where "hcParseURL (HTTPClient c) (rqURL (comment_item c token ref reason)) = None"
    "hcDo (HTTPClient c) (comment_item c token ref reason) (skWorld s) = (Inr \<lparr>rsStatus = 201, rsBody = body\<rparr>, w')"
    and w: "closed w' = closed (skWorld s)" "comments w' = comments (skWorld s) @ [json_object1 ''body'' reason]"
    unfolding serves_def by blast
  from run_send [OF this(1,2)] w show ?thesis by (simp add: postComment_def comment_item_def)
qed

lemma serves_closeItem:
  assumes "serves c closed comments ref"
  shows "\<exists>s'. run_state (closeItem (HTTPClient c) (base_url (BaseURL c)) token (srRepo ref) (srNumber ref) (srType ref)) s = (None, s')
    \<and> closed (skWorld s') \<and> comments (skWorld s') = comments (skWorld s)"
proof -
  from assms obtain body w' where "hcParseURL (HTTPClient c) (rqURL (close_item c token ref)) = None"
    "hcDo (HTTPClient c) (close_item c token ref) (skWorld s) = (Inr \<lparr>rsStatus = 200, rsBody = body\<rparr>, w')"
    and w: "closed w'" "comments w' = comments (skWorld s)"
    unfolding serves_def by blast
  from run_send [OF this(1,2)] w show ?thesis
    by (cases "srType ref = ''pr''") (simp_all add: closeItem_def close_item_def)
qed

definition valid_ref :: "SinkRef \<Rightarrow> bool" where
  "valid_ref ref \<longleftrightarrow> srURL ref \<noteq> '''' \<and> 0 < srNumber ref \<and> srRepo ref \<noteq> ''''"

lemma serves_Close:
  assumes "serves c closed comments (stSinkRef (rjStatus rjob))" and "valid_ref (stSinkRef (rjStatus rjob))"
  shows "\<exists>s'. run_state (GitHubSinkCloser_Close c rjob reason) s = (None, s') \<and> closed (skWorld s')
    \<and> comments (skWorld s') = comments (skWorld s) @ (if closed (skWorld s) then [] else [json_object1 ''body'' reason])"
proof -
  let ?ref = "stSinkRef (rjStatus rjob)"
  from assms(1) obtain token t where t: "run_state (TokenProvider c) s = (Inr token, t)"
    "closed (skWorld t) = closed (skWorld s)" "comments (skWorld t) = comments (skWorld s)"
    unfolding serves_def by blast
  from serves_isClosed [OF assms(1), of token t] obtain u where
    u: "run_state (isClosed (HTTPClient c) (base_url (BaseURL c)) token (srRepo ?ref) (srNumber ?ref)) t = (Inr (closed (skWorld t)), u)"
    "closed (skWorld u) = closed (skWorld t)" "comments (skWorld u) = comments (skWorld t)" by blast
  from serves_postComment [OF assms(1), of token reason u] obtain v where
    v: "run_state (postComment (HTTPClient c) (base_url (BaseURL c)) token (srRepo ?ref) (srNumber ?ref) reason) u = (None, v)"
    "comments (skWorld v) = comments (skWorld u) @ [json_object1 ''body'' reason]" by blast
  from serves_closeItem [OF assms(1), of token v] obtain x where
    x: "run_state (closeItem (HTTPClient c) (base_url (BaseURL c)) token (srRepo ?ref) (srNumber ?ref) (srType ?ref)) v = (None, x)"
    "closed (skWorld x)" "comments (skWorld x) = comments (skWorld v)" by blast
  have "run_state (GitHubSinkCloser_Close c rjob reason) s = run_state (close_with c token ?ref reason) t"
    using assms(2) t(1) by (simp add: GitHubSinkCloser_Close_def valid_ref_def Let_def)
  then show ?thesis using t u v x by (simp add: close_with_def Let_def)
qed

text \<open>Closing again and again, with a reason each time.\<close>

fun close_all :: "'w github_api \<Rightarrow> RemediationJob \<Rightarrow> string list \<Rightarrow> ('w, goerr option list) sink_prog" where
  "close_all c rjob [] = ret []"
| "close_all c rjob (r # rs) = do {
     er \<leftarrow> GitHubSinkCloser_Close c rjob r;
     ers \<leftarrow> close_all c rjob rs;
     ret (er # ers) }"

lemma close_all_closed:
  assumes "serves c closed comments (stSinkRef (rjStatus rjob))" and "valid_ref (stSinkRef (rjStatus rjob))"
    and "closed (skWorld s)"
  shows "\<exists>s'. run_state (close_all c rjob rs) s = (replicate (length rs) None, s') \<and> closed (skWorld s')
    \<and> comments (skWorld s') = comments (skWorld s)"
  using assms(3)
proof (induction rs arbitrary: s)
  case (Cons r rs)
  from serves_Close [OF assms(1,2), of r s] Cons.prems obtain t where
    "run_state (GitHubSinkCloser_Close c rjob r) s = (None, t)" "closed (skWorld t)" "comments (skWorld t) = comments (skWorld s)"
    by auto
  with Cons.IH [of t] show ?case by auto
qed simp

text \<open>
  C31. A close is idempotent: at a server that behaves as documented, closing a sink one or more
  times succeeds every time, leaves the item closed, and posts the reason of the first call once
  if the item was open and nothing if it was closed before.
\<close>

theorem close_idempotent:
  assumes "serves c closed comments (stSinkRef (rjStatus rjob))" and "valid_ref (stSinkRef (rjStatus rjob))"
  shows "\<exists>s'. run_state (close_all c rjob (r # rs)) s = (replicate (length (r # rs)) None, s') \<and> closed (skWorld s')
    \<and> comments (skWorld s') = comments (skWorld s) @ (if closed (skWorld s) then [] else [json_object1 ''body'' r])"
proof -
  from serves_Close [OF assms, of r s] obtain t where t: "run_state (GitHubSinkCloser_Close c rjob r) s = (None, t)" "closed (skWorld t)"
    "comments (skWorld t) = comments (skWorld s) @ (if closed (skWorld s) then [] else [json_object1 ''body'' r])" by blast
  from close_all_closed [OF assms t(2), of rs] t show ?thesis by auto
qed

section \<open>A small server\<close>

text \<open>A server with one item: whether it is closed, and the bodies of its comments.\<close>

definition quoted_body :: "string \<Rightarrow> string \<Rightarrow> string" where
  "quoted_body k v = CHR ''{'' # CHR 0x22 # k @ CHR 0x22 # CHR '':'' # CHR 0x22 # v @ CHR 0x22 # ''}''"

definition sample_do :: "http_request \<Rightarrow> bool \<times> string list \<Rightarrow> (goerr + http_response) \<times> bool \<times> string list" where
  "sample_do rq w =
     (case rqMethod rq of
        MethodGet \<Rightarrow> (Inr \<lparr>rsStatus = 200, rsBody = quoted_body ''state'' (if fst w then ''closed'' else ''open'')\<rparr>, w)
      | MethodPatch \<Rightarrow> (Inr \<lparr>rsStatus = 200, rsBody = ''''\<rparr>, (True, snd w))
      | MethodPost \<Rightarrow>
          if rqBody rq = '''' then (Inr \<lparr>rsStatus = 201, rsBody = quoted_body ''token'' ''t''\<rparr>, w)
          else (Inr \<lparr>rsStatus = 201, rsBody = ''''\<rparr>, (fst w, snd w @ [rqBody rq])))"

definition sample_http :: "(bool \<times> string list) http_client" where
  "sample_http = \<lparr>hcDo = sample_do, hcParseURL = (\<lambda>_. None)\<rparr>"

definition sample_provider :: "(bool \<times> string list) GitHubAppTokenProvider" where
  "sample_provider = \<lparr>tpAppID = 1, tpInstallationID = 2, tpSign = (\<lambda>_ _ _. Inr ''jwt''), tpBaseURL = '''',
     tpHTTPClient = sample_http, tpNow = Pair (1000 * Second)\<rparr>"

definition sample_api :: "(bool \<times> string list) github_api" where
  "sample_api = \<lparr>TokenProvider = Token sample_provider, BaseURL = '''', HTTPClient = sample_http\<rparr>"

definition sample_sys :: "(bool \<times> string list) sink_sys" where
  "sample_sys = \<lparr>skWorld = (False, []), skToken = '''', skExpiresAt = 0, skTrace = []\<rparr>"

definition sample_sink_job :: RemediationJob where
  "sample_sink_job = upd_status (\<lambda>st. st\<lparr>stSinkRef := \<lparr>srType = ''pr'', srURL = ''u'', srNumber = 7, srRepo = ''o/r''\<rparr>\<rparr>)
     (sample_rjob ''a'' 0 (sample_finding ''Pod'' ''ns'' ''p'') PhaseSucceeded)"

lemma sample_bodies:
  "decode_body ''state'' (quoted_body ''state'' ''closed'') = Inr ''closed''"
  "decode_body ''state'' (quoted_body ''state'' ''open'') = Inr ''open''"
  "decode_body ''token'' (quoted_body ''token'' ''t'') = Inr ''t''"
  by code_simp+

theorem close_sends_in_order_witness:
  "\<exists>jwt token fs.
    subseq fs [Sent \<lparr>rqMethod = MethodPost, rqURL = token_url sample_provider, rqBearer = jwt, rqBody = ''''\<rparr>,
      Sent (get_item sample_api token (stSinkRef (rjStatus sample_sink_job))),
      Sent (comment_item sample_api token (stSinkRef (rjStatus sample_sink_job)) ''fixed''),
      Sent (close_item sample_api token (stSinkRef (rjStatus sample_sink_job))), PRClosed]
    \<and> skTrace (snd (run_state (GitHubSinkCloser_Close sample_api sample_sink_job ''fixed'') sample_sys)) = fs"
proof -
  have t: "TokenProvider sample_api = Token sample_provider" by (simp add: sample_api_def)
  from close_sends_in_order [OF t surjective_pairing, of sample_sink_job "''fixed''" sample_sys]
  show ?thesis by (auto simp: sample_sys_def)
qed

lemma sample_token:
  "\<exists>tok s'. run_state (Token sample_provider) s = (Inr tok, s') \<and> fst (skWorld s') = fst (skWorld s)
     \<and> snd (skWorld s') = snd (skWorld s)"
  by (cases "skToken s \<noteq> '''' \<and> 1000 * Second < skExpiresAt s")
    (auto simp: Token_def exchange_def send_def sample_provider_def sample_http_def sample_do_def run_reach
      read_token_def sample_bodies time_Before_def)

lemma sample_serves: "serves sample_api fst snd ref"
  using sample_token
  by (auto simp: serves_def sample_api_def sample_http_def sample_do_def get_item_def comment_item_def close_item_def
      json_object1_def sample_bodies)

theorem close_idempotent_witness:
  "\<exists>s'. run_state (close_all sample_api sample_sink_job [''fixed'', ''fixed again'']) sample_sys = ([None, None], s')
    \<and> skWorld s' = (True, [json_object1 ''body'' ''fixed''])"
proof -
  have v: "valid_ref (stSinkRef (rjStatus sample_sink_job))"
    by (simp add: valid_ref_def sample_sink_job_def sample_rjob_def)
  from close_idempotent [OF sample_serves v, of "''fixed''" "[''fixed again'']" sample_sys] obtain s' where
    "run_state (close_all sample_api sample_sink_job [''fixed'', ''fixed again'']) sample_sys = ([None, None], s')"
    and "fst (skWorld s')" and "snd (skWorld s') = [json_object1 ''body'' ''fixed'']"
    by (auto simp: sample_sys_def)
  then show ?thesis by (intro exI [of _ s']) (auto intro: prod_eqI)
qed

section \<open>Tokens are shared\<close>

text \<open>
  After a call that returned a token, every call before the token expires returns the same token
  and sends nothing, whatever the world did in between.
\<close>

lemma Token_cached:
  assumes "run_state (Token p) s = (Inr tok, s1)"
  shows "skToken s1 = tok \<and> tok \<noteq> ''''"
  using assms
  by (auto simp: Token_def exchange_def read_token_def run_reach send_def Let_def
      split: if_splits sum.splits option.splits prod.splits)

lemma Token_reused:
  assumes "run_state (Token p) s = (Inr tok, s1)" and "skToken s2 = skToken s1" and "skExpiresAt s2 = skExpiresAt s1"
    and "tpNow p (skWorld s2) = (t, w)" and "t < skExpiresAt s1"
  shows "run_state (Token p) s2 = (Inr tok, s2\<lparr>skWorld := w\<rparr>)"
  using Token_cached [OF assms(1)] assms(2-) by (simp add: Token_def run_reach time_Before_def)

section \<open>When a pull request counts as merged\<close>

text \<open>The checker answers yes only after asking about a pull request and hearing 204.\<close>

lemma IsMerged_asked:
  assumes "run_state (GitHubPRMergeChecker_IsMerged c ref) s = (Inr True, s')"
  shows "srType ref = ''pr'' \<and> valid_ref ref \<and> (\<exists>token w. Sent \<lparr>rqMethod = MethodGet,
      rqURL = pull_url (base_url (BaseURL c)) (srRepo ref) (srNumber ref) @ ''/merge'', rqBearer = token, rqBody = ''''\<rparr> \<in> set (skTrace s')
    \<and> (\<exists>resp. fst (hcDo (HTTPClient c) \<lparr>rqMethod = MethodGet,
      rqURL = pull_url (base_url (BaseURL c)) (srRepo ref) (srNumber ref) @ ''/merge'', rqBearer = token, rqBody = ''''\<rparr> w) = Inr resp
      \<and> rsStatus resp = 204))"
  using assms
  by (fastforce simp: GitHubPRMergeChecker_IsMerged_def read_merged_def run_reach send_def Let_def valid_ref_def
      split: if_splits sum.splits option.splits prod.splits)

end
