(* ===== verification/Metrics.thy ===== *)
theory Metrics
  imports Provider "HOL-Library.Multiset"
begin

text \<open>
  The metrics (\<open>src/internal/metrics/metrics.go\<close>): what the record functions do to the registry. The reconcilers
  emit them as effects; \<open>scrape\<close> is the registry after a trace. A counter vector is a multiset of label
  values: the count of a label is the value of its counter. Gauges of durations are kept in nanoseconds.
\<close>

section \<open>The registry\<close>

record registry =
  FindingsDispatchedTotal :: "(string \<times> string) multiset"
  FindingsSuppressedTotal :: "string multiset"
  AgentJobsActive :: int
  AgentJobsPending :: int
  AgentJobDurationSeconds :: "string \<times> string \<rightharpoonup> duration"
  PRsOpenedTotal :: nat
  PRsClosedTotal :: nat
  CircuitBreakerActivationsTotal :: nat

definition new_registry :: registry where
  "new_registry = \<lparr>FindingsDispatchedTotal = {#}, FindingsSuppressedTotal = {#}, AgentJobsActive = 0, AgentJobsPending = 0,
     AgentJobDurationSeconds = Map.empty, PRsOpenedTotal = 0, PRsClosedTotal = 0, CircuitBreakerActivationsTotal = 0\<rparr>"

definition observe_duration :: "string \<Rightarrow> string \<Rightarrow> gotime \<Rightarrow> gotime \<Rightarrow> registry \<Rightarrow> registry" where
  "observe_duration fp outcome dispatched completed reg =
     (if time_IsZero dispatched \<or> time_IsZero completed then reg
      else
        (let dur = time_Sub completed dispatched; dur = (if dur < 0 then 0 else dur)
         in reg\<lparr>AgentJobDurationSeconds := (AgentJobDurationSeconds reg)((fp, outcome) \<mapsto> dur)\<rparr>))"

fun apply_metric :: "metric \<Rightarrow> registry \<Rightarrow> registry" where
  "apply_metric (RecordDispatched kind severity) reg =
     reg\<lparr>FindingsDispatchedTotal := add_mset (kind, severity) (FindingsDispatchedTotal reg)\<rparr>"
| "apply_metric (RecordSuppressed reason) reg =
     reg\<lparr>FindingsSuppressedTotal := add_mset reason (FindingsSuppressedTotal reg)\<rparr>"
| "apply_metric (SetActiveJobs n) reg = reg\<lparr>AgentJobsActive := n\<rparr>"
| "apply_metric (SetPendingJobs n) reg = reg\<lparr>AgentJobsPending := n\<rparr>"
| "apply_metric (ObserveJobDuration fp outcome dispatched completed) reg = observe_duration fp outcome dispatched completed reg"
| "apply_metric RecordPROpened reg = reg\<lparr>PRsOpenedTotal := PRsOpenedTotal reg + 1\<rparr>"
| "apply_metric RecordCircuitBreakerActivation reg =
     reg\<lparr>CircuitBreakerActivationsTotal := CircuitBreakerActivationsTotal reg + 1\<rparr>"

text \<open>Called by the closer of theory Sink, whose effect \<open>PRClosed\<close> it is.\<close>

definition RecordPRClosed :: "registry \<Rightarrow> registry" where
  "RecordPRClosed reg = reg\<lparr>PRsClosedTotal := PRsClosedTotal reg + 1\<rparr>"

fun scrape :: "effect list \<Rightarrow> registry \<Rightarrow> registry" where
  "scrape [] reg = reg"
| "scrape (Metric m # es) reg = scrape es (apply_metric m reg)"
| "scrape (ef # es) reg = scrape es reg"

lemma scrape_append [simp]: "scrape (es @ fs) reg = scrape fs (scrape es reg)"
  by (induction es reg rule: scrape.induct) simp_all

section \<open>Durations\<close>

text \<open>A duration on display is never negative, also when the clock went back between the two times.\<close>

definition durations_ok :: "registry \<Rightarrow> bool" where
  "durations_ok reg \<longleftrightarrow> (\<forall>l d. AgentJobDurationSeconds reg l = Some d \<longrightarrow> 0 \<le> d \<and> d < 2 ^ 63)"

lemma apply_metric_durations: "durations_ok reg \<Longrightarrow> durations_ok (apply_metric m reg)"
  by (cases m) (auto simp: durations_ok_def observe_duration_def time_Sub_def Let_def)

lemma scrape_durations: "durations_ok reg \<Longrightarrow> durations_ok (scrape es reg)"
  by (induction es reg rule: scrape.induct) (simp_all add: apply_metric_durations)

section \<open>Counters count\<close>

definition creations :: "effect list \<Rightarrow> nat" where
  "creations es = length (filter (\<lambda>ef. case ef of CreateRJob j None \<Rightarrow> True | _ \<Rightarrow> False) es)"

definition dispatch_records :: "effect list \<Rightarrow> nat" where
  "dispatch_records es = length (filter (\<lambda>ef. case ef of Metric (RecordDispatched k v) \<Rightarrow> True | _ \<Rightarrow> False) es)"

lemma size_dispatched: "size (FindingsDispatchedTotal (scrape es reg)) = size (FindingsDispatchedTotal reg) + dispatch_records es"
proof (induction es reg rule: scrape.induct)
  case (2 m es reg)
  then show ?case by (cases m) (simp_all add: dispatch_records_def observe_duration_def Let_def)
qed (simp_all add: dispatch_records_def)

definition neither :: "effect \<Rightarrow> bool" where
  "neither ef = (case ef of CreateRJob _ _ \<Rightarrow> False | Metric (RecordDispatched _ _) \<Rightarrow> False | _ \<Rightarrow> True)"

lemma neither_simps [simp]:
  "neither (PatchStatus b j x)" "neither (DeleteRJob j x)" "neither (CloseSink j m y)" "neither (Event su ty re ms)"
  "neither (Metric (RecordSuppressed reason))" "neither (Metric RecordCircuitBreakerActivation)"
  by (simp_all add: neither_def)

definition balanced :: "('w, 'a) prog \<Rightarrow> bool" where
  "balanced m \<longleftrightarrow> does m (\<lambda>x es. creations es = dispatch_records es)"

lemma neither_counts: "list_all neither es \<Longrightarrow> creations es = 0 \<and> dispatch_records es = 0"
  by (induction es) (auto simp: creations_def dispatch_records_def neither_def split: effect.splits metric.splits)

lemma balanced_emits: "emits neither m \<Longrightarrow> balanced m"
  unfolding emits_def balanced_def by (erule does_mono) (simp add: neither_counts)

lemma balanced_bind: "balanced m \<Longrightarrow> (\<And>x. balanced (f x)) \<Longrightarrow> balanced (State_Monad.bind m f)"
  unfolding balanced_def
  by (erule does_bind [where U = "\<lambda>x y es. creations es = dispatch_records es"])
    (simp_all add: creations_def dispatch_records_def)

lemma balanced_gate: "emits neither g \<Longrightarrow> balanced m \<Longrightarrow> balanced (gate g m)"
  unfolding gate_def
  by (rule balanced_bind [OF balanced_emits]) (auto split: option.splits intro: balanced_emits [OF emits_prim(1)])

lemma stages_neither:
  "emits neither (injection_gate r t)" "emits neither (namespace_gate r f)" "emits neither (severity_gate r f)"
  "emits neither (self_remediation_gate r f)" "emits neither (stabilisation_gate r m an fp)"
  "emits neither (parent_gate r f)" "emits neither (readiness_gate r)"
  unfolding stage_defs by (intro emits_rules; simp)+

lemma duplicate_neither: "emits neither (duplicate r n w)"
  unfolding duplicate_def suppressed_def by (intro emits_rules; simp)

lemma dedup_loop_neither: "emits neither (dedup_loop r fp js)"
proof (induction js)
  case (Cons j js)
  have "emits neither (dedup_succeeded r j)"
    unfolding dedup_succeeded_def check_merged_def by (intro emits_rules duplicate_neither; simp)
  with Cons show ?case
    by (cases "rjPhase j") (auto simp: suppressed_def intro!: emits_rules duplicate_neither)
qed (simp add: emits_rules)

lemma dedup_gate_neither: "emits neither (dedup_gate r fp)"
  unfolding dedup_gate_def by (intro emits_rules dedup_loop_neither)

lemma create_stage_balanced: "balanced (create_stage r req f fp)"
  by (auto simp: balanced_def does_def create_stage_def run_simps creations_def dispatch_records_def
      split: prod.splits sum.splits)

lemma handle_finding_balanced: "balanced (handle_finding r m req obj f)"
proof -
  have "balanced (handle_fingerprint r m req obj f fp)" for fp
    unfolding handle_fingerprint_def by (intro balanced_gate stages_neither dedup_gate_neither create_stage_balanced)
  then have "balanced (case fingerprint_of f of Inl er \<Rightarrow> ret (fail er) | Inr fp \<Rightarrow> handle_fingerprint r m req obj f fp)"
    by (cases "fingerprint_of f") (auto intro: balanced_emits emits_rules)
  then show ?thesis unfolding handle_finding_def by (intro balanced_gate stages_neither)
qed

lemma Reconcile_balanced: "balanced (Provider_Reconcile r req)"
proof -
  have last: "balanced (case x of Inl er \<Rightarrow> ret (fail er) | Inr None \<Rightarrow> on_finding_cleared r m req
      | Inr (Some f) \<Rightarrow> handle_finding r m req obj f)" for x :: "goerr + Finding option" and m obj
    by (auto split: sum.splits option.splits
        intro: handle_finding_balanced balanced_emits [OF emits_prim(1)] balanced_emits [OF gone_or_cleared_emits(2)])
  have gone: "balanced (on_source_gone r m req)" "balanced (ret (fail er))" for er m
    by (auto intro: balanced_emits [OF emits_prim(1)] balanced_emits [OF gone_or_cleared_emits(1)])
  show ?thesis
    unfolding Provider_Reconcile_def
    by (intro balanced_bind [OF balanced_emits [OF initFirstSeen_emits]] balanced_bind [OF balanced_emits [OF emits_prim(3)]])
      (auto split: sum.splits intro!: gone last balanced_bind [OF balanced_emits [OF emits_prim(3)]])
qed

text \<open>
  C10. A reconcile of a provider creates at most one \<open>RemediationJob\<close>, and the counter of dispatched findings
  counts exactly the ones the API accepted, on every path and whatever the API answers.
\<close>

theorem creates_at_most_one_counted:
  "\<exists>es. trace (snd (run_state (Provider_Reconcile r req) s)) = trace s @ es
    \<and> length (filter is_create es) \<le> 1
    \<and> size (FindingsDispatchedTotal (scrape (trace s @ es) reg)) = size (FindingsDispatchedTotal (scrape (trace s) reg)) + creations es"
proof -
  from Reconcile_balanced [of r req] obtain es where es: "trace (snd (run_state (Provider_Reconcile r req) s)) = trace s @ es"
    "creations es = dispatch_records es" unfolding balanced_def does_def by blast
  moreover have "length (filter is_create es) \<le> 1"
    using Reconcile_creates_once [of r req] es(1) unfolding at_most_def does_def by (metis same_append_eq)
  ultimately show ?thesis by (auto simp: size_dispatched)
qed

end
