(* ===== verification/DeepCopy.thy ===== *)
theory DeepCopy
  imports Types Prelude
begin

text \<open>
  The copies the API machinery takes of a \<open>RemediationJob\<close> and of a list of them (\<open>DeepCopyInto\<close> and \<open>DeepCopyObject\<close> in
  \<open>src/api/v1alpha1/remediationjob_types.go\<close>), on an explicit store: the times and the conditions of the status
  are pointers, and a copy that kept one of them would share it with the cached original. The value-typed
  fields and the metadata, which apimachinery copies, are values.
\<close>

section \<open>The store\<close>

datatype cell = TimeCell gotime | ConditionsCell "Condition list"

record store =
  cells :: "nat \<rightharpoonup> cell"
  free :: nat

record HeapJob =
  hjValue :: RemediationJob \<comment> \<open>the fields that are values; the pointers below stand for the four others\<close>
  hjDispatchedAt :: "nat option"
  hjCompletedAt :: "nat option"
  hjConditions :: "nat option"
  hjPRMergedAt :: "nat option"

definition alloc :: "cell option \<Rightarrow> (store, nat) state" where
  "alloc c = State (\<lambda>s. (free s, s\<lparr>cells := (cells s)(free s := c), free := Suc (free s)\<rparr>))"

definition load :: "nat \<Rightarrow> (store, cell option) state" where
  "load a = State (\<lambda>s. (cells s a, s))"

definition poke :: "nat \<Rightarrow> cell \<Rightarrow> store \<Rightarrow> store" where
  "poke a c s = s\<lparr>cells := (cells s)(a \<mapsto> c)\<rparr>"

text \<open>The object a reader sees.\<close>

definition content :: "store \<Rightarrow> nat option \<Rightarrow> cell option" where
  "content s p = (case p of None \<Rightarrow> None | Some a \<Rightarrow> cells s a)"

definition time_at :: "store \<Rightarrow> nat option \<Rightarrow> gotime option" where
  "time_at s p = (case content s p of Some (TimeCell t) \<Rightarrow> Some t | _ \<Rightarrow> None)"

definition conditions_at :: "store \<Rightarrow> nat option \<Rightarrow> Condition list" where
  "conditions_at s p = (case content s p of Some (ConditionsCell cs) \<Rightarrow> cs | _ \<Rightarrow> [])"

definition job_view :: "store \<Rightarrow> HeapJob \<Rightarrow> RemediationJob" where
  "job_view s j = upd_status (\<lambda>st. st\<lparr>stDispatchedAt := time_at s (hjDispatchedAt j),
     stCompletedAt := time_at s (hjCompletedAt j), stConditions := conditions_at s (hjConditions j),
     stPRMergedAt := time_at s (hjPRMergedAt j)\<rparr>) (hjValue j)"

section \<open>The copies\<close>

text \<open>\<open>if p != nil { t := *p; out.p = &t }\<close>: a nil pointer stays nil, as the shallow copy left it.\<close>

definition copy_pointer :: "nat option \<Rightarrow> (store, nat option) state" where
  "copy_pointer p =
     (case p of
        None \<Rightarrow> ret None
      | Some a \<Rightarrow> do { t \<leftarrow> load a; b \<leftarrow> alloc t; ret (Some b) })"

definition HeapJob_DeepCopyInto :: "HeapJob \<Rightarrow> (store, HeapJob) state" where
  "HeapJob_DeepCopyInto self = do {
     dispatchedAt \<leftarrow> copy_pointer (hjDispatchedAt self);
     completedAt \<leftarrow> copy_pointer (hjCompletedAt self);
     conditions \<leftarrow> copy_pointer (hjConditions self);
     prMergedAt \<leftarrow> copy_pointer (hjPRMergedAt self);
     ret (self\<lparr>hjDispatchedAt := dispatchedAt, hjCompletedAt := completedAt, hjConditions := conditions,
       hjPRMergedAt := prMergedAt\<rparr>) }"

fun copy_items :: "HeapJob list \<Rightarrow> (store, HeapJob list) state" where
  "copy_items [] = ret []"
| "copy_items (j # js) = do { out \<leftarrow> HeapJob_DeepCopyInto j; outs \<leftarrow> copy_items js; ret (out # outs) }"

text \<open>A list object is its \<open>Items\<close>, which may be nil; a nil receiver of \<open>DeepCopyObject\<close> gives nil.\<close>

type_synonym HeapJobList = "HeapJob list option"

definition HeapJobList_DeepCopyInto :: "HeapJobList \<Rightarrow> (store, HeapJobList) state" where
  "HeapJobList_DeepCopyInto self =
     (case self of None \<Rightarrow> ret None | Some items \<Rightarrow> do { outs \<leftarrow> copy_items items; ret (Some outs) })"

definition HeapJob_DeepCopyObject :: "HeapJob option \<Rightarrow> (store, HeapJob option) state" where
  "HeapJob_DeepCopyObject self =
     (case self of None \<Rightarrow> ret None | Some j \<Rightarrow> do { out \<leftarrow> HeapJob_DeepCopyInto j; ret (Some out) })"

definition HeapJobList_DeepCopyObject :: "HeapJobList option \<Rightarrow> (store, HeapJobList option) state" where
  "HeapJobList_DeepCopyObject self =
     (case self of None \<Rightarrow> ret None | Some l \<Rightarrow> do { out \<leftarrow> HeapJobList_DeepCopyInto l; ret (Some out) })"

section \<open>A copy shares nothing\<close>

definition pointers :: "HeapJob \<Rightarrow> nat set" where
  "pointers j = set_option (hjDispatchedAt j) \<union> set_option (hjCompletedAt j) \<union> set_option (hjConditions j) \<union> set_option (hjPRMergedAt j)"

text \<open>Every pointer of a job was allocated, and the store grows without changing what there was.\<close>

definition job_ok :: "store \<Rightarrow> HeapJob \<Rightarrow> bool" where
  "job_ok s j \<longleftrightarrow> (\<forall>a \<in> pointers j. a < free s)"

definition grows :: "store \<Rightarrow> store \<Rightarrow> bool" where
  "grows s s' \<longleftrightarrow> free s \<le> free s' \<and> (\<forall>a < free s. cells s' a = cells s a)"

lemma grows_refl [simp]: "grows s s"
  by (simp add: grows_def)

lemma grows_trans: "grows s t \<Longrightarrow> grows t u \<Longrightarrow> grows s u"
  by (auto simp: grows_def)

lemma pointers_simps:
  "set_option (hjDispatchedAt j) \<subseteq> pointers j" "set_option (hjCompletedAt j) \<subseteq> pointers j"
  "set_option (hjConditions j) \<subseteq> pointers j" "set_option (hjPRMergedAt j) \<subseteq> pointers j"
  by (auto simp: pointers_def)

lemma view_cong:
  assumes "\<And>a. a \<in> pointers j \<Longrightarrow> cells s' a = cells s a"
  shows "job_view s' j = job_view s j"
  using assms by (simp add: job_view_def time_at_def conditions_at_def content_def pointers_def split: option.splits)

lemma view_grows: "grows s s' \<Longrightarrow> job_ok s j \<Longrightarrow> job_view s' j = job_view s j"
  by (rule view_cong) (simp add: grows_def job_ok_def)

lemma job_ok_grows: "grows s s' \<Longrightarrow> job_ok s j \<Longrightarrow> job_ok s' j"
  by (auto simp: grows_def job_ok_def)

lemma content_grows: "grows s s' \<Longrightarrow> set_option p \<subseteq> {..<free s} \<Longrightarrow> content s' p = content s p"
  by (cases p) (auto simp: grows_def content_def)

text \<open>One pointer: a fresh cell with the contents of the old one.\<close>

lemma copy_pointer_fresh:
  assumes "run_state (copy_pointer p) s = (q, s')" and "set_option p \<subseteq> {..<free s}"
  shows "grows s s' \<and> content s' q = content s p \<and> set_option q \<subseteq> {free s..<free s'}"
  using assms by (auto simp: copy_pointer_def load_def alloc_def grows_def content_def split: option.splits)

lemma copy_job:
  assumes ok: "job_ok s j" and run: "run_state (HeapJob_DeepCopyInto j) s = (out, s')"
  shows "grows s s' \<and> job_view s' out = job_view s j \<and> pointers out \<subseteq> {free s..<free s'}"
proof -
  from run obtain d c k m s1 s2 s3 where
    runs: "run_state (copy_pointer (hjDispatchedAt j)) s = (d, s1)" "run_state (copy_pointer (hjCompletedAt j)) s1 = (c, s2)"
      "run_state (copy_pointer (hjConditions j)) s2 = (k, s3)" "run_state (copy_pointer (hjPRMergedAt j)) s3 = (m, s')"
    and out: "out = j\<lparr>hjDispatchedAt := d, hjCompletedAt := c, hjConditions := k, hjPRMergedAt := m\<rparr>"
    by (auto simp: HeapJob_DeepCopyInto_def split: prod.splits)
  have old: "set_option (hjDispatchedAt j) \<subseteq> {..<free s}" "set_option (hjCompletedAt j) \<subseteq> {..<free s}"
    "set_option (hjConditions j) \<subseteq> {..<free s}" "set_option (hjPRMergedAt j) \<subseteq> {..<free s}"
    using ok by (auto simp: job_ok_def pointers_def)
  have up: "set_option p \<subseteq> {..<free t}" if "set_option p \<subseteq> {..<free s}" "grows s t" for p t
    using that by (auto simp: grows_def)
  note f1 = copy_pointer_fresh [OF runs(1) old(1)]
  then have g1: "grows s s1" by simp
  note f2 = copy_pointer_fresh [OF runs(2) up [OF old(2) g1]]
  then have g2: "grows s1 s2" "grows s s2" using grows_trans [OF g1] by simp_all
  note f3 = copy_pointer_fresh [OF runs(3) up [OF old(3) g2(2)]]
  then have g3: "grows s2 s3" "grows s s3" "grows s1 s3" using grows_trans [OF g2(1)] grows_trans [OF g2(2)] by simp_all
  note f4 = copy_pointer_fresh [OF runs(4) up [OF old(4) g3(2)]]
  then have g4: "grows s3 s'" "grows s s'" "grows s1 s'" "grows s2 s'"
    using grows_trans [OF g3(1)] grows_trans [OF g3(2)] grows_trans [OF g3(3)] by simp_all
  have below: "set_option q \<subseteq> {..<free u}" if "set_option q \<subseteq> {free t..<free u}" for q t u using that by auto
  have "content s' d = content s (hjDispatchedAt j)" "content s' c = content s (hjCompletedAt j)"
    "content s' k = content s (hjConditions j)" "content s' m = content s (hjPRMergedAt j)"
    using f1 f2 f3 f4 content_grows [OF g4(3) below] content_grows [OF g4(4) below] content_grows [OF g4(1) below]
      content_grows [OF g1 old(2)] content_grows [OF g2(2) old(3)] content_grows [OF g3(2) old(4)] by metis+
  then have view: "job_view s' out = job_view s j" by (simp add: job_view_def time_at_def conditions_at_def out)
  have "pointers out = set_option d \<union> set_option c \<union> set_option k \<union> set_option m" by (simp add: pointers_def out)
  moreover have "free s \<le> free s1" "free s1 \<le> free s2" "free s2 \<le> free s3" "free s3 \<le> free s'"
    using g1 g2 g3 g4 by (simp_all add: grows_def)
  ultimately have "pointers out \<subseteq> {free s..<free s'}" using f1 f2 f3 f4 by force
  with view g4(2) show ?thesis by simp
qed

lemma copy_items_fresh:
  assumes "list_all (job_ok s) js" and "run_state (copy_items js) s = (outs, s')"
  shows "grows s s' \<and> map (job_view s') outs = map (job_view s) js \<and> (\<forall>out \<in> set outs. pointers out \<subseteq> {free s..<free s'})"
  using assms
proof (induction js arbitrary: s outs)
  case (Cons j js)
  from Cons.prems(2) obtain out1 rest t where j: "run_state (HeapJob_DeepCopyInto j) s = (out1, t)"
    and js: "run_state (copy_items js) t = (rest, s')" and outs: "outs = out1 # rest"
    by (auto split: prod.splits)
  note c = copy_job [OF _ j]
  have ok: "job_ok s j" "list_all (job_ok s) js" using Cons.prems(1) by simp_all
  have g: "grows s t" using c ok(1) by blast
  have "list_all (job_ok t) js" using ok(2) job_ok_grows [OF g] by (auto simp: list_all_iff)
  note ih = Cons.IH [OF this js]
  have views: "map (job_view t) js = map (job_view s) js" using ok(2) view_grows [OF g] by (auto simp: list_all_iff)
  have "job_ok t out1" using c ok(1) by (auto simp: job_ok_def)
  then have first: "job_view s' out1 = job_view s j" using view_grows [of t s' out1] ih c ok(1) by simp
  have le: "free s \<le> free t" "free t \<le> free s'" using g ih by (simp_all add: grows_def)
  have "pointers out1 \<subseteq> {free s..<free s'}" using c ok(1) le by fastforce
  moreover have "\<forall>out \<in> set rest. pointers out \<subseteq> {free s..<free s'}" using ih le by fastforce
  ultimately show ?case using first views ih grows_trans [OF g] outs by simp
qed simp

lemma poke_elsewhere: "a \<notin> pointers j \<Longrightarrow> job_view (poke a c s) j = job_view s j"
  by (rule view_cong) (auto simp: poke_def)

text \<open>
  C37. A copied list shares nothing with the original: the copy reads as the value-level copy of every
  item, and afterwards no write through a pointer of the copy shows in the original, nor one through the
  original in the copy. So a reconciler may change what it was handed without changing the cache.
\<close>

theorem deep_copy_separates:
  assumes "list_all (job_ok s) items" and "run_state (HeapJobList_DeepCopyInto (Some items)) s = (Some outs, s')"
  shows "map (job_view s') outs = map (\<lambda>j. RemediationJob_DeepCopyInto (job_view s j)) items
    \<and> (\<forall>out \<in> set outs. \<forall>a \<in> pointers out. \<forall>c. map (job_view (poke a c s')) items = map (job_view s) items)
    \<and> (\<forall>j \<in> set items. \<forall>a \<in> pointers j. \<forall>c. map (job_view (poke a c s')) outs = map (job_view s') outs)"
proof -
  from assms(2) have "run_state (copy_items items) s = (outs, s')"
    by (auto simp: HeapJobList_DeepCopyInto_def split: prod.splits)
  note c = copy_items_fresh [OF assms(1) this]
  have old: "a < free s" if "j \<in> set items" "a \<in> pointers j" for j a
    using assms(1) that by (auto simp: list_all_iff job_ok_def)
  have new: "free s \<le> a" if "out \<in> set outs" "a \<in> pointers out" for out a using c that by fastforce
  have same: "job_view s' j = job_view s j" if "j \<in> set items" for j
    using view_grows c assms(1) that by (auto simp: list_all_iff)
  have "map (job_view (poke a x s')) items = map (job_view s) items" if "out \<in> set outs" "a \<in> pointers out" for out a x
    using that same poke_elsewhere old new by (metis (no_types, lifting) map_eq_conv not_le)
  moreover have "map (job_view (poke a x s')) outs = map (job_view s') outs" if "j \<in> set items" "a \<in> pointers j" for j a x
    using that poke_elsewhere old new by (metis (no_types, lifting) map_eq_conv not_le)
  ultimately show ?thesis using c by simp
qed

definition sample_store :: store where
  "sample_store = \<lparr>cells = [0 \<mapsto> TimeCell 5, 1 \<mapsto> ConditionsCell []], free = 2\<rparr>"

definition sample_heap_job :: "RemediationJob \<Rightarrow> HeapJob" where
  "sample_heap_job v = \<lparr>hjValue = v, hjDispatchedAt = Some 0, hjCompletedAt = None, hjConditions = Some 1, hjPRMergedAt = None\<rparr>"

theorem deep_copy_separates_witness:
  "\<forall>v. \<exists>out s'. run_state (HeapJobList_DeepCopyInto (Some [sample_heap_job v])) sample_store = (Some [out], s')
    \<and> hjDispatchedAt out = Some 2 \<and> job_view (poke 2 (TimeCell 9) s') (sample_heap_job v) = job_view sample_store (sample_heap_job v)"
proof
  fix v
  obtain out s' where run: "run_state (HeapJobList_DeepCopyInto (Some [sample_heap_job v])) sample_store = (Some [out], s')"
    and two: "hjDispatchedAt out = Some 2"
    by (simp add: HeapJobList_DeepCopyInto_def HeapJob_DeepCopyInto_def copy_pointer_def load_def alloc_def sample_heap_job_def sample_store_def)
  have "list_all (job_ok sample_store) [sample_heap_job v]"
    by (simp add: job_ok_def pointers_def sample_heap_job_def sample_store_def)
  from deep_copy_separates [OF this run] two run show "\<exists>out s'. run_state (HeapJobList_DeepCopyInto (Some [sample_heap_job v])) sample_store = (Some [out], s')
    \<and> hjDispatchedAt out = Some 2 \<and> job_view (poke 2 (TimeCell 9) s') (sample_heap_job v) = job_view sample_store (sample_heap_job v)"
    by (auto simp: pointers_def)
qed

end
