(* ===== verification/Starvation.thy ===== *)
theory Starvation
  imports Provider
begin

text \<open>
  Two ways in which the stabilisation window of theory Provider holds a finding back for longer than the window: the
  reconcile of a healthy object restarts every window, and a finding about the watcher's own jobs that comes
  alone is never investigated, because the circuit breaker is asked before the window and its cooldown
  outlasts the memory of the window.
\<close>

section \<open>State of the gates\<close>

text \<open>Programs that touch neither the first-seen map nor the circuit breaker.\<close>

definition frames :: "('w, 'a) prog \<Rightarrow> bool" where
  "frames m \<longleftrightarrow> (\<forall>s. firstSeen (snd (run_state m s)) = firstSeen s \<and> breaker (snd (run_state m s)) = breaker s)"

named_theorems frames_rules \<open>introduction rules for \<open>frames\<close>\<close>

lemma frames_bind [frames_rules]: "frames m \<Longrightarrow> (\<And>x. frames (f x)) \<Longrightarrow> frames (State_Monad.bind m f)"
  by (auto simp: frames_def run_bind split: prod.splits) (metis snd_conv)+

lemma frames_prim [frames_rules]: "frames (ret x)" "frames (emit e)" "frames (outside f)" "frames (Now env)"
  by (auto simp: frames_def run_simps split: prod.splits)

lemma frames_calls [frames_rules]:
  "frames (Patch_status e j b)" "frames (Delete_rjob e j)" "frames (record_event wired su ty re ms)"
  unfolding Patch_status_def Delete_rjob_def record_event_def by (auto intro!: frames_rules)

lemma frames_if [frames_rules]: "(b \<Longrightarrow> frames m) \<Longrightarrow> (\<not> b \<Longrightarrow> frames n) \<Longrightarrow> frames (if b then m else n)"
  by simp

lemma frames_cases [frames_rules]:
  "(x = None \<Longrightarrow> frames m) \<Longrightarrow> (\<And>y. x = Some y \<Longrightarrow> frames (f y)) \<Longrightarrow> frames (case x of None \<Rightarrow> m | Some y \<Rightarrow> f y)"
  "(\<And>y. z = Inl y \<Longrightarrow> frames (g y)) \<Longrightarrow> (\<And>y. z = Inr y \<Longrightarrow> frames (h y)) \<Longrightarrow> frames (case z of Inl y \<Rightarrow> g y | Inr y \<Rightarrow> h y)"
  "(\<And>u v. p = (u, v) \<Longrightarrow> frames (k u v)) \<Longrightarrow> frames (case p of (u, v) \<Rightarrow> k u v)"
  by (auto split: option.splits sum.splits prod.splits)

lemma frames_let [frames_rules]: "(\<And>x. x = v \<Longrightarrow> frames (f x)) \<Longrightarrow> frames (let x = v in f x)"
  by simp

lemma frames_gates:
  "frames (injection_gate r t)" "frames (namespace_gate r f)" "frames (severity_gate r f)"
  unfolding injection_gate_def namespace_gate_def severity_gate_def suppressed_def by (intro frames_rules)+

lemma frames_close: "frames (Close closer j)" "frames (autoCloseSucceededSinks closer req js)"
proof -
  show c: "frames (Close closer j)" for j unfolding Close_def by (intro frames_rules)
  show "frames (autoCloseSucceededSinks closer req js)" by (induction js) (auto intro!: frames_rules c)
qed

lemma frames_cancel: "frames (cancel_job r j)" "frames (cancel_loop r req js)"
proof -
  show c: "frames (cancel_job r j)" for j unfolding cancel_job_def by (intro frames_rules frames_close)
  show "frames (cancel_loop r req js)" by (induction js) (auto intro!: frames_rules c)
qed

text \<open>After the source is gone or healthy the first-seen map is empty.\<close>

definition cleared_rest :: "('w, 'o) SourceProviderReconciler \<Rightarrow> NamespacedName \<Rightarrow> ('w, outcome) prog" where
  "cleared_rest r req = do {
     record_event (hasRecorder r) OnSource ''Normal'' ''FindingCleared'' ''Finding cleared; no active finding on this object'';
     (case (PRAutoClose (spCfg r), SinkCloser r) of
        (True, Some closer) \<Rightarrow> do {
          l \<leftarrow> outside (list_rjobs (spEnv r) (AgentNamespace (spCfg r)) []);
          case l of Inr items \<Rightarrow> autoCloseSucceededSinks closer req items | Inl _ \<Rightarrow> ret () }
      | _ \<Rightarrow> ret ());
     ret finish }"

lemma clears:
  "\<exists>t w. run_state (on_finding_cleared r m req) s = run_state (cleared_rest r req) (s\<lparr>world := w, firstSeen := Some (BoundedMap_Clear m t)\<rparr>)
    \<and> now (spEnv r) (world s) = (t, w)"
  by (cases "now (spEnv r) (world s)")
    (simp add: on_finding_cleared_def cleared_rest_def clear_firstSeen_def run_bind run_Now run_firstSeen)

lemma frames_cleared_rest: "frames (cleared_rest r req)"
  unfolding cleared_rest_def by (intro frames_rules) (auto intro!: frames_rules frames_close split: bool.splits option.splits)

section \<open>A healthy object restarts every window\<close>

lemma empty_map_holds:
  assumes "bmData m = []" and "StabilisationWindow (spCfg r) \<noteq> 0" and "map_get an AnnotationPriority \<noteq> ''critical''"
  shows "passes (stabilisation_gate r m an fp) False"
  using assms
  by (auto simp: passes_def stabilisation_gate_def BoundedMap_Get_def Let_def run_bind run_Now suppressed_def run_emit run_firstSeen
      split: prod.splits)

lemma empty_map_quiet:
  assumes "bmData m = []" and "StabilisationWindow (spCfg r) \<noteq> 0"
    and "\<And>obj. map_get (GetAnnotations r obj) AnnotationPriority \<noteq> ''critical''"
  shows "emits (\<lambda>ef. \<not> is_create ef) (handle_finding r m req obj f)"
proof -
  have "emits (\<lambda>ef. \<not> is_create ef) (handle_fingerprint r m req obj f fp)" for fp
    unfolding handle_fingerprint_def by (rule emits_gate [OF _ empty_map_holds [OF assms]]) (auto intro: stage_emits)
  then show ?thesis
    unfolding handle_finding_def by (intro emits_gate [OF _ passes_trivial] stage_emits emits_rules) simp_all
qed

text \<open>What follows once the first-seen map is there.\<close>

definition reconcile_with :: "('w, 'o) SourceProviderReconciler \<Rightarrow> BoundedMap \<Rightarrow> NamespacedName \<Rightarrow> ('w, outcome) prog" where
  "reconcile_with r m req = do {
     o' \<leftarrow> outside (get_source r req);
     case o' of
       Inl er \<Rightarrow> if \<not> IsNotFound er then ret (fail (Api er)) else on_source_gone r m req
     | Inr obj \<Rightarrow> do {
         x \<leftarrow> outside (ExtractFinding r obj);
         case x of
           Inl er \<Rightarrow> ret (fail er)
         | Inr None \<Rightarrow> on_finding_cleared r m req
         | Inr (Some f) \<Rightarrow> handle_finding r m req obj f } }"

lemma Reconcile_with: "Provider_Reconcile r req = do { m \<leftarrow> initFirstSeen r; reconcile_with r m req }"
  by (simp add: Provider_Reconcile_def reconcile_with_def)

lemma known_map_run: "firstSeen s = Some m \<Longrightarrow> run_state (Provider_Reconcile r req) s = run_state (reconcile_with r m req) s"
  by (simp add: Reconcile_with run_bind initFirstSeen_def run_simps)

lemma healthy_clears:
  assumes "firstSeen s = Some m" and "get_source r req (world s) = (Inr obj, w1)" and "ExtractFinding r obj w1 = (Inr None, w2)"
  shows "\<exists>m'. firstSeen (snd (run_state (Provider_Reconcile r req) s)) = Some m' \<and> bmData m' = []"
proof -
  let ?s = "s\<lparr>world := w2\<rparr>"
  have "run_state (Provider_Reconcile r req) s = run_state (on_finding_cleared r m req) ?s"
    using assms by (simp add: known_map_run [OF assms(1)] reconcile_with_def run_bind run_outside)
  moreover obtain t w where "run_state (on_finding_cleared r m req) ?s
      = run_state (cleared_rest r req) (?s\<lparr>world := w, firstSeen := Some (BoundedMap_Clear m t)\<rparr>)"
    using clears [of r m req ?s] by blast
  ultimately show ?thesis using frames_cleared_rest [of r req] by (simp add: frames_def BoundedMap_Clear_def)
qed

text \<open>
  C11. The reconcile of a healthy object restarts every window: when a provider has reconciled an object without a finding, the next
  reconcile creates no job, whichever object and finding it is about and however long that finding had been
  seen before (unless the object carries the critical-priority annotation or there is no window).
\<close>

theorem healthy_object_restarts_windows:
  assumes "firstSeen s = Some m" and "get_source r req (world s) = (Inr obj, w1)" and "ExtractFinding r obj w1 = (Inr None, w2)"
    and "StabilisationWindow (spCfg r) \<noteq> 0"
    and "\<And>obj. map_get (GetAnnotations r obj) AnnotationPriority \<noteq> ''critical''"
    and "snd (run_state (Provider_Reconcile r req) s) = s'"
  shows "\<exists>es. trace (snd (run_state (Provider_Reconcile r req') s')) = trace s' @ es \<and> list_all (\<lambda>ef. \<not> is_create ef) es"
proof -
  obtain m' where m': "firstSeen s' = Some m'" "bmData m' = []" using healthy_clears [OF assms(1-3)] assms(6) by blast
  have "emits (\<lambda>ef. \<not> is_create ef) (reconcile_with r m' req')"
    unfolding reconcile_with_def
    by (intro emits_rules gone_or_cleared_emits empty_map_quiet [OF m'(2) assms(4,5)]) simp_all
  then show ?thesis unfolding known_map_run [OF m'(1)] emits_def does_def by blast
qed

definition two_objects :: "(cluster, (string \<rightharpoonup> string) \<times> Finding option) SourceProviderReconciler" where
  "two_objects = sample_reconciler\<lparr>spEnv := settled_env, GetAnnotations := (\<lambda>_. Map.empty),
     get_source := (\<lambda>n c. (Inr (Map.empty, if nnName n = ''healthy'' then None
       else Some \<lparr>fKind = ''Pod'', fName = ''api-1'', fNamespace = ''prod'', fParentObject = '''', fErrors = ''[]'', fDetails = '''',
         fSeverity = SeverityHigh, fChainDepth = 0, fNodeName = ''''\<rparr>), c))\<rparr>"

theorem healthy_object_restarts_windows_witness:
  "\<exists>es. trace (snd (run_state (Provider_Reconcile two_objects \<lparr>nnNamespace = ''prod'', nnName = ''api-1''\<rparr>)
        (snd (run_state (Provider_Reconcile two_objects \<lparr>nnNamespace = ''prod'', nnName = ''healthy''\<rparr>) at_rest))))
      = trace (snd (run_state (Provider_Reconcile two_objects \<lparr>nnNamespace = ''prod'', nnName = ''healthy''\<rparr>) at_rest)) @ es
    \<and> list_all (\<lambda>ef. \<not> is_create ef) es"
proof -
  have seen: "firstSeen at_rest = Some \<lparr>bmData = [(''fp'', 1000 * Hour - Minute)], bmMaxSize = 1000,
     bmTtl = 4 * Minute, bmLastCleanup = 1000 * Hour - Minute, bmCleanupInterval = 2 * Minute\<rparr>"
    by (simp add: at_rest_def)
  have src: "get_source two_objects \<lparr>nnNamespace = ''prod'', nnName = ''healthy''\<rparr> (world at_rest) = (Inr (Map.empty, None), world at_rest)"
    by (simp add: two_objects_def)
  have none: "ExtractFinding two_objects (Map.empty, None) (world at_rest) = (Inr None, world at_rest)"
    by (simp add: two_objects_def sample_reconciler_def)
  have win: "StabilisationWindow (spCfg two_objects) \<noteq> 0" by (simp add: two_objects_def sample_reconciler_def default_Config_def go_defs)
  have an: "map_get (GetAnnotations two_objects obj) AnnotationPriority \<noteq> ''critical''" for obj
    by (simp add: two_objects_def map_get_def)
  show ?thesis by (rule healthy_object_restarts_windows [OF seen src none win an refl])
qed

section \<open>A lone self-remediation finding starves\<close>

text \<open>
  A reconcile takes at most \<open>d\<close>. \<open>remembered\<close>: what is in the first-seen map was entered, and the map was
  cleaned, no later than \<open>d\<close> after the last grant of the breaker; nothing lies after \<open>T\<close>.
\<close>

definition remembered :: "duration \<Rightarrow> duration \<Rightarrow> gotime \<Rightarrow> gotime \<Rightarrow> BoundedMap \<Rightarrow> bool" where
  "remembered W d T g m \<longleftrightarrow> bmTtl m = 2 * W \<and> bmCleanupInterval m = W \<and> bmLastCleanup m \<le> T + d
     \<and> (bmData m \<noteq> [] \<longrightarrow> g \<noteq> 0 \<and> bmLastCleanup m \<le> g + d \<and> (\<forall>e \<in> set (bmData m). snd e \<le> g + d))"

definition starving :: "duration \<Rightarrow> duration \<Rightarrow> duration \<Rightarrow> gotime \<Rightarrow> 'w sys \<Rightarrow> bool" where
  "starving C W d T s \<longleftrightarrow> (\<exists>b. breaker s = Some b \<and> cbCooldown b = C \<and> cbLastAllowed b \<le> T
     \<and> (\<forall>m. firstSeen s = Some m \<longrightarrow> remembered W d T (cbLastAllowed b) m))"

lemma remembered_later:
  assumes "remembered W d T g m" and "g \<le> T" and "T \<le> g'" and "T \<le> T'" and "0 < g'" and "0 \<le> d"
  shows "remembered W d T' g' m"
  using assms by (fastforce simp: remembered_def)

lemma starving_mono: "starving C W d T s \<Longrightarrow> T \<le> T' \<Longrightarrow> starving C W d T' s"
  by (cases "breaker s") (auto simp: starving_def remembered_def)

lemma remembered_expired:
  assumes "remembered W d T g m" and "g \<noteq> 0 \<Longrightarrow> C \<le> n1 - g" and "0 < W" and "2 * W + 2 * d < C" and "C < 2 ^ 63"
    and "n1 \<in> {t..t + d}" and "n2 \<in> {t..t + d}" and "n3 \<in> {t..t + d}"
  shows "BoundedMap_Get m fp n2 n3 = None"
proof (cases "bmData m = []")
  case False
  with assms(1) have m: "bmTtl m = 2 * W" "bmCleanupInterval m = W" "g \<noteq> 0" "bmLastCleanup m \<le> g + d"
    "\<forall>e \<in> set (bmData m). snd e \<le> g + d" by (simp_all add: remembered_def)
  have g: "g \<le> n1 - C" using assms(2) m(3) by simp
  have d: "0 \<le> d" using assms(6) by simp
  have "W < n2 - bmLastCleanup m" using g d m(4) assms(3-8) by auto
  then have clean: "BoundedMap_needsCleanup m n2"
    using assms(3,4,5) d by (simp add: BoundedMap_needsCleanup_def m time_Sub_greater_iff)
  have "2 * W < time_Sub n3 e" if "map_of (bmData m) fp = Some e" for e
  proof -
    have "e \<le> g + d" using m(5) map_of_SomeD [OF that] by fastforce
    then have "2 * W < n3 - e" using g assms(4,6,8) by auto
    then show ?thesis using assms(3,4,5) d by (simp add: time_Sub_greater_iff)
  qed
  then show ?thesis using clean assms(3) by (auto simp: BoundedMap_Get_def m split: option.splits)
qed (simp add: BoundedMap_Get_def)

lemma set_update_subset: "set (AList.update k v xs) \<subseteq> insert (k, v) (set xs)"
  by (induction xs) auto

lemma Set_entries:
  "set (bmData (fst (BoundedMap_Set rng m k t0 t1 t2 t3))) \<subseteq> insert (k, t0) (set (bmData m))"
proof -
  let ?m = "BoundedMap_cleanupIfNeeded m t1 t2 t3"
  have c: "set (bmData ?m) \<subseteq> set (bmData m)" by (auto simp: BoundedMap_cleanupIfNeeded_def Let_def)
  have del: "set (AList.delete k' xs) \<subseteq> set xs" for k' and xs :: "(string \<times> gotime) list" by (auto simp: AList.delete_eq)
  have "\<exists>k'. bmData (fst (BoundedMap_Set rng m k t0 t1 t2 t3)) = bmData ?m
    \<or> bmData (fst (BoundedMap_Set rng m k t0 t1 t2 t3)) = AList.update k t0 (bmData ?m)
    \<or> bmData (fst (BoundedMap_Set rng m k t0 t1 t2 t3)) = AList.update k t0 (AList.delete k' (bmData ?m))"
    by (auto simp: BoundedMap_Set_def BoundedMap_SetWithTime_def Let_def split: prod.splits)
  then consider "bmData (fst (BoundedMap_Set rng m k t0 t1 t2 t3)) = bmData ?m"
    | "bmData (fst (BoundedMap_Set rng m k t0 t1 t2 t3)) = AList.update k t0 (bmData ?m)"
    | k' where "bmData (fst (BoundedMap_Set rng m k t0 t1 t2 t3)) = AList.update k t0 (AList.delete k' (bmData ?m))"
    by blast
  then show ?thesis
  proof cases
    case 1
    then show ?thesis using c by auto
  next
    case 2
    then show ?thesis using c set_update_subset [of k t0 "bmData ?m"] by auto
  next
    case (3 k')
    then show ?thesis using c del [of k' "bmData ?m"] set_update_subset [of k t0 "AList.delete k' (bmData ?m)"] by auto
  qed
qed

lemma Set_fields:
  "bmTtl (fst (BoundedMap_Set rng m k t0 t1 t2 t3)) = bmTtl m"
  "bmCleanupInterval (fst (BoundedMap_Set rng m k t0 t1 t2 t3)) = bmCleanupInterval m"
  "bmLastCleanup (fst (BoundedMap_Set rng m k t0 t1 t2 t3)) \<in> {bmLastCleanup m, t3}"
  by (auto simp: BoundedMap_Set_def BoundedMap_SetWithTime_def BoundedMap_cleanupIfNeeded_def Let_def split: prod.splits)

lemma remembered_Set:
  assumes "remembered W d T g m" and "g \<le> T" and "T \<le> t" and "0 < t"
    and "t0 \<in> {t..t + d}" and "t3 \<in> {t..t + d}" and "n2 \<in> {t..t + d}"
  shows "remembered W d (t + d) n2 (fst (BoundedMap_Set rng m k t0 t1 t2 t3))"
proof -
  let ?m = "fst (BoundedMap_Set rng m k t0 t1 t2 t3)"
  have d: "0 \<le> d" using assms(5) by simp
  have "snd e \<le> n2 + d" if "e \<in> set (bmData ?m)" for e
  proof (cases "e = (k, t0)")
    case True
    then show ?thesis using assms(5,7) by auto
  next
    case False
    then have "e \<in> set (bmData m)" using that Set_entries [of rng m k t0 t1 t2 t3] by blast
    then have "snd e \<le> g + d" using assms(1) by (auto simp: remembered_def)
    then show ?thesis using assms(2,3,7) by auto
  qed
  moreover have "bmLastCleanup ?m \<le> t + d" "bmLastCleanup ?m \<le> n2 + d"
    using Set_fields(3) [of rng m k t0 t1 t2 t3] assms d by (auto simp: remembered_def)
  ultimately show ?thesis using assms(1,4,7) Set_fields(1,2) [of rng m k t0 t1 t2 t3] by (auto simp: remembered_def)
qed

text \<open>\<open>held T s m\<close>: running \<open>m\<close> from \<open>s\<close> creates nothing and leaves a starving state.\<close>

definition held :: "duration \<Rightarrow> duration \<Rightarrow> duration \<Rightarrow> gotime \<Rightarrow> 'w sys \<Rightarrow> ('w, 'a) prog \<Rightarrow> bool" where
  "held C W d T s m \<longleftrightarrow> starving C W d T (snd (run_state m s))
     \<and> (\<exists>es. trace (snd (run_state m s)) = trace s @ es \<and> list_all (\<lambda>ef. \<not> is_create ef) es)"

lemma starving_cong: "firstSeen s' = firstSeen s \<Longrightarrow> breaker s' = breaker s \<Longrightarrow> starving C W d T s' = starving C W d T s"
  by (simp add: starving_def)

lemma held_return: "starving C W d T s \<Longrightarrow> held C W d T s (ret x)"
  by (simp add: held_def)

lemma held_bind:
  assumes "frames m" and "emits (\<lambda>ef. \<not> is_create ef) m"
    and "\<And>x s'. firstSeen s' = firstSeen s \<Longrightarrow> breaker s' = breaker s \<Longrightarrow> run_state m s = (x, s') \<Longrightarrow> held C W d T s' (f x)"
  shows "held C W d T s (State_Monad.bind m f)"
proof -
  obtain x s' where run: "run_state m s = (x, s')" by fastforce
  have fr: "firstSeen s' = firstSeen s" "breaker s' = breaker s" using assms(1) run by (simp_all add: frames_def) (metis snd_conv)+
  from emitsD [OF assms(2) run] obtain es where "trace s' = trace s @ es" "\<And>e. e \<in> set es \<Longrightarrow> \<not> is_create e" by blast
  with assms(3) [OF fr run] run show ?thesis by (auto simp: held_def run_bind list_all_iff)
qed

lemma held_frames: "frames m \<Longrightarrow> emits (\<lambda>ef. \<not> is_create ef) m \<Longrightarrow> starving C W d T s \<Longrightarrow> held C W d T s m"
  by (auto simp: held_def frames_def emits_def does_def starving_def)

lemma held_gate:
  assumes "frames g" and "emits (\<lambda>ef. \<not> is_create ef) g" and "starving C W d T s"
    and "\<And>s'. firstSeen s' = firstSeen s \<Longrightarrow> breaker s' = breaker s \<Longrightarrow> held C W d T s' k"
  shows "held C W d T s (gate g k)"
  unfolding gate_def
  by (rule held_bind [OF assms(1,2)])
    (auto split: option.splits intro: assms(4) held_return simp: starving_cong [of _ s] assms(3))

lemma run_Now_fst: "run_state (Now e) s = (fst (now e (world s)), s\<lparr>world := snd (now e (world s))\<rparr>)"
  by (simp add: Now_def run_outside_fst)

text \<open>A reconcile at \<open>t\<close> of a provider whose findings are all about the watcher's own jobs.\<close>

definition only_self :: "Config \<Rightarrow> duration \<Rightarrow> gotime \<Rightarrow> ('w, 'o) SourceProviderReconciler \<Rightarrow> bool" where
  "only_self cfg d t r \<longleftrightarrow> spCfg r = cfg \<and> (\<forall>w. fst (now (spEnv r) w) \<in> {t..t + d})
     \<and> (\<forall>obj w f w'. ExtractFinding r obj w = (Inr (Some f), w') \<longrightarrow> 0 < fChainDepth f)
     \<and> (\<forall>obj. map_get (GetAnnotations r obj) AnnotationPriority \<noteq> ''critical'')"

text \<open>The settings under which it starves: the cooldown outlasts twice the window.\<close>

definition outlasts :: "duration \<Rightarrow> Config \<Rightarrow> duration \<Rightarrow> bool" where
  "outlasts C cfg d \<longleftrightarrow> 0 < StabilisationWindow cfg \<and> 2 * StabilisationWindow cfg + 2 * d < C \<and> C < 2 ^ 63"

lemma stabilisation_held:
  assumes clock: "\<And>w. fst (now (spEnv r) w) \<in> {t..t + d}" and out: "outlasts C (spCfg r) d"
    and an: "map_get an AnnotationPriority \<noteq> ''critical''"
    and m: "remembered (StabilisationWindow (spCfg r)) d T g m" "g \<le> T" "T \<le> t" "0 < t"
    and grant: "g \<noteq> 0 \<Longrightarrow> C \<le> n1 - g" "n1 \<in> {t..t + d}" "n2 \<in> {t..t + d}"
    and b: "breaker s = Some b" "cbCooldown b = C" "cbLastAllowed b = n2"
  shows "held C (StabilisationWindow (spCfg r)) d (t + d) s (gate (stabilisation_gate r m an fp) k)"
proof -
  let ?W = "StabilisationWindow (spCfg r)"
  have none: "BoundedMap_Get m fp x y = None" if "x \<in> {t..t + d}" "y \<in> {t..t + d}" for x y
    using remembered_expired [OF m(1) grant(1) _ _ _ grant(2) that] out by (simp add: outlasts_def)
  have "?W \<noteq> 0" using out by (simp add: outlasts_def)
  then obtain out' w' t0 t1 t2 t3 where
    run: "run_state (stabilisation_gate r m an fp) s = (Some out', s\<lparr>world := w',
        firstSeen := Some (fst (BoundedMap_Set (map_order (spEnv r)) m fp t0 t1 t2 t3)),
        trace := trace s @ [Metric (RecordSuppressed ''stabilisation_window'')]\<rparr>)"
    and ts: "t0 \<in> {t..t + d}" "t3 \<in> {t..t + d}"
    using none [OF clock clock] an clock
    by (simp add: stabilisation_gate_def run_bind run_Now_fst run_firstSeen suppressed_def run_emit Let_def)
  show ?thesis
    using remembered_Set [OF m ts grant(3), of "map_order (spEnv r)" fp t1 t2] b grant(3)
    by (simp add: held_def gate_def run_bind run starving_def)
qed

lemma self_gate_held:
  assumes clock: "\<And>w. fst (now (spEnv r) w) \<in> {t..t + d}" and out: "outlasts C (spCfg r) d" and depth: "0 < fChainDepth f"
    and st: "starving C W d T s" "firstSeen s = Some m" "T \<le> t" "0 \<le> d"
    and rest: "\<And>s' b n1 n2 g. remembered W d T g m \<Longrightarrow> g \<le> T \<Longrightarrow> (g \<noteq> 0 \<Longrightarrow> C \<le> n1 - g) \<Longrightarrow> n1 \<in> {t..t + d} \<Longrightarrow> n2 \<in> {t..t + d} \<Longrightarrow>
      firstSeen s' = Some m \<Longrightarrow> breaker s' = Some b \<Longrightarrow> cbCooldown b = C \<Longrightarrow> cbLastAllowed b = n2 \<Longrightarrow> held C W d (t + d) s' k"
  shows "held C W d (t + d) s (gate (self_remediation_gate r f) k)"
proof -
  from st(1,2) obtain b where b: "breaker s = Some b" "cbCooldown b = C" "cbLastAllowed b \<le> T" "remembered W d T (cbLastAllowed b) m"
    by (auto simp: starving_def)
  have later: "starving C W d (t + d) s" by (rule starving_mono [OF st(1)]) (use st(3,4) in simp)
  show ?thesis
  proof (cases "SelfRemediationMaxDepth (spCfg r) = 0 \<or> fChainDepth f > SelfRemediationMaxDepth (spCfg r)")
    case True
    then show ?thesis using depth later
      by (auto simp: held_def gate_def self_remediation_gate_def suppressed_def run_bind run_emit starving_def Let_def)
  next
    case False
    define n1 where "n1 = fst (now (spEnv r) (world s))"
    define n2 where "n2 = fst (now (spEnv r) (snd (now (spEnv r) (world s))))"
    define w2 where "w2 = snd (now (spEnv r) (snd (now (spEnv r) (world s))))"
    have n: "n1 \<in> {t..t + d}" "n2 \<in> {t..t + d}" unfolding n1_def n2_def by (rule clock)+
    have run: "run_state (gate (self_remediation_gate r f) k) s = run_state (case CircuitBreaker_ShouldAllow b n1 n2 of
        ((allowed, remaining), b') \<Rightarrow> do {
          set_breaker b';
          if \<not> allowed then do { suppressed ''circuit_breaker''; emit (Metric RecordCircuitBreakerActivation); ret (requeue_after remaining, None) }
          else k }) (s\<lparr>world := w2\<rparr>)"
      using False depth b(1)
      by (auto simp: gate_def self_remediation_gate_def run_bind run_breaker run_Now_fst suppressed_def run_emit n1_def n2_def w2_def Let_def
          split: prod.splits if_splits)
    show ?thesis
    proof (cases "\<not> time_IsZero (cbLastAllowed b) \<and> time_Sub n1 (cbLastAllowed b) < cbCooldown b")
      case True
      then show ?thesis using later b(1) unfolding held_def run
        by (simp add: CircuitBreaker_ShouldAllow_def run_bind run_breaker suppressed_def run_emit starving_def)
    next
      case False
      let ?s = "s\<lparr>world := w2, breaker := Some (b\<lparr>cbLastAllowed := n2\<rparr>)\<rparr>"
      have "C \<le> n1 - cbLastAllowed b" if "cbLastAllowed b \<noteq> 0"
        using False that out st(4) by (simp add: time_IsZero_def b(2) time_Sub_less_iff outlasts_def)
      then have "held C W d (t + d) ?s k"
        by (rule rest [where b = "b\<lparr>cbLastAllowed := n2\<rparr>" and g = "cbLastAllowed b", OF b(4,3) _ n]) (simp_all add: st(2) b(2))
      then show ?thesis using False unfolding held_def run
        by (auto simp: CircuitBreaker_ShouldAllow_def run_bind run_breaker)
    qed
  qed
qed

lemma handle_finding_held:
  assumes r: "only_self cfg d t r" and out: "outlasts C cfg d" and depth: "0 < fChainDepth f"
    and st: "starving C (StabilisationWindow cfg) d T s" "firstSeen s = Some m" "T \<le> t" "0 < t"
  shows "held C (StabilisationWindow cfg) d (t + d) s (handle_finding r m req obj f)"
proof -
  let ?W = "StabilisationWindow cfg"
  have clock: "\<And>w. fst (now (spEnv r) w) \<in> {t..t + d}" and cfg: "spCfg r = cfg" and an: "\<And>obj. map_get (GetAnnotations r obj) AnnotationPriority \<noteq> ''critical''"
    using r by (simp_all add: only_self_def)
  have d: "0 \<le> d" using clock [of undefined] by simp
  have quiet: "emits (\<lambda>ef. \<not> is_create ef) (injection_gate r x)" "emits (\<lambda>ef. \<not> is_create ef) (namespace_gate r f)"
    "emits (\<lambda>ef. \<not> is_create ef) (severity_gate r f)" for x by (rule stage_emits; simp)+
  have self: "held C ?W d (t + d) s' (gate (self_remediation_gate r f) (case fingerprint_of f of Inl er \<Rightarrow> ret (fail er)
      | Inr fp \<Rightarrow> handle_fingerprint r m req obj f fp))"
    if same: "firstSeen s' = firstSeen s" "breaker s' = breaker s" for s'
  proof (rule self_gate_held [OF clock _ depth])
    show "outlasts C (spCfg r) d" by (simp add: cfg out)
    show "starving C ?W d T s'" using st(1) same by (simp add: starving_def)
    show "firstSeen s' = Some m" using st(2) same by simp
    show "T \<le> t" "0 \<le> d" by (fact st(3) d)+
  next
    fix u :: "'a sys" and b n1 n2 g
    assume g: "remembered ?W d T g m" "g \<le> T" "g \<noteq> 0 \<Longrightarrow> C \<le> n1 - g" "n1 \<in> {t..t + d}" "n2 \<in> {t..t + d}"
      and u: "firstSeen u = Some m" "breaker u = Some b" "cbCooldown b = C" "cbLastAllowed b = n2"
    show "held C ?W d (t + d) u (case fingerprint_of f of Inl er \<Rightarrow> ret (fail er) | Inr fp \<Rightarrow> handle_fingerprint r m req obj f fp)"
    proof (cases "fingerprint_of f")
      case (Inl er)
      have "remembered ?W d (t + d) n2 m" by (rule remembered_later [OF g(1,2)]) (use g(5) st(3,4) d in auto)
      then have "starving C ?W d (t + d) u" using u g(5) by (simp add: starving_def)
      then show ?thesis by (simp add: Inl held_return)
    next
      case (Inr fp)
      show ?thesis
        unfolding Inr sum.case handle_fingerprint_def
        by (rule stabilisation_held [of r t d C, unfolded cfg, OF clock out an g(1,2) st(3,4) g(3-5) u(2-4)])
    qed
  qed
  have later: "starving C ?W d (t + d) u" if "firstSeen u = firstSeen s" "breaker u = breaker s" for u :: "'a sys"
    using starving_mono [OF st(1), of "t + d"] st(3) d that by (simp add: starving_def)
  show ?thesis
    unfolding handle_finding_def
    by (intro held_gate frames_gates quiet later self) simp_all
qed

text \<open>A cleared map starves as well as a fresh one.\<close>

lemma clear_held:
  assumes clock: "\<And>w. fst (now (spEnv r) w) \<in> {t..t + d}" and st: "starving C W d t s" "firstSeen s = Some m"
    and k: "frames k" "emits (\<lambda>ef. \<not> is_create ef) k"
  shows "held C W d (t + d) s (do { clear_firstSeen r m; k })"
proof -
  define n where "n = fst (now (spEnv r) (world s))"
  have n: "n \<in> {t..t + d}" unfolding n_def by (rule clock)
  let ?s = "s\<lparr>world := snd (now (spEnv r) (world s)), firstSeen := Some (BoundedMap_Clear m n)\<rparr>"
  have run: "run_state (do { clear_firstSeen r m; k }) s = run_state k ?s"
    by (simp add: clear_firstSeen_def run_bind run_Now_fst run_firstSeen n_def)
  have "starving C W d (t + d) ?s"
    using st n by (auto simp: starving_def remembered_def BoundedMap_Clear_def)
  from held_frames [OF k this] show ?thesis unfolding held_def run by simp
qed

lemma reconcile_with_held:
  assumes r: "only_self cfg d t r" and out: "outlasts C cfg d"
    and st: "starving C (StabilisationWindow cfg) d t s" "firstSeen s = Some m" "0 < t"
  shows "held C (StabilisationWindow cfg) d (t + d) s (reconcile_with r m req)"
proof -
  let ?W = "StabilisationWindow cfg"
  have clock: "\<And>w. fst (now (spEnv r) w) \<in> {t..t + d}" using r by (simp add: only_self_def)
  have d: "0 \<le> d" using clock [of undefined] by simp
  have later: "starving C ?W d (t + d) u" if "firstSeen u = firstSeen s" "breaker u = breaker s" for u :: "'a sys"
    using starving_mono [OF st(1), of "t + d"] d that by (simp add: starving_def)
  have same: "starving C ?W d t u" if "firstSeen u = firstSeen s" "breaker u = breaker s" for u :: "'a sys"
    using st(1) that by (simp add: starving_def)
  have gone: "held C ?W d (t + d) u (on_source_gone r m req)" if "firstSeen u = firstSeen s" "breaker u = breaker s" for u :: "'a sys"
    unfolding on_source_gone_def
    by (rule clear_held [OF clock same [OF that]])
      (auto simp: that st(2) intro!: frames_rules frames_cancel frames_close emits_rules cancel_loop_emits autoClose_emits
        split: bool.splits option.splits)
  have cleared: "held C ?W d (t + d) u (on_finding_cleared r m req)" if "firstSeen u = firstSeen s" "breaker u = breaker s" for u :: "'a sys"
    unfolding on_finding_cleared_def
    by (rule clear_held [OF clock same [OF that]])
      (auto simp: that st(2) intro!: frames_rules frames_close emits_rules autoClose_emits split: bool.splits option.splits)
  have extracted: "held C ?W d (t + d) u (do { x \<leftarrow> outside (ExtractFinding r obj);
         case x of Inl er \<Rightarrow> ret (fail er) | Inr None \<Rightarrow> on_finding_cleared r m req | Inr (Some f) \<Rightarrow> handle_finding r m req obj f })"
    if u: "firstSeen u = firstSeen s" "breaker u = breaker s" for u :: "'a sys" and obj
  proof (rule held_bind [OF frames_prim(3) emits_prim(3)])
    fix x and v :: "'a sys"
    assume v: "firstSeen v = firstSeen u" "breaker v = breaker u" and x: "run_state (outside (ExtractFinding r obj)) u = (x, v)"
    have depth: "0 < fChainDepth f" if "x = Inr (Some f)" for f
    proof -
      from x that have "ExtractFinding r obj (world u) = (Inr (Some f), snd (ExtractFinding r obj (world u)))"
        by (simp add: run_outside_fst prod_eq_iff)
      with r show ?thesis unfolding only_self_def by blast
    qed
    show "held C ?W d (t + d) v (case x of Inl er \<Rightarrow> ret (fail er) | Inr None \<Rightarrow> on_finding_cleared r m req
        | Inr (Some f) \<Rightarrow> handle_finding r m req obj f)"
      using u v depth handle_finding_held [OF r out _ same, of _ v] later [of v] cleared [of v] st(2,3)
      by (auto split: sum.splits option.splits intro!: held_return)
  qed
  show ?thesis
    unfolding reconcile_with_def
    by (rule held_bind [OF frames_prim(3) emits_prim(3)])
      (auto split: sum.splits intro!: held_return later gone extracted)
qed

lemma init_starves:
  assumes "only_self cfg d t r" and "outlasts C cfg d" and "starving C (StabilisationWindow cfg) d t s"
  shows "\<exists>m s'. run_state (initFirstSeen r) s = (m, s') \<and> trace s' = trace s \<and> firstSeen s' = Some m
    \<and> starving C (StabilisationWindow cfg) d t s'"
proof (cases "firstSeen s")
  case (Some m)
  then show ?thesis using assms(3) by (simp add: initFirstSeen_def run_simps)
next
  case None
  let ?W = "StabilisationWindow cfg"
  have clock: "\<And>w. fst (now (spEnv r) w) \<in> {t..t + d}" and cfg: "spCfg r = cfg" using assms(1) by (simp_all add: only_self_def)
  have d: "0 \<le> d" using clock [of undefined] by simp
  have ttl: "int64 (?W * 2) = 2 * ?W" "?W \<noteq> 0" using assms(2) d by (simp_all add: outlasts_def mult.commute)
  obtain b where b: "breaker s = Some b" "cbCooldown b = C" "cbLastAllowed b \<le> t" using assms(3) by (auto simp: starving_def)
  have "remembered ?W d t g (NewBoundedMap 1000 (2 * ?W) 0 n)" if "n \<in> {t..t + d}" for g n
    using that assms(2) by (simp add: remembered_def NewBoundedMap_def outlasts_def)
  with b clock show ?thesis
    by (simp add: initFirstSeen_def None run_bind run_firstSeen run_Now_fst cfg ttl starving_def Let_def)
qed

lemma Reconcile_held:
  assumes "only_self cfg d t r" and "outlasts C cfg d" and "starving C (StabilisationWindow cfg) d T s" and "T \<le> t" and "0 < t"
  shows "held C (StabilisationWindow cfg) d (t + d) s (Provider_Reconcile r req)"
proof -
  from init_starves [OF assms(1,2) starving_mono [OF assms(3,4)]] obtain m s' where
    "run_state (initFirstSeen r) s = (m, s')" "trace s' = trace s" "firstSeen s' = Some m" "starving C (StabilisationWindow cfg) d t s'" by blast
  with reconcile_with_held [OF assms(1,2), of s' m req] assms(5) show ?thesis
    by (simp add: Reconcile_with held_def run_bind)
qed

text \<open>
  A history of reconciles: each with the reconciler (whose clock tells its time), the request and the world it finds. Reconciles
  of one provider do not overlap, and each takes at most \<open>d\<close>.
\<close>

type_synonym ('w, 'o) history = "(('w, 'o) SourceProviderReconciler \<times> NamespacedName \<times> 'w) list"

fun reconciles :: "('w, 'o) history \<Rightarrow> 'w sys \<Rightarrow> 'w sys" where
  "reconciles [] s = s"
| "reconciles ((r, req, w) # xs) s = reconciles xs (snd (run_state (Provider_Reconcile r req) (s\<lparr>world := w\<rparr>)))"

fun paced :: "Config \<Rightarrow> duration \<Rightarrow> gotime \<Rightarrow> ('w, 'o) history \<Rightarrow> bool" where
  "paced cfg d T [] \<longleftrightarrow> True"
| "paced cfg d T ((r, req, w) # xs) \<longleftrightarrow> (\<exists>t \<ge> T. only_self cfg d t r \<and> paced cfg d (t + d) xs)"

lemma starving_forever:
  assumes "outlasts C cfg d" and "paced cfg d T xs" and "starving C (StabilisationWindow cfg) d T s" and "0 < T" and "0 \<le> d"
    and "list_all (\<lambda>ef. \<not> is_create ef) (trace s)"
  shows "list_all (\<lambda>ef. \<not> is_create ef) (trace (reconciles xs s))"
  using assms(2-4,6)
proof (induction xs arbitrary: s T)
  case (Cons x xs)
  obtain r req w where x: "x = (r, req, w)" by (cases x)
  from Cons.prems(1) obtain t where t: "T \<le> t" "only_self cfg d t r" "paced cfg d (t + d) xs" by (auto simp: x)
  let ?s = "snd (run_state (Provider_Reconcile r req) (s\<lparr>world := w\<rparr>))"
  have "starving C (StabilisationWindow cfg) d T (s\<lparr>world := w\<rparr>)" using Cons.prems(2) by (simp add: starving_def)
  from Reconcile_held [OF t(2) assms(1) this t(1), of req] t(1) Cons.prems(3)
  have "starving C (StabilisationWindow cfg) d (t + d) ?s" "list_all (\<lambda>ef. \<not> is_create ef) (trace ?s)"
    using Cons.prems(4) by (auto simp: held_def)
  from Cons.IH [OF t(3) this(1) _ this(2)] show ?case using t(1) Cons.prems(3) assms(5) by (simp add: x)
qed simp

text \<open>
  C40. A lone self-remediation finding starves: when the cooldown of the circuit breaker exceeds twice the stabilisation window (with
  the defaults, 300 and 120 seconds, for reconciles that take less than 30 seconds), a watcher that starts afresh never
  creates a job for findings about its own jobs, however often a provider that has no other findings reconciles
  them and whatever the cluster does. Every grant of the breaker is spent on restarting the window.
\<close>

theorem self_remediation_starves:
  assumes "outlasts C cfg d" and "paced cfg d T xs" and "0 < T" and "0 \<le> d"
    and "s = \<lparr>world = w, firstSeen = None, breaker = Some (CircuitBreaker_New C), trace = []\<rparr>"
  shows "list_all (\<lambda>ef. \<not> is_create ef) (trace (reconciles xs s))"
  by (rule starving_forever [OF assms(1,2) _ assms(3,4)])
    (use assms(3) in \<open>simp_all add: assms(5) starving_def CircuitBreaker_New_def\<close>)

definition self_finding :: Finding where
  "self_finding = \<lparr>fKind = ''Job'', fName = ''mechanic-agent-1'', fNamespace = ''mechanic'', fParentObject = '''',
     fErrors = ''[]'', fDetails = '''', fSeverity = SeverityHigh, fChainDepth = 1, fNodeName = ''''\<rparr>"

definition self_reconciler :: "gotime \<Rightarrow> (cluster, unit) SourceProviderReconciler" where
  "self_reconciler t = \<lparr>spEnv = cluster_env\<lparr>now := Pair t\<rparr>, spCfg = default_Config, ProviderName = ''native'',
     get_source = (\<lambda>n. Pair (Inr ())), GetAnnotations = (\<lambda>_. Map.empty),
     ExtractFinding = (\<lambda>obj. Pair (Inr (Some self_finding))), hasRecorder = True, ReadinessChecker = None,
     SinkCloser = None, PRMergeChecker = None\<rparr>"

lemma self_reconciler_only: "only_self default_Config 0 t (self_reconciler t)"
  by (simp add: only_self_def self_reconciler_def self_finding_def map_get_def)

text \<open>The schedule the watcher asks for itself: after the window, then when the cooldown is over.\<close>

definition self_history :: "(cluster, unit) history" where
  "self_history = map (\<lambda>t. (self_reconciler (1000 * Hour + t * Second), \<lparr>nnNamespace = ''mechanic'', nnName = ''mechanic-agent-1''\<rparr>, empty_cluster))
     [0, 120, 300, 420, 600]"

theorem self_remediation_starves_witness:
  "list_all (\<lambda>ef. \<not> is_create ef) (trace (reconciles self_history
     \<lparr>world = empty_cluster, firstSeen = None, breaker = Some (CircuitBreaker_New (300 * Second)), trace = []\<rparr>))"
proof -
  have step: "paced default_Config 0 T ((self_reconciler t, req, w) # xs)" if "T \<le> t" "paced default_Config 0 t xs" for T t req w xs
    using that self_reconciler_only [of t] by auto
  have "paced default_Config 0 (1000 * Hour) self_history"
    unfolding self_history_def list.map by (intro step) (simp_all add: go_defs)
  moreover have "outlasts (300 * Second) default_Config 0" by (simp add: outlasts_def default_Config_def go_defs)
  ultimately show ?thesis
    by (intro self_remediation_starves [where d = 0 and T = "1000 * Hour" and cfg = default_Config and C = "300 * Second"]) (simp_all add: go_defs)
qed

end
