(* ===== verification/Watcher.thy ===== *)
theory Watcher
  imports Provider Controller Lifecycle JobBuilder Native Redact Readiness Sink
begin

text \<open>
  The process: \<open>main\<close> of \<open>src/cmd/watcher/main.go\<close> from the arguments to the running manager, with the
  logger of \<open>src/internal/logging/logging.go\<close>. It reads the configuration, creates the manager with up to
  ten attempts and wires the reconcilers, which are the records of theories Provider and Controller; every
  exit with an error, by \<open>Fatal\<close>, by \<open>os.Exit\<close> or inside \<open>ctrl.GetConfigOrDie\<close>, is a result, with its message up to the error it
  prints. Operating system, zap, the scheme, the client configuration, the manager and the parser of the private key are parameters.
\<close>

section \<open>What the process is given\<close>

record host =
  hoArgs :: "string list"
  hoGetenv :: environment
  hoCompile :: "string \<Rightarrow> goerr + rx"
  hoParseQuantity :: "string \<Rightarrow> goerr option"
  hoLevel :: "string \<Rightarrow> goerr option" \<comment> \<open>\<open>zapcore.Level.UnmarshalText\<close>\<close>
  hoBuildLogger :: "string \<Rightarrow> goerr option" \<comment> \<open>\<open>zap.Config.Build\<close> at a level\<close>
  hoAddToScheme :: "string \<Rightarrow> goerr option"
  hoGetConfig :: "goerr option" \<comment> \<open>\<open>ctrl.GetConfig\<close>: is there a kubeconfig or a service account\<close>
  hoNewManager :: "int \<Rightarrow> string option" \<comment> \<open>the text of the error of an attempt\<close>
  hoReadFile :: "string \<Rightarrow> goerr + string"
  hoParseKey :: "string \<Rightarrow> goerr + (string \<Rightarrow> gotime \<Rightarrow> gotime \<Rightarrow> goerr + string)" \<comment> \<open>the parsed key, as what it signs\<close>
  hoSetup :: "string \<Rightarrow> goerr option" \<comment> \<open>\<open>SetupWithManager\<close> of the reconciler for a kind\<close>
  hoAddCheck :: "string \<Rightarrow> goerr option"
  hoStart :: "goerr option"

text \<open>
  What the manager gives access to. The world of the reconcilers carries the state of the token
  provider and of the two caches of the readiness checkers, which all of them share.
\<close>

type_synonym 'v shared = "'v sink_sys \<times> CachedChecker \<times> CachedChecker"

record 'v access =
  acEnv :: "'v shared env"
  acNative :: "'v shared native_client"
  acGet :: "string \<Rightarrow> NamespacedName \<Rightarrow> 'v shared \<Rightarrow> (api_error + client_object) \<times> 'v shared"
  acSecrets :: "'v sink_sys secrets"
  acClock :: "'v sink_sys \<Rightarrow> gotime \<times> 'v sink_sys"
  acTokenClock :: "'v \<Rightarrow> gotime \<times> 'v"
  acCtxErr :: "('v shared, goerr option) state"
  acHTTP :: "'v http_client"

section \<open>Start-up\<close>

definition logging_New :: "host \<Rightarrow> string \<Rightarrow> goerr option" where
  "logging_New h level =
     (if level = '''' then Some (Msg ''logging.New: log level must not be empty'')
      else case hoLevel h level of
          Some er \<Rightarrow> Some (Wrapped (''logging.New: invalid log level '' @ quoted level) er)
        | None \<Rightarrow>
            (case hoBuildLogger h level of
               Some er \<Rightarrow> Some (Wrapped ''logging.New: build logger'' er)
             | None \<Rightarrow> None))"

text \<open>The namespaces the manager's cache holds: of secrets, and by default (\<open>None\<close> is all of them).\<close>

record cache_options =
  ByObjectSecret :: "string list"
  DefaultNamespaces :: "string list option"

definition cache_options_for :: "Config \<Rightarrow> cache_options" where
  "cache_options_for cfg = \<lparr>ByObjectSecret = [AgentNamespace cfg],
     DefaultNamespaces = (if length (AgentWatchNamespaces cfg) > 0 then Some (remdups (AgentWatchNamespaces cfg)) else None)\<rparr>"

text \<open>
  The loop around \<open>ctrl.NewManager\<close>: the attempt that succeeded, or the error that ended it. The
  three seconds of sleep before the next attempt have no effect in the model.
\<close>

function new_manager :: "(int \<Rightarrow> string option) \<Rightarrow> int \<Rightarrow> string + int" where
  "new_manager answer attempt =
     (if attempt \<le> 10 then
        (case answer attempt of
           None \<Rightarrow> Inr attempt
         | Some er \<Rightarrow>
             if sublist ''Unauthorized'' er \<and> attempt < 10 then new_manager answer (attempt + 1) else Inl er)
      else Inr attempt)"
  by pat_completeness auto
termination by (relation "measure (\<lambda>(answer, attempt). nat (11 - attempt))") auto

declare new_manager.simps [simp del]

text \<open>\<open>strconv.ParseInt(os.Getenv(name), 10, 64)\<close>, accepted when positive.\<close>

definition github_id :: "environment \<Rightarrow> string \<Rightarrow> int option" where
  "github_id env name = (case strconv_Atoi (env name) of Inl _ \<Rightarrow> None | Inr n \<Rightarrow> if n \<le> 0 then None else Some n)"

definition private_key_path :: string where
  "private_key_path = ''/var/run/secrets/mechanic/github-app-private-key/private-key''"

text \<open>The closer and the merge checker, over one token provider; \<open>None\<close> stands for the two that do nothing.\<close>

definition wire_sinks :: "host \<Rightarrow> 'v access \<Rightarrow> Config \<Rightarrow> string + 'v github_api option" where
  "wire_sinks h a cfg =
     (if PRAutoClose cfg then
        (case github_id (hoGetenv h) ''GITHUB_APP_ID'' of
           None \<Rightarrow> Inl ''GITHUB_APP_ID is missing or invalid; cannot start with PR_AUTO_CLOSE=true''
         | Some appID \<Rightarrow>
        (case github_id (hoGetenv h) ''GITHUB_APP_INSTALLATION_ID'' of
           None \<Rightarrow> Inl ''GITHUB_APP_INSTALLATION_ID is missing or invalid; cannot start with PR_AUTO_CLOSE=true''
         | Some installID \<Rightarrow>
        (case hoReadFile h private_key_path of
           Inl er \<Rightarrow> Inl (''failed to read GitHub App private key from volume - ensure github-app Secret is mounted at '' @
             ''/var/run/secrets/mechanic/github-app-private-key'')
         | Inr privKeyPEM \<Rightarrow>
        (case hoParseKey h privKeyPEM of
           Inl er \<Rightarrow> Inl ''GITHUB_APP_PRIVATE_KEY is invalid (PEM parse failed); cannot start with PR_AUTO_CLOSE=true''
         | Inr privKey \<Rightarrow>
            (let tp = \<lparr>tpAppID = appID, tpInstallationID = installID, tpSign = privKey, tpBaseURL = '''',
                       tpHTTPClient = acHTTP a, tpNow = acTokenClock a\<rparr>
             in Inr (Some \<lparr>TokenProvider = Token tp, BaseURL = '''', HTTPClient = acHTTP a\<rparr>))))))
      else Inr None)"

definition in_shared :: "('v, 'a) sink_prog \<Rightarrow> 'v shared \<Rightarrow> 'a \<times> 'v shared" where
  "in_shared m = (\<lambda>(w, sinkCache, llmCache). case run_state m w of (x, w') \<Rightarrow> (x, (w', sinkCache, llmCache)))"

definition sinkCloser :: "'v github_api option \<Rightarrow> RemediationJob \<Rightarrow> string \<Rightarrow> 'v shared \<Rightarrow> goerr option \<times> 'v shared" where
  "sinkCloser api j reason =
     in_shared (case api of None \<Rightarrow> NoopSinkCloser_Close j reason | Some c \<Rightarrow> GitHubSinkCloser_Close c j reason)"

definition prMergeChecker :: "'v github_api option \<Rightarrow> SinkRef \<Rightarrow> 'v shared \<Rightarrow> (goerr + bool) \<times> 'v shared" where
  "prMergeChecker api ref =
     in_shared (case api of None \<Rightarrow> NoopPRMergeChecker_IsMerged ref | Some c \<Rightarrow> GitHubPRMergeChecker_IsMerged c ref)"

section \<open>The wired watcher\<close>

definition provider_kinds :: "string list" where
  "provider_kinds = [''Pod'', ''Deployment'', ''PersistentVolumeClaim'', ''Node'', ''StatefulSet'', ''Job'']"

definition source_reconciler ::
    "'v access \<Rightarrow> Config \<Rightarrow> 'v github_api option \<Rightarrow> string \<Rightarrow> 'v shared extractor \<Rightarrow> ('v shared, client_object) SourceProviderReconciler" where
  "source_reconciler a cfg api kind extract = \<lparr>spEnv = acEnv a, spCfg = cfg, ProviderName = ''native'',
     get_source = acGet a kind, GetAnnotations = (\<lambda>obj. omAnnotations (object_meta obj)),
     ExtractFinding = (\<lambda>obj. run_state (extract obj)), hasRecorder = True,
     ReadinessChecker = Some (run_state (combinedChecker (acClock a) (acSecrets a) (acCtxErr a) cfg)),
     SinkCloser = Some (sinkCloser api), PRMergeChecker = Some (prMergeChecker api)\<rparr>"

text \<open>A panic of the builder, which an accepted configuration excludes, is reported as an error.\<close>

definition build_job :: "host \<Rightarrow> BuilderConfig \<Rightarrow> RemediationJob \<Rightarrow> FindingSpec list \<Rightarrow> goerr + Job" where
  "build_job h jb j fs =
     (case Build (hoParseQuantity h) jb (Some j) fs of
        None \<Rightarrow> Inl (Msg ''panic'')
      | Some (Inl er) \<Rightarrow> Inl er
      | Some (Inr job) \<Rightarrow> Inr (Job.truncate job))"

record 'v watcher =
  waCfg :: Config
  waCache :: cache_options
  waController :: "'v shared RemediationJobReconciler"
  waBreaker :: "CircuitBreaker option"
  waCaches :: "CachedChecker \<times> CachedChecker" \<comment> \<open>of the sink and of the language model, as they start\<close>
  waProviders :: "('v shared, client_object) SourceProviderReconciler list"

datatype 'a process = VersionPrinted | Fatal string | Running 'a

definition or_fatal :: "goerr option \<Rightarrow> string \<Rightarrow> 'a process \<Rightarrow> 'a process" where
  "or_fatal er msg k = (case er of Some _ \<Rightarrow> Fatal msg | None \<Rightarrow> k)"

fun all_or_fatal :: "(string \<Rightarrow> goerr option) \<Rightarrow> string list \<Rightarrow> (string \<Rightarrow> string) \<Rightarrow> 'a process \<Rightarrow> 'a process" where
  "all_or_fatal f [] msg k = k"
| "all_or_fatal f (x # xs) msg k = or_fatal (f x) (msg x) (all_or_fatal f xs msg k)"

text \<open>From the manager on: the builder, the redactor, the correlator, the reconcilers and the start.\<close>

definition wire_and_run :: "host \<Rightarrow> 'v access \<Rightarrow> Config \<Rightarrow> 'v watcher process" where
  "wire_and_run h a cfg =
     (case NewBuilder (builder_config cfg) of
        Inl er \<Rightarrow> Fatal ''jobbuilder init failed''
      | Inr jb \<Rightarrow>
     (case NewRedactor (hoCompile h) (ExtraRedactPatterns cfg) of
        Inl er \<Rightarrow> Fatal ''failed to initialise redactor''
      | Inr redactor \<Rightarrow>
     (case buildCorrelator (acEnv a) cfg of
        Inl er \<Rightarrow> Fatal ''buildCorrelator failed''
      | Inr corr \<Rightarrow>
          or_fatal (hoSetup h ''RemediationJob'') ''RemediationJobReconciler setup failed''
           (let cb = (if SelfRemediationCooldown cfg > 0 then Some (CircuitBreaker_New (SelfRemediationCooldown cfg)) else None)
            in case wire_sinks h a cfg of
                 Inl msg \<Rightarrow> Fatal msg
               | Inr api \<Rightarrow>
                   all_or_fatal (hoSetup h) provider_kinds (\<lambda>_. ''provider setup failed'')
                    (or_fatal (hoAddCheck h ''healthz'') ''unable to set up health check''
                      (or_fatal (hoAddCheck h ''readyz'') ''unable to set up ready check''
                        (or_fatal (hoStart h) ''problem running manager''
                          (Running \<lparr>waCfg = cfg, waCache = cache_options_for cfg,
                            waController = \<lparr>rcEnv = acEnv a, rcCfg = cfg, rcBuild = build_job h jb,
                              rcRecorder = True, rcCorrelator = corr\<rparr>,
                            waBreaker = cb,
                            waCaches = (NewCachedChecker ReadinessCacheTTL, NewCachedChecker ReadinessCacheTTL),
                            waProviders = map2 (source_reconciler a cfg api) provider_kinds
                              (enabledProviders (acNative a) redactor)\<rparr>))))))))"

definition watcher_main :: "host \<Rightarrow> 'v access \<Rightarrow> 'v watcher process" where
  "watcher_main h a =
     (if list_ex (\<lambda>arg. arg = ''--version'') (drop 1 (hoArgs h)) then VersionPrinted
      else case FromEnv (hoCompile h) (hoParseQuantity h) (hoGetenv h) of
          Inl er \<Rightarrow> Fatal ''config error''
        | Inr cfg \<Rightarrow>
            or_fatal (logging_New h (LogLevel cfg)) ''logger init failed''
             (all_or_fatal (hoAddToScheme h) [''client-go'', ''batchv1'', ''v1alpha1 remediation''] (\<lambda>x. ''failed to add '' @ x @ '' scheme'')
               (or_fatal (hoGetConfig h) ''unable to get kubeconfig''
                 (case new_manager (hoNewManager h) 1 of
                    Inl er \<Rightarrow> Fatal ''unable to start manager''
                  | Inr attempt \<Rightarrow> wire_and_run h a cfg))))"

section \<open>The attempts to create the manager\<close>

lemma new_manager_Inr:
  assumes "j \<le> 10"
  shows "new_manager answer j = Inr k \<longleftrightarrow>
    j \<le> k \<and> k \<le> 10 \<and> answer k = None \<and> (\<forall>i \<in> {j..<k}. \<exists>er. answer i = Some er \<and> sublist ''Unauthorized'' er)"
  using assms
proof (induction answer j rule: new_manager.induct)
  case (1 answer j)
  show ?case
  proof (cases "answer j")
    case None
    then have "\<not> (j < k \<and> (\<forall>i \<in> {j..<k}. \<exists>er. answer i = Some er \<and> sublist ''Unauthorized'' er))" by force
    with None 1(2) show ?thesis by (subst new_manager.simps) (auto simp: order_le_less)
  next
    case (Some er)
    show ?thesis
    proof (cases "sublist ''Unauthorized'' er \<and> j < 10")
      case True
      have range: "{j..<k} = insert j {j + 1..<k}" if "j < k" using that by auto
      have "new_manager answer j = new_manager answer (j + 1)"
        using 1(2) Some True by (subst new_manager.simps) simp
      moreover have "new_manager answer (j + 1) = Inr k \<longleftrightarrow> j + 1 \<le> k \<and> k \<le> 10 \<and> answer k = None
          \<and> (\<forall>i \<in> {j + 1..<k}. \<exists>er. answer i = Some er \<and> sublist ''Unauthorized'' er)"
        using 1(1) [OF 1(2) Some True] True by simp
      moreover have "j \<le> k \<and> answer k = None \<longleftrightarrow> j + 1 \<le> k \<and> answer k = None" using Some by (cases "j = k") auto
      ultimately show ?thesis using range Some True by (cases "j < k") auto
    next
      case False
      have "\<not> (j < k \<and> k \<le> 10 \<and> (\<forall>i \<in> {j..<k}. \<exists>er. answer i = Some er \<and> sublist ''Unauthorized'' er))"
      proof (rule notI)
        assume all: "j < k \<and> k \<le> 10 \<and> (\<forall>i \<in> {j..<k}. \<exists>er. answer i = Some er \<and> sublist ''Unauthorized'' er)"
        then have "j \<in> {j..<k}" by simp
        with all obtain er' where "answer j = Some er'" "sublist ''Unauthorized'' er'" by blast
        with Some False all show False by simp
      qed
      with False Some 1(2) show ?thesis by (subst new_manager.simps) (auto simp: order_le_less)
    qed
  qed
qed

section \<open>An accepted environment starts the watcher\<close>

lemma FromEnv_redactor:
  assumes "FromEnv compile pq env = Inr cfg"
  shows "\<exists>rules. NewRedactor compile (ExtraRedactPatterns cfg) = Inr rules"
proof -
  let ?P = "\<lambda>ps. \<exists>rules. NewRedactor compile ps = Inr rules"
  have "maintains (extra_patterns compile) (\<lambda>c. ?P (ExtraRedactPatterns c))"
    by (auto simp: maintains_def extra_patterns_def Let_def split: sum.splits if_splits)
  moreover have "?P (ExtraRedactPatterns zero_Config)" by (simp add: zero_Config_def NewRedactor_def)
  ultimately show ?thesis
    by (intro run_maintains_field [OF assms [unfolded FromEnv_def], where f = ExtraRedactPatterns and P = ?P])
      (simp_all add: field_defs)
qed

lemma or_fatal_Running: "or_fatal er msg k = Running w \<longleftrightarrow> er = None \<and> k = Running w"
  by (simp add: or_fatal_def split: option.split)

lemma all_or_fatal_Running: "all_or_fatal f xs msg k = Running w \<longleftrightarrow> list_all (\<lambda>x. f x = None) xs \<and> k = Running w"
  by (induction xs) (auto simp: or_fatal_Running)

text \<open>What the watcher needs from its surroundings besides an accepted environment.\<close>

definition sink_credentials :: "host \<Rightarrow> bool" where
  "sink_credentials h \<longleftrightarrow> github_id (hoGetenv h) ''GITHUB_APP_ID'' \<noteq> None
     \<and> github_id (hoGetenv h) ''GITHUB_APP_INSTALLATION_ID'' \<noteq> None
     \<and> (case hoReadFile h private_key_path of Inl _ \<Rightarrow> False
        | Inr pem \<Rightarrow> (case hoParseKey h pem of Inl _ \<Rightarrow> False | Inr _ \<Rightarrow> True))"

definition manager_comes_up :: "(int \<Rightarrow> string option) \<Rightarrow> bool" where
  "manager_comes_up answer \<longleftrightarrow>
     (\<exists>k \<in> {1..10}. answer k = None \<and> (\<forall>i \<in> {1..<k}. \<exists>er. answer i = Some er \<and> sublist ''Unauthorized'' er))"

definition host_ready :: "host \<Rightarrow> Config \<Rightarrow> bool" where
  "host_ready h cfg \<longleftrightarrow> ''--version'' \<notin> set (drop 1 (hoArgs h))
     \<and> hoLevel h (LogLevel cfg) = None \<and> hoBuildLogger h (LogLevel cfg) = None
     \<and> list_all (\<lambda>x. hoAddToScheme h x = None) [''client-go'', ''batchv1'', ''v1alpha1 remediation'']
     \<and> hoGetConfig h = None \<and> manager_comes_up (hoNewManager h)
     \<and> list_all (\<lambda>x. hoSetup h x = None) (''RemediationJob'' # provider_kinds)
     \<and> hoAddCheck h ''healthz'' = None \<and> hoAddCheck h ''readyz'' = None \<and> hoStart h = None
     \<and> (PRAutoClose cfg \<longrightarrow> sink_credentials h)"

lemma sink_credentials_wired: "(PRAutoClose cfg \<longrightarrow> sink_credentials h) \<longleftrightarrow> (\<exists>api. wire_sinks h a cfg = Inr api)"
  by (auto simp: wire_sinks_def sink_credentials_def Let_def split: option.splits sum.splits)

lemma manager_comes_up_iff: "manager_comes_up answer \<longleftrightarrow> (\<exists>k. new_manager answer 1 = Inr k)"
  by (auto simp: manager_comes_up_def new_manager_Inr)

lemma wire_and_run_accepted:
  assumes "FromEnv (hoCompile h) (hoParseQuantity h) env = Inr cfg"
  shows "wire_and_run h a cfg = Running w \<longleftrightarrow>
    (\<exists>redactor corr api. NewRedactor (hoCompile h) (ExtraRedactPatterns cfg) = Inr redactor
      \<and> buildCorrelator (acEnv a) cfg = Inr corr \<and> wire_sinks h a cfg = Inr api
      \<and> list_all (\<lambda>x. hoSetup h x = None) (''RemediationJob'' # provider_kinds)
      \<and> hoAddCheck h ''healthz'' = None \<and> hoAddCheck h ''readyz'' = None \<and> hoStart h = None
      \<and> w = \<lparr>waCfg = cfg, waCache = cache_options_for cfg,
          waController = \<lparr>rcEnv = acEnv a, rcCfg = cfg, rcBuild = build_job h (builder_config cfg),
            rcRecorder = True, rcCorrelator = corr\<rparr>,
          waBreaker = (if SelfRemediationCooldown cfg > 0 then Some (CircuitBreaker_New (SelfRemediationCooldown cfg)) else None),
          waCaches = (NewCachedChecker ReadinessCacheTTL, NewCachedChecker ReadinessCacheTTL),
          waProviders = map2 (source_reconciler a cfg api) provider_kinds (enabledProviders (acNative a) redactor)\<rparr>)"
  using NewBuilder_accepted [OF FromEnv_valid [OF assms]]
  by (auto simp: wire_and_run_def or_fatal_Running all_or_fatal_Running Let_def split: sum.splits)

lemma accepted_correlator:
  assumes "FromEnv compile pq env = Inr cfg"
  shows "\<exists>corr. buildCorrelator e cfg = Inr corr"
  using valid_facts [OF FromEnv_valid [OF assms]] by (auto simp: buildCorrelator_def)

lemma watcher_main_Running:
  assumes "FromEnv (hoCompile h) (hoParseQuantity h) (hoGetenv h) = Inr cfg"
  shows "watcher_main h a = Running w \<longleftrightarrow> ''--version'' \<notin> set (drop 1 (hoArgs h)) \<and> logging_New h (LogLevel cfg) = None
    \<and> list_all (\<lambda>x. hoAddToScheme h x = None) [''client-go'', ''batchv1'', ''v1alpha1 remediation'']
    \<and> hoGetConfig h = None \<and> manager_comes_up (hoNewManager h) \<and> wire_and_run h a cfg = Running w"
  by (auto simp: watcher_main_def assms list_ex_iff or_fatal_Running all_or_fatal_Running manager_comes_up_iff split: sum.splits)

lemma runs_iff_ready:
  assumes "FromEnv (hoCompile h) (hoParseQuantity h) (hoGetenv h) = Inr cfg"
  shows "(\<exists>w. watcher_main h a = Running w) \<longleftrightarrow> host_ready h cfg"
proof -
  have log: "logging_New h (LogLevel cfg) = None \<longleftrightarrow> hoLevel h (LogLevel cfg) = None \<and> hoBuildLogger h (LogLevel cfg) = None"
    using valid_facts [OF FromEnv_valid [OF assms]] by (simp add: logging_New_def split: option.split)
  show ?thesis
    using FromEnv_redactor [OF assms] accepted_correlator [OF assms, of "acEnv a"] sink_credentials_wired [of cfg h a]
    unfolding watcher_main_Running [OF assms] wire_and_run_accepted [OF assms] host_ready_def log by blast
qed

text \<open>
  C18. An accepted environment starts the watcher: if \<open>FromEnv\<close> accepts the environment, the process
  runs exactly when its surroundings are ready: the log level is known, the schemes register, there is
  a client configuration (without one \<open>ctrl.GetConfigOrDie\<close> ends the process), the manager comes up within ten attempts of which all but the last fail with \<open>Unauthorized\<close>, the
  controllers and probes can be added, and with \<open>PR_AUTO_CLOSE\<close> the credentials of the App are there. The
  builder, the redactor and the correlator never end the process.
\<close>

theorem accepted_environment_starts:
  assumes "FromEnv (hoCompile h) (hoParseQuantity h) (hoGetenv h) = Inr cfg"
  shows "(\<exists>w. watcher_main h a = Running w) \<longleftrightarrow> host_ready h cfg"
  using assms by (rule runs_iff_ready)

definition sample_host :: host where
  "sample_host = \<lparr>hoArgs = [''watcher''], hoGetenv = minimal_env(''GITHUB_APP_ID'' := ''1'', ''GITHUB_APP_INSTALLATION_ID'' := ''2''), hoCompile = no_patterns, hoParseQuantity = accept_all,
     hoLevel = (\<lambda>_. None), hoBuildLogger = (\<lambda>_. None), hoAddToScheme = (\<lambda>_. None), hoGetConfig = None,
     hoNewManager = (\<lambda>i. if i < 3 then Some ''Unauthorized'' else None),
     hoReadFile = (\<lambda>_. Inr ''pem''), hoParseKey = (\<lambda>_. Inr (\<lambda>_ _ _. Inr ''jwt'')),
     hoSetup = (\<lambda>_. None), hoAddCheck = (\<lambda>_. None), hoStart = None\<rparr>"

lemma sample_FromEnv: "FromEnv (hoCompile sample_host) (hoParseQuantity sample_host) (hoGetenv sample_host) = Inr default_Config"
  by (simp add: sample_host_def FromEnv_def block_defs rbac_scope_def minimum_severity_def extra_patterns_def disable_correlation_def
      required_def choice_setting_def int_setting_def switch_setting_def list_setting_def quantity_setting_def
      minimal_env_def map_get_def zero_Config_def NewRedactor_def default_Config_def seconds_exact Let_def)

lemma sample_manager: "manager_comes_up (hoNewManager sample_host)"
  unfolding manager_comes_up_def by (rule bexI [of _ 3]) (auto simp: sample_host_def)

lemma sample_credentials: "sink_credentials sample_host"
  by (simp add: sink_credentials_def github_id_def sample_host_def strconv_Atoi_def is_digit_def in_range_def byte_val_def)

lemma sample_ready: "host_ready sample_host default_Config"
  unfolding host_ready_def using sample_manager sample_credentials by (simp add: sample_host_def default_Config_def provider_kinds_def)

theorem accepted_environment_starts_witness: "\<forall>a :: unit access. \<exists>w. watcher_main sample_host a = Running w"
  using accepted_environment_starts [OF sample_FromEnv] sample_ready by blast

text \<open>
  C19. What runs is wired as the theorems on the reconcilers assume: the configuration is the one
  of the environment, the correlator is the one \<open>buildCorrelator\<close> makes, the builder turns every job with a
  long enough fingerprint into an agent job in the agent's namespace, the circuit breaker exists exactly for
  a positive cooldown, and all six providers share the configuration and are gated by readiness checks.
\<close>

theorem running_watcher_wired:
  assumes "watcher_main h a = Running w"
  shows "FromEnv (hoCompile h) (hoParseQuantity h) (hoGetenv h) = Inr (waCfg w)
    \<and> rcCfg (waController w) = waCfg w \<and> wired_by_watcher (waController w)
    \<and> (12 \<le> length (rjFingerprint j) \<longleftrightarrow>
        (\<exists>job. rcBuild (waController w) j fs = Inr job \<and> jbNamespace job = AgentNamespace (waCfg w)))
    \<and> (waBreaker w \<noteq> None \<longleftrightarrow> 0 < SelfRemediationCooldown (waCfg w))
    \<and> length (waProviders w) = 6
    \<and> list_all (\<lambda>r. spCfg r = waCfg w \<and> ReadinessChecker r \<noteq> None \<and> SinkCloser r \<noteq> None) (waProviders w)"
proof -
  from assms obtain cfg where cfg: "FromEnv (hoCompile h) (hoParseQuantity h) (hoGetenv h) = Inr cfg"
    by (auto simp: watcher_main_def split: if_splits sum.splits)
  from assms obtain redactor corr api where w: "buildCorrelator (acEnv a) cfg = Inr corr"
    "w = \<lparr>waCfg = cfg, waCache = cache_options_for cfg,
          waController = \<lparr>rcEnv = acEnv a, rcCfg = cfg, rcBuild = build_job h (builder_config cfg),
            rcRecorder = True, rcCorrelator = corr\<rparr>,
          waBreaker = (if SelfRemediationCooldown cfg > 0 then Some (CircuitBreaker_New (SelfRemediationCooldown cfg)) else None),
          waCaches = (NewCachedChecker ReadinessCacheTTL, NewCachedChecker ReadinessCacheTTL),
          waProviders = map2 (source_reconciler a cfg api) provider_kinds (enabledProviders (acNative a) redactor)\<rparr>"
    unfolding watcher_main_Running [OF cfg] wire_and_run_accepted [OF cfg] by blast
  obtain res where "containerResources (hoParseQuantity h) (builder_config cfg) = Some res"
    using containerResources_parses [of "hoParseQuantity h" "builder_config cfg"] FromEnv_quantities [OF cfg]
    by (auto simp: builder_config_def)
  then have "12 \<le> length (rjFingerprint j) \<longleftrightarrow>
      (\<exists>job. build_job h (builder_config cfg) j fs = Inr job \<and> jbNamespace job = AgentNamespace cfg)"
    by (auto simp: build_job_def Build_def builder_config_def Job.truncate_def)
  moreover have "length (waProviders w) = 6
      \<and> list_all (\<lambda>r. spCfg r = cfg \<and> ReadinessChecker r \<noteq> None \<and> SinkCloser r \<noteq> None) (waProviders w)"
    by (simp add: w(2) provider_kinds_def enabledProviders_def source_reconciler_def)
  ultimately show ?thesis using cfg w(1) by (simp add: w(2) wired_by_watcher_def)
qed

theorem running_watcher_wired_witness:
  "\<forall>a :: unit access. \<exists>w. watcher_main sample_host a = Running w \<and> wired_by_watcher (waController w) \<and> length (waProviders w) = 6"
proof
  fix a :: "unit access"
  have "\<exists>w. watcher_main sample_host a = Running w"
    using runs_iff_ready [OF sample_FromEnv] sample_ready by blast
  then show "\<exists>w. watcher_main sample_host a = Running w \<and> wired_by_watcher (waController w) \<and> length (waProviders w) = 6"
    using running_watcher_wired by blast
qed

section \<open>What the manager's cache holds\<close>

text \<open>A namespaced object other than a secret is in the cache when its namespace is.\<close>

definition cached_namespace :: "cache_options \<Rightarrow> string \<Rightarrow> bool" where
  "cached_namespace c ns = (case DefaultNamespaces c of None \<Rightarrow> True | Some nss \<Rightarrow> List.member nss ns)"

text \<open>
  The reconcilers read the \<open>RemediationJob\<close>s and agent jobs of the agent's namespace through the
  manager's cache. With an accepted environment that namespace is in the cache only if the agent has
  cluster scope or the namespace is itself one of \<open>AGENT_WATCH_NAMESPACES\<close>, which nothing requires.
\<close>

theorem namespace_scope_hides_jobs:
  assumes "FromEnv compile pq env = Inr cfg"
  shows "cached_namespace (cache_options_for cfg) (AgentNamespace cfg) \<longleftrightarrow>
    AgentRBACScope cfg = ''cluster'' \<or> AgentNamespace cfg \<in> set (AgentWatchNamespaces cfg)"
  using FromEnv_scope [OF assms] by (auto simp: cached_namespace_def cache_options_for_def)

theorem namespace_scope_hides_jobs_witness:
  "\<exists>cfg. FromEnv no_patterns accept_all (minimal_env(''AGENT_RBAC_SCOPE'' := ''namespace'', ''AGENT_WATCH_NAMESPACES'' := ''prod'')) = Inr cfg
    \<and> \<not> cached_namespace (cache_options_for cfg) (AgentNamespace cfg)"
proof -
  let ?cfg = "default_Config\<lparr>AgentRBACScope := ''namespace'', AgentWatchNamespaces := [''prod'']\<rparr>"
  have split: "comma_list ''prod'' = [''prod'']" by code_simp
  have run: "FromEnv no_patterns accept_all (minimal_env(''AGENT_RBAC_SCOPE'' := ''namespace'', ''AGENT_WATCH_NAMESPACES'' := ''prod'')) = Inr ?cfg"
    by (simp add: FromEnv_def block_defs rbac_scope_def minimum_severity_def extra_patterns_def disable_correlation_def split
        required_def choice_setting_def int_setting_def switch_setting_def list_setting_def quantity_setting_def
        minimal_env_def map_get_def zero_Config_def NewRedactor_def default_Config_def seconds_exact Let_def)
  have "\<not> (AgentRBACScope ?cfg = ''cluster'' \<or> AgentNamespace ?cfg \<in> set (AgentWatchNamespaces ?cfg))"
    by (simp add: default_Config_def)
  with run namespace_scope_hides_jobs [OF run] show ?thesis by blast
qed

end
