(* ===== verification/Spec2Isabelle.thy ===== *)
theory Spec2Isabelle
  imports Correlator Provider Controller Lifecycle Dispatch Redact Settings JobBuilder Native Cache Readiness Sink Metrics DeepCopy Starvation Watcher
begin

text \<open>
  A verification of the mechanic watcher (\<open>src/cmd/watcher\<close>, \<open>src/internal\<close>, \<open>src/api\<close>), the controller
  that turns failures in a Kubernetes cluster into investigations by an agent.

  \<^bold>\<open>The program.\<close> Six native providers watch pods, deployments, claims, nodes, stateful sets and jobs.
  The source provider reconciler passes what a provider finds through a chain of gates (injection,
  namespace, severity, self-remediation with a circuit breaker, stabilisation window, deduplication by
  fingerprint, parent hierarchy, readiness) and creates a \<open>RemediationJob\<close>. The \<open>RemediationJob\<close> controller drives
  that object through its phases: it waits for the correlation window, groups related jobs with the
  correlator, suppresses the peers of a primary, observes the concurrency limit and dispatches the agent's
  Kubernetes job with the job builder, then follows that job until the time to live ends. When the cause is
  gone the provider cancels the open jobs and closes the pull request or issue at GitHub. \<open>main\<close>
  reads the configuration from the environment and wires all of this.

  \<^bold>\<open>The theories\<close>, in the order of their dependence, with the files they model:

  \<^item> Prelude: integers with their widths, time and durations as Go has them, bytes, the functions of
    package \<open>strings\<close>, errors, and a Hoare calculus for the state monad. Strconv: \<open>strconv.Atoi\<close>. Json: UTF-8,
    \<open>encoding/json\<close> for the values the program reads and writes. Sha256: the digest. Regex: regular expressions
    with Go's leftmost-first matching.
  \<^item> Types: \<open>api/v1alpha1/remediationjob_types.go\<close> and the Kubernetes objects that are read. DeepCopy: its deep copies, on
    a store with pointers.
    Domain: \<open>domain/severity.go\<close>, \<open>annotations.go\<close>, \<open>delimiter.go\<close>. Injection: \<open>domain/injection.go\<close>.
    Fingerprint: \<open>domain/provider.go\<close>. Redact: \<open>domain/redact.go\<close> and \<open>cmd/redact/main.go\<close>.
  \<^item> BoundedMap and Cache: \<open>bounded_map.go\<close> of the provider package and the abstract cache it refines. CircuitBreaker:
    \<open>circuitbreaker/circuitbreaker.go\<close>. Both state what the reconciler relies on as a locale
    (\<open>first_seen_store\<close>, \<open>gater\<close>) that the model interprets.
  \<^item> Config and Settings: \<open>config/config.go\<close>, the record and \<open>FromEnv\<close>.
  \<^item> World: the state of the reconcilers and all they call outside; Cluster: a small cluster on which the
    witnesses run.
  \<^item> Correlator: \<open>correlator/correlator.go\<close>, \<open>rules.go\<close> and \<open>buildCorrelator\<close>; the contract of a rule is the locale
    \<open>correlation_rule\<close>, interpreted by all three rules.
  \<^item> Provider: \<open>provider/provider.go\<close>, with Starvation about its windows. Native: \<open>provider/native\<close>.
  \<^item> Controller: \<open>controller/remediationjob_controller.go\<close>; Lifecycle and Dispatch hold the theorems about it.
  \<^item> JobBuilder: \<open>jobbuilder/job.go\<close>. Readiness: \<open>readiness\<close>. Sink: \<open>github/token.go\<close> and \<open>sink/github\<close>.
    The contracts of a closer and of a merge checker are the locales \<open>sink_closer\<close> and \<open>merge_checker\<close>, interpreted on
    the GitHub and the no-op implementations.
    Metrics: \<open>metrics/metrics.go\<close>. Watcher: \<open>cmd/watcher/main.go\<close> and \<open>logging/logging.go\<close>.

  \<^bold>\<open>How state and effects are modelled.\<close> A reconcile is a program of the state monad over a world of
  which nothing is assumed. The Kubernetes API, the clock, the iteration order of maps, random ids, HTTP and zap are
  functions on that world, so that the theorems hold for stale lists, failing calls and actors that interfere between two
  calls. Every mutating call, event and metric is appended to a trace with its result; most safety theorems
  are statements about that trace. Errors are values of sum and option types, one branch for each return of
  the code; a panic or a \<open>Fatal\<close> is a result of its own. Durations wrap around or saturate as in Go.

  \<^bold>\<open>What is shown.\<close>

  \<^item> Life of a job (Lifecycle, Dispatch): phases follow the state machine and final phases are
    final (but for a group primary that another writer moves while its labels are patched), one dispatch at most and
    only of a job the server reported as pending, the concurrency limit, the order of suppression and dispatch, the
    correlation window, the time to live; the retry counter over the joint history of both reconcilers with merge patches,
    stale versions and other writers.
  \<^item> Creation (Provider, Cache, CircuitBreaker): what passes every gate, deduplication, the window, at most
    one creation, the exact writes of a cancellation when the source is gone, and that an admissible finding
    is investigated once its window has passed. The first-seen map refines a cache with a capacity and expiries; grants of the breaker are spaced.
  \<^item> Identity of findings (Fingerprint, Native): equal fingerprints mean equal findings up to order unless SHA-256
    collides, replicas share one, every native finding gets one, the walk up the owners ends and finds the
    root, and self-remediation is bounded in depth.
  \<^item> Texts (Redact, Injection, Domain): no long base64 run survives, filter and watcher redact alike, the injection check
    finds exactly the listed phrases, which are written out independently of the patterns.
  \<^item> Configuration and process (Settings, JobBuilder, Watcher): bounds of every accepted configuration,
    the round trip through the environment, well-formed and confined pods, when the process starts, and that what
    runs is wired as the theorems on the reconcilers assume.
  \<^item> Surroundings (Readiness, Sink, Metrics): answers of a cached checker are fresh under any interleaving, a close sends its
    requests in order and is idempotent, the counter of dispatched findings is exact, a deep copy shares nothing, and, in this theory, the
    readiness gate and the secrets that the variables of a built pod refer to.

  Some theorems state where the code does less than its documentation says: a healthy object restarts every
  stabilisation window, a lone self-remediation finding is never investigated under the default settings, a retry count
  exceeds the number of races by at most one and so never reaches a larger cap without them, the primary of a group is dispatched on a full cluster,
  stores into a full first-seen map are never refused, the secret the pod mounts is not checked, deletion at the end of the time to live
  reports an error, a large stabilisation window wraps to a negative one, and a namespaced agent hides the
  watcher's own jobs from its cache.

  \<^bold>\<open>Parameters and hypotheses.\<close> The compiler of extra patterns (\<open>regexp.Compile\<close>), \<open>resource.ParseQuantity\<close>, the conditions
  helpers of apimachinery, URL parsing and the signing of tokens are arguments. Where a theorem needs documented behaviour of
  such code it is a named hypothesis: \<open>lists_job\<close> (a list call returns a job whose labels match), \<open>reads_store\<close> (secrets
  are read as stored), \<open>serves\<close> (the REST API reports and changes an item as documented), \<open>permutes_entries\<close> (Go iterates over the
  entries of a map, in any order); each has an instance in a witness. \<open>wired_by_watcher\<close> says that the correlator is the one \<open>main\<close> makes,
  and Watcher proves it of what runs. Two theorems are about a scenario, which their hypotheses describe: \<open>unobstructed\<close> and \<open>stable\<close> (a finding to which
  nothing objects, after its window), \<open>full\<close> and \<open>accepted\<close> (a cluster at its limit whose API accepts patches and creations). The other theorems of
  Lifecycle and Dispatch assume nothing of what the API answers; in particular what a patch returns need not be what was sent. Only the
  history of a job (\<open>history\<close>) speaks of the effect of a patch on the stored job: there it is the JSON merge patch (\<open>merged\<close>).

  \<^bold>\<open>Bounds and fuel.\<close> The JSON parser takes twice the length of its input as fuel, which is proved to be
  enough; \<open>getParent\<close> is bounded by the ten levels of the code, the attempts to create the manager by the ten of the
  loop. All other loops are structural or have a measure.

  \<^bold>\<open>Not modelled.\<close> Log lines; extra patterns with anchors or word boundaries; white space beyond ASCII at the ends of settings;
  phases outside of the enumeration of the CRD; registration with schemes and with the manager (\<open>SetupWithManager\<close>, watches and
  predicates of controller-runtime); the Prometheus objects behind the metrics; reading standard input and exit codes of \<open>cmd/redact\<close>; test helpers (\<open>internal/testutil\<close>); charts,
  images, prompts and shell scripts. The escapes that \<open>%q\<close> applies to unusual characters in error texts are left out.
\<close>

section \<open>The readiness gate and what the agent needs\<close>

text \<open>Every secret reference among the variables of a pod's containers.\<close>

definition secret_refs :: "PodSpec \<Rightarrow> (string \<times> string) list" where
  "secret_refs p = List.map_filter evSecretKeyRef (concat (map coEnv (psInitContainers p @ psContainers p)))"

lemma secret_refs_agent_pod:
  "set (secret_refs (agent_pod c j fs res)) =
     {(''github-app'', ''app-id''), (''github-app'', ''installation-id''), (''github-app'', ''private-key''),
      (''llm-credentials-'' @ bcAgentType c, ''provider-config'')}"
proof -
  have extra: "List.map_filter evSecretKeyRef (extra_env c j fs) = []"
    by (simp add: extra_env_def env_value_def map_filter_def split: option.split)
  have base: "List.map_filter evSecretKeyRef (base_env c j) = [(''llm-credentials-'' @ bcAgentType c, ''provider-config'')]"
    by (simp add: base_env_def env_value_def env_secret_def map_filter_def Let_def)
  have init: "List.map_filter evSecretKeyRef (coEnv (initContainer j res)) =
      [(''github-app'', ''app-id''), (''github-app'', ''installation-id''), (''github-app'', ''private-key'')]"
    by (simp add: initContainer_def env_value_def env_secret_def map_filter_def)
  have gate: "coEnv (gateContainer c j res) = []" by (simp add: gateContainer_def)
  have app: "List.map_filter f (xs @ ys) = List.map_filter f xs @ List.map_filter f ys" for f :: "EnvVar \<Rightarrow> (string \<times> string) option" and xs ys
    by (simp add: map_filter_def)
  show ?thesis by (auto simp: secret_refs_def agent_pod_def app init gate mainContainer_def base extra)
qed

text \<open>The secrets a pod mounts as volumes.\<close>

definition secret_volumes :: "PodSpec \<Rightarrow> string list" where
  "secret_volumes p = List.map_filter (\<lambda>v. case voSource v of SecretVolume name \<Rightarrow> Some name | _ \<Rightarrow> None) (psVolumes p)"

lemma secret_volumes_agent_pod: "secret_volumes (agent_pod c j fs res) = [''mechanic-agent-token'']"
  by (simp add: secret_volumes_def agent_pod_def pod_volumes_def empty_dir_def map_filter_def)

text \<open>The secrets the readiness checkers look at: that of the GitHub App only for the GitHub sink.\<close>

definition gated :: "Config \<Rightarrow> string \<Rightarrow> bool" where
  "gated cfg name \<longleftrightarrow> name = ''github-app'' \<longrightarrow> SinkType cfg = ''github''"

text \<open>
  C20. The readiness gate and the environment of the agent's pod fit together: when secrets are read as
  they are stored, reading the clock changes nothing, the context is not cancelled and neither cache
  holds a fresh answer, the gate opens exactly when every secret key that a variable of the
  built pod refers to exists and is not empty in the namespace of the pod, where the keys of the GitHub App
  count only for the GitHub sink; for another sink the pod refers to them as well and nobody
  checks them. The secret the pod mounts as a volume, \<open>mechanic-agent-token\<close>, is not
  among what is checked: an open gate does not promise that the pod starts.
\<close>

theorem readiness_covers_secrets:
  assumes "reads_store secrets st" and "\<And>w. snd (clock w) = w" and "uncached clock c1" and "uncached clock c2"
    and "Build pq (builder_config cfg) (Some j) fs = Some (Inr job)"
  shows "(fst (run_state (combinedChecker clock secrets (ret None) cfg) (w, c1, c2)) = None \<longleftrightarrow>
      list_all (\<lambda>(name, key). gated cfg name \<longrightarrow> has_keys (st (jbNamespace job) name) [key]) (secret_refs (ajPod job)))
    \<and> secret_volumes (ajPod job) = [''mechanic-agent-token'']"
proof -
  from assms(5) obtain res where job: "ajPod job = agent_pod (builder_config cfg) j fs res" "jbNamespace job = AgentNamespace cfg"
    by (rule Build_cases) (simp add: builder_config_def)
  show ?thesis
    unfolding combinedChecker_passes [OF assms(1-4)] job list_all_iff secret_refs_agent_pod gated_def secret_volumes_agent_pod
    by (auto simp: has_keys_def builder_config_def split: sum.splits)
qed

definition sample_secrets :: "string \<Rightarrow> string \<Rightarrow> api_error + (string \<rightharpoonup> string)" where
  "sample_secrets ns name = (if name = ''mechanic-agent-token'' then Inl NotFound else Inr (\<lambda>_. Some ''x''))"

theorem readiness_covers_secrets_witness:
  "fst (run_state (combinedChecker (Pair (5 * Second)) (\<lambda>ns n. ret (sample_secrets ns n)) (ret None) (default_Config\<lparr>DryRun := True\<rparr>))
      ((), NewCachedChecker Minute, NewCachedChecker Minute)) = None
   \<and> secret_volumes (ajPod sample_agent_job) = [''mechanic-agent-token'']
   \<and> sample_secrets (jbNamespace sample_agent_job) ''mechanic-agent-token'' = Inl NotFound"
proof -
  let ?secrets = "(\<lambda>ns n. ret (sample_secrets ns n)) :: unit secrets"
  have r: "reads_store ?secrets sample_secrets" by (simp add: reads_store_def)
  have c: "snd (Pair (5 * Second) w) = w" for w :: unit by simp
  obtain j fs res where "ajPod sample_agent_job = agent_pod (builder_config (default_Config\<lparr>DryRun := True\<rparr>)) j fs res"
    using sample_Build by (rule Build_cases)
  then have "list_all (\<lambda>(name, key). gated (default_Config\<lparr>DryRun := True\<rparr>) name \<longrightarrow>
      has_keys (sample_secrets (jbNamespace sample_agent_job) name) [key]) (secret_refs (ajPod sample_agent_job))"
    by (simp add: list_all_iff secret_refs_agent_pod gated_def has_keys_def sample_secrets_def map_get_def)
  with readiness_covers_secrets [OF r c uncached_new uncached_new sample_Build] show ?thesis
    by (simp add: sample_secrets_def)
qed

end
